(* ===== verification/Prelude.thy ===== *)
theory Prelude
  imports Complex_Main "HOL-Library.AList"
begin

text \<open>
  Shared vocabulary of the development: Python exceptions as values, ordered dictionaries,
  Python slices, and the locale of state machines whose steps keep an invariant.

  Conventions used by every theory:
  \<^item> a Python \<open>dict\<close> whose order or size matters is an association list with distinct keys;
    \<open>d[k] = v\<close> is \<^const>\<open>AList.update\<close> (in place, or appended), \<open>del d[k]\<close> is
    \<^const>\<open>AList.delete\<close>, \<open>d.get(k)\<close> is \<^const>\<open>map_of\<close>;
  \<^item> a Python \<open>float\<close> is a real number, with exact arithmetic; where the code can meet
    infinities or NaN the theory \<open>Py_Float\<close> is used instead;
  \<^item> \<open>time.time()\<close> and \<open>time.monotonic()\<close> are arguments named \<open>now\<close>;
  \<^item> a call that may raise returns \<open>exn + 'a\<close>, with \<open>Inl\<close> for the exception;
  \<^item> calls on the logger are left out.
\<close>

subsection \<open>Exceptions\<close>

datatype exn =
    Key_Error string
  | Value_Error string
  | Type_Error string
  | Attribute_Error string
  | Runtime_Error string
  | Config_Error string
  | Timeout_Error
  | Zero_Division_Error
  | Cancelled_Error
  | Os_Error string
  | Connection_Error string
  | Operational_Error string
  | Other_Error string

text \<open>
  \<open>except Exception\<close> catches everything but \<open>asyncio.CancelledError\<close>, which derives
  from \<open>BaseException\<close>.
\<close>

fun is_exception :: "exn \<Rightarrow> bool" where
  "is_exception Cancelled_Error = False"
| "is_exception _ = True"

text \<open>\<open>str(e)\<close>; a \<open>KeyError\<close> shows its key in quotes.\<close>

fun exn_text :: "exn \<Rightarrow> string" where
  "exn_text (Key_Error s) = char_of (39 :: nat) # s @ [char_of (39 :: nat)]"
| "exn_text (Value_Error s) = s"
| "exn_text (Type_Error s) = s"
| "exn_text (Attribute_Error s) = s"
| "exn_text (Runtime_Error s) = s"
| "exn_text (Config_Error s) = s"
| "exn_text Timeout_Error = ''''"
| "exn_text Zero_Division_Error = ''division by zero''"
| "exn_text Cancelled_Error = ''''"
| "exn_text (Os_Error s) = s"
| "exn_text (Connection_Error s) = s"
| "exn_text (Operational_Error s) = s"
| "exn_text (Other_Error s) = s"

subsection \<open>Slices\<close>

text \<open>\<open>xs[:n]\<close> and \<open>xs[-n:]\<close> for any integer \<open>n\<close>.\<close>

definition slice_to :: "'a list \<Rightarrow> int \<Rightarrow> 'a list" where
  "slice_to xs n =
     (if 0 \<le> n then take (nat n) xs else take (length xs - nat (- n)) xs)"

definition slice_from :: "'a list \<Rightarrow> int \<Rightarrow> 'a list" where
  "slice_from xs n =
     (if 0 \<le> n then drop (nat n) xs else drop (length xs - nat (- n)) xs)"

lemma length_slice_to_le: "0 \<le> n \<Longrightarrow> int (length (slice_to xs n)) \<le> n"
  by (simp add: slice_to_def)

lemma set_slice_to: "set (slice_to xs n) \<subseteq> set xs"
  by (auto simp: slice_to_def dest: in_set_takeD)

lemma length_slice_from_neg: "n < 0 \<Longrightarrow> int (length (slice_from xs n)) \<le> - n"
  by (simp add: slice_from_def)

lemma set_slice_from: "set (slice_from xs n) \<subseteq> set xs"
  by (auto simp: slice_from_def dest: in_set_dropD)

lemma slice_from_all: "int (length xs) \<le> n \<Longrightarrow> slice_from xs (- n) = xs"
  by (cases "n = 0") (auto simp: slice_from_def)

subsection \<open>Truncation and sorting\<close>

text \<open>\<open>int(x)\<close> on a float, and SQL's \<open>CAST(x AS INTEGER)\<close>: rounding towards zero.\<close>

definition trunc_int :: "real \<Rightarrow> int" where
  "trunc_int x = (if 0 \<le> x then \<lfloor>x\<rfloor> else \<lceil>x\<rceil>)"

text \<open>\<open>round\<close> and the fixed-point formats: halves go to the even neighbour.\<close>

definition round_half_even :: "real \<Rightarrow> int" where
  "round_half_even x =
     (let f = \<lfloor>x\<rfloor>; r = x - real_of_int f
      in if r < 1 / 2 then f else if 1 / 2 < r then f + 1 else if even f then f else f + 1)"

lemma sorted_take_le:
  "sorted (map f xs) \<Longrightarrow> a \<in> set (take n xs) \<Longrightarrow> b \<in> set (drop n xs) \<Longrightarrow> f a \<le> f b"
proof -
  assume "sorted (map f xs)" "a \<in> set (take n xs)" "b \<in> set (drop n xs)"
  moreover have "map f xs = map f (take n xs) @ map f (drop n xs)"
    by (metis append_take_drop_id map_append)
  ultimately show ?thesis by (auto simp: sorted_append)
qed

subsection \<open>Ordered dictionaries\<close>

type_synonym ('k, 'v) pydict = "('k \<times> 'v) list"

definition dict_ok :: "('k, 'v) pydict \<Rightarrow> bool" where
  "dict_ok d \<longleftrightarrow> distinct (map fst d)"

named_theorems dict_simps \<open>facts on ordered dictionaries\<close>

lemma dict_ok_Nil [dict_simps, simp]: "dict_ok []"
  by (simp add: dict_ok_def)

lemma dict_ok_update [dict_simps, simp]: "dict_ok d \<Longrightarrow> dict_ok (AList.update k v d)"
  by (simp add: dict_ok_def distinct_update)

lemma dict_ok_delete [dict_simps, simp]: "dict_ok d \<Longrightarrow> dict_ok (AList.delete k d)"
  by (simp add: dict_ok_def distinct_delete)

lemma map_of_update [dict_simps, simp]:
  "map_of (AList.update k v d) j = (if j = k then Some v else map_of d j)"
  by (simp add: update_conv')

lemma map_of_delete [dict_simps, simp]:
  "map_of (AList.delete k d) j = (if j = k then None else map_of d j)"
  by (simp add: delete_conv')

lemma length_update_new:
  "map_of d k = None \<Longrightarrow> length (AList.update k v d) = Suc (length d)"
  by (induction d) (auto split: if_splits)

lemma length_update_old:
  "map_of d k \<noteq> None \<Longrightarrow> length (AList.update k v d) = length d"
  by (induction d) (auto split: if_splits)

lemma length_update_eq:
  "length (AList.update k v d) = (if map_of d k = None then Suc (length d) else length d)"
  using length_update_new [of d k v] length_update_old [of d k v] by simp

lemma length_delete_le [simp]: "length (AList.delete k d) \<le> length d"
  by (simp add: AList.delete_eq length_filter_le)

lemma update_new: "map_of d k = None \<Longrightarrow> AList.update k v d = d @ [(k, v)]"
  by (induction d) (auto split: if_splits)

lemma map_fst_update:
  "map fst (AList.update k v d) =
     (if map_of d k = None then map fst d @ [k] else map fst d)"
  by (induction d) (auto split: if_splits)

lemma map_of_SomeD_key: "map_of d k = Some v \<Longrightarrow> k \<in> fst ` set d"
  by (metis fst_conv image_eqI map_of_SomeD)

lemma set_update_old_subset: "set (AList.update k v d) \<subseteq> insert (k, v) (set d)"
  by (induction d) auto

lemma update_values:
  "(\<forall>p \<in> set d. P p) \<Longrightarrow> P (k, v) \<Longrightarrow> (\<forall>p \<in> set (AList.update k v d). P p)"
  using set_update_old_subset by fastforce

lemma set_delete_subset: "set (AList.delete k d) \<subseteq> set d"
  by (auto simp: AList.delete_eq)

subsection \<open>State machines that keep an invariant\<close>

text \<open>
  Every component of the system is a state with operations. An invariant that each
  operation keeps holds after any sequence of operations; the induction is done once here,
  and each component interprets the locale on its own step function.
\<close>

locale kept_invariant =
  fixes step :: "'s \<Rightarrow> 'o \<Rightarrow> 's"
    and inv :: "'s \<Rightarrow> bool"
  assumes step_keeps: "inv s \<Longrightarrow> inv (step s op)"
begin

lemma run_keeps: "inv s \<Longrightarrow> inv (foldl step s ops)"
  by (induction ops arbitrary: s) (auto intro: step_keeps)

lemma run_keeps_prefix: "inv s \<Longrightarrow> inv (foldl step s (take n ops))"
  by (rule run_keeps)

end

text \<open>
  The same for invariants that need something of the operation (a time that does not run
  backwards, a capacity in force): \<open>guard\<close> says which operations are allowed.
\<close>

locale guarded_invariant =
  fixes step :: "'s \<Rightarrow> 'o \<Rightarrow> 's"
    and inv :: "'s \<Rightarrow> bool"
    and guard :: "'s \<Rightarrow> 'o \<Rightarrow> bool"
  assumes guarded_step: "inv s \<Longrightarrow> guard s op \<Longrightarrow> inv (step s op)"
begin

fun guarded_run :: "'s \<Rightarrow> 'o list \<Rightarrow> bool" where
  "guarded_run s [] = True"
| "guarded_run s (op # ops) = (guard s op \<and> guarded_run (step s op) ops)"

lemma guarded_run_keeps: "inv s \<Longrightarrow> guarded_run s ops \<Longrightarrow> inv (foldl step s ops)"
  by (induction ops arbitrary: s) (auto intro: guarded_step)

end

sublocale kept_invariant \<subseteq> guarded_invariant step inv "\<lambda>_ _. True"
  by unfold_locales (simp add: step_keeps)

end
