(* ===== verification/Ab_Test.thy ===== *)
theory Ab_Test
  imports Prelude
begin

text \<open>
  The A/B test manager of \<open>model_management/ab_test_manager.py\<close>: sticky assignment of
  devices to groups, metrics per variant, and the evaluation that names a winner. The draw
  \<open>random.random()\<close> is the argument \<open>u\<close>. The lemmas show that evaluation never fails, that
  the confidence is a fraction, that the winner is the better variant and that a device keeps
  its group.
\<close>

subsection \<open>State and operations\<close>

datatype ab_group = Control | Treatment

fun group_value :: "ab_group \<Rightarrow> string" where
  "group_value Control = ''control''"
| "group_value Treatment = ''treatment''"

record variant_metrics =
  variant_name :: string
  total_inferences :: int
  total_latency_ms :: real
  correct_detections :: int
  total_detections :: int

definition new_variant :: "string \<Rightarrow> variant_metrics" where
  "new_variant name = \<lparr>variant_name = name, total_inferences = 0, total_latency_ms = 0,
     correct_detections = 0, total_detections = 0\<rparr>"

definition avg_latency_ms :: "variant_metrics \<Rightarrow> real" where
  "avg_latency_ms v = total_latency_ms v / real_of_int (max (total_inferences v) 1)"

definition accuracy :: "variant_metrics \<Rightarrow> real" where
  "accuracy v = real_of_int (correct_detections v) / real_of_int (max (total_detections v) 1)"

record ab_manager =
  control_name :: string
  treatment_name :: string
  traffic_split :: real
  min_samples :: int
  metric :: string
  device_groups :: "(string, ab_group) pydict"
  variants :: "(string, variant_metrics) pydict"

record ab_result =
  winner :: string
  control_metrics :: variant_metrics
  treatment_metrics :: variant_metrics
  confidence :: real
  sufficient_samples :: bool

definition new_ab_manager :: "string \<Rightarrow> string \<Rightarrow> real \<Rightarrow> int \<Rightarrow> string \<Rightarrow> ab_manager" where
  "new_ab_manager ctrl treat split minimum met =
     \<lparr>control_name = ctrl, treatment_name = treat, traffic_split = max 0 (min 1 split),
      min_samples = minimum, metric = met, device_groups = [],
      variants = AList.update treat (new_variant treat) [(ctrl, new_variant ctrl)]\<rparr>"

definition assign_group :: "ab_manager \<Rightarrow> string \<Rightarrow> real \<Rightarrow> ab_group \<times> ab_manager" where
  "assign_group m did u =
     (case map_of (device_groups m) did of
        Some g \<Rightarrow> (g, m)
      | None \<Rightarrow>
          let g = (if u < traffic_split m then Treatment else Control)
          in (g, m\<lparr>device_groups := AList.update did g (device_groups m)\<rparr>))"

definition get_group :: "ab_manager \<Rightarrow> string \<Rightarrow> ab_group option" where
  "get_group m did = map_of (device_groups m) did"

definition get_variant :: "ab_manager \<Rightarrow> string \<Rightarrow> real \<Rightarrow> string \<times> ab_manager" where
  "get_variant m did u =
     (let (g, m1) = assign_group m did u
      in (if g = Control then control_name m1 else treatment_name m1, m1))"

definition record_inference :: "ab_manager \<Rightarrow> string \<Rightarrow> real \<Rightarrow> ab_manager" where
  "record_inference m name latency =
     (case map_of (variants m) name of
        None \<Rightarrow> m
      | Some v \<Rightarrow> m\<lparr>variants := AList.update name
            (v\<lparr>total_inferences := total_inferences v + 1,
               total_latency_ms := total_latency_ms v + latency\<rparr>) (variants m)\<rparr>)"

definition record_detection :: "ab_manager \<Rightarrow> string \<Rightarrow> bool \<Rightarrow> ab_manager" where
  "record_detection m name correct =
     (case map_of (variants m) name of
        None \<Rightarrow> m
      | Some v \<Rightarrow>
          let v1 = v\<lparr>total_detections := total_detections v + 1\<rparr>;
              v2 = (if correct then v1\<lparr>correct_detections := correct_detections v1 + 1\<rparr> else v1)
          in m\<lparr>variants := AList.update name v2 (variants m)\<rparr>)"

definition evaluate :: "ab_manager \<Rightarrow> exn + ab_result" where
  "evaluate m =
     (case map_of (variants m) (control_name m) of
        None \<Rightarrow> Inl (Key_Error (control_name m))
      | Some ctrl \<Rightarrow>
     (case map_of (variants m) (treatment_name m) of
        None \<Rightarrow> Inl (Key_Error (treatment_name m))
      | Some treat \<Rightarrow>
          let sufficient = (total_inferences ctrl \<ge> min_samples m \<and>
                            total_inferences treat \<ge> min_samples m);
              (win, diff) =
                (if metric m = ''latency'' then
                   (let c = avg_latency_ms ctrl; t = avg_latency_ms treat
                    in (if c \<le> t then control_name m else treatment_name m,
                        \<bar>c - t\<bar> / max (max c t) 1))
                 else
                   (let c = accuracy ctrl; t = accuracy treat
                    in (if c \<ge> t then control_name m else treatment_name m, \<bar>c - t\<bar>)))
          in Inr \<lparr>winner = win, control_metrics = ctrl, treatment_metrics = treat,
                  confidence = (if sufficient then min (diff * 10) 1 else 0),
                  sufficient_samples = sufficient\<rparr>))"

definition get_metrics :: "ab_manager \<Rightarrow> (string, variant_metrics) pydict" where
  "get_metrics m = variants m"

definition reset_variant :: "variant_metrics \<Rightarrow> variant_metrics" where
  "reset_variant v = v\<lparr>total_inferences := 0, total_latency_ms := 0,
     correct_detections := 0, total_detections := 0\<rparr>"

definition reset :: "ab_manager \<Rightarrow> ab_manager" where
  "reset m = m\<lparr>device_groups := [],
     variants := map (\<lambda>(k, v). (k, reset_variant v)) (variants m)\<rparr>"

datatype ab_op =
    Assign string real
  | Inference string real
  | Detection string bool
  | Reset

fun ab_step :: "ab_manager \<Rightarrow> ab_op \<Rightarrow> ab_manager" where
  "ab_step m (Assign did u) = snd (assign_group m did u)"
| "ab_step m (Inference name latency) = record_inference m name latency"
| "ab_step m (Detection name correct) = record_detection m name correct"
| "ab_step m Reset = reset m"

lemmas ab_defs = assign_group_def record_inference_def record_detection_def reset_def Let_def

subsection \<open>The invariant\<close>

definition variant_ok :: "variant_metrics \<Rightarrow> bool" where
  "variant_ok v \<longleftrightarrow> 0 \<le> total_inferences v \<and> 0 \<le> correct_detections v \<and>
     correct_detections v \<le> total_detections v"

definition ab_inv :: "ab_manager \<Rightarrow> bool" where
  "ab_inv m \<longleftrightarrow> map_of (variants m) (control_name m) \<noteq> None \<and>
     map_of (variants m) (treatment_name m) \<noteq> None \<and>
     (\<forall>name v. map_of (variants m) name = Some v \<longrightarrow> variant_ok v)"

lemma ab_inv_new: "ab_inv (new_ab_manager ctrl treat split minimum met)"
  by (auto simp: ab_inv_def new_ab_manager_def new_variant_def variant_ok_def)

lemma map_of_reset:
  "map_of (map (\<lambda>(k, v). (k, f v)) d) k = map_option f (map_of d k)"
  by (induction d) auto

lemma ab_inv_step: "ab_inv m \<Longrightarrow> ab_inv (ab_step m op)"
proof (cases op)
  case (Inference name latency)
  then show "ab_inv m \<Longrightarrow> ?thesis"
    by (fastforce simp: ab_inv_def record_inference_def variant_ok_def split: option.split if_splits)
next
  case (Detection name correct)
  then show "ab_inv m \<Longrightarrow> ?thesis"
    by (fastforce simp: ab_inv_def record_detection_def variant_ok_def Let_def
        split: option.split if_splits)
qed (auto simp: ab_inv_def ab_defs map_of_reset reset_variant_def variant_ok_def split: option.split)

interpretation ab: kept_invariant ab_step ab_inv
  by unfold_locales (rule ab_inv_step)

lemma ab_step_config [simp]:
  "control_name (ab_step m op) = control_name m" "treatment_name (ab_step m op) = treatment_name m"
  "metric (ab_step m op) = metric m" "min_samples (ab_step m op) = min_samples m"
  by (cases op; simp add: ab_defs split: option.split)+

lemma ab_run_config [simp]:
  "control_name (foldl ab_step m ops) = control_name m"
  "treatment_name (foldl ab_step m ops) = treatment_name m"
  "metric (foldl ab_step m ops) = metric m" "min_samples (foldl ab_step m ops) = min_samples m"
  by (induction ops arbitrary: m) simp_all

lemma accuracy_bounds: "variant_ok v \<Longrightarrow> 0 \<le> accuracy v \<and> accuracy v \<le> 1"
  by (auto simp: variant_ok_def accuracy_def divide_le_eq max_def)

lemma assign_group_known:
  "map_of (device_groups m) did = Some g \<Longrightarrow> assign_group m did u = (g, m)"
  by (simp add: assign_group_def)

lemma assign_group_stored:
  "map_of (device_groups (snd (assign_group m did u))) did = Some (fst (assign_group m did u))"
  by (simp add: assign_group_def Let_def split: option.split)

lemma group_kept:
  assumes "map_of (device_groups m) did = Some g" and "Reset \<notin> set ops"
  shows "map_of (device_groups (foldl ab_step m ops)) did = Some g"
  using assms
proof (induction ops arbitrary: m)
  case Nil
  then show ?case by simp
next
  case (Cons op ops)
  have "map_of (device_groups (ab_step m op)) did = Some g"
    using Cons.prems by (cases op) (auto simp: ab_defs split: option.split)
  then show ?case using Cons by simp
qed

subsection \<open>Properties\<close>

text \<open>
  Evaluation never fails and its result is sound: after any sequence of assignments,
  recorded inferences and detections and resets, \<open>evaluate\<close> returns a result whose winner is
  one of the two variants, the better one for the chosen metric with ties going to the
  control, and whose confidence lies between 0 and 1 and is 0 without enough samples.
\<close>

theorem ab_evaluation_sound:
  assumes m: "m = foldl ab_step (new_ab_manager ctrl treat split minimum met) ops"
  shows "\<exists>r. evaluate m = Inr r \<and> 0 \<le> confidence r \<and> confidence r \<le> 1 \<and>
           (\<not> sufficient_samples r \<longrightarrow> confidence r = 0) \<and>
           accuracy (control_metrics r) \<in> {0..1} \<and> accuracy (treatment_metrics r) \<in> {0..1} \<and>
           (winner r =
             (if (if met = ''latency''
                  then avg_latency_ms (control_metrics r) \<le> avg_latency_ms (treatment_metrics r)
                  else accuracy (treatment_metrics r) \<le> accuracy (control_metrics r))
              then ctrl else treat))"
proof -
  have inv: "ab_inv m" unfolding m by (rule ab.run_keeps) (rule ab_inv_new)
  have names: "control_name m = ctrl" "treatment_name m = treat" "metric m = met"
    by (simp_all add: m new_ab_manager_def)
  from inv obtain c t where ct: "map_of (variants m) ctrl = Some c" "map_of (variants m) treat = Some t"
    by (auto simp: ab_inv_def names)
  with inv have "variant_ok c" "variant_ok t" by (auto simp: ab_inv_def)
  then show ?thesis
    using accuracy_bounds [of c] accuracy_bounds [of t]
    by (auto simp: evaluate_def names ct Let_def)
qed

theorem ab_evaluation_sound_witness:
  "\<exists>r. evaluate (foldl ab_step (new_ab_manager ''v1'' ''v2'' (1/2) 1 ''accuracy'')
      [Inference ''v1'' 20, Inference ''v2'' 30, Detection ''v2'' True]) = Inr r \<and>
     confidence r \<le> 1"
  using ab_evaluation_sound [OF refl, of "''v1''" "''v2''" "1/2" 1 "''accuracy''"
      "[Inference ''v1'' 20, Inference ''v2'' 30, Detection ''v2'' True]"] by blast

text \<open>
  Assignment is sticky: once a device has a group, every later assignment returns
  that group, whatever is drawn and recorded in between, until a reset; and the variant it is
  given is the one of its group.
\<close>

theorem ab_assignment_sticky:
  assumes "Reset \<notin> set ops"
  shows "fst (assign_group (foldl ab_step (snd (assign_group m did u)) ops) did u') =
           fst (assign_group m did u) \<and>
         fst (get_variant (foldl ab_step (snd (assign_group m did u)) ops) did u') =
           (case fst (assign_group m did u) of Control \<Rightarrow> control_name m | Treatment \<Rightarrow> treatment_name m)"
proof -
  let ?m1 = "foldl ab_step (snd (assign_group m did u)) ops"
  have "map_of (device_groups ?m1) did = Some (fst (assign_group m did u))"
    by (rule group_kept [OF assign_group_stored assms])
  then have known: "assign_group ?m1 did u' = (fst (assign_group m did u), ?m1)"
    by (rule assign_group_known)
  have "control_name ?m1 = control_name m" "treatment_name ?m1 = treatment_name m"
    by (simp_all add: assign_group_def Let_def split: option.split)
  with known show ?thesis
    by (simp add: get_variant_def split: ab_group.split)
qed

theorem ab_assignment_sticky_witness:
  "fst (assign_group (foldl ab_step
      (snd (assign_group (new_ab_manager ''v1'' ''v2'' (1/2) 1 ''accuracy'') ''cam'' (1/10)))
      [Inference ''v1'' 20, Assign ''x'' (9/10)]) ''cam'' (9/10)) = Treatment"
proof -
  have "fst (assign_group (new_ab_manager ''v1'' ''v2'' (1/2) 1 ''accuracy'') ''cam'' (1/10))
      = Treatment"
    by (simp add: assign_group_def new_ab_manager_def)
  then show ?thesis
    using ab_assignment_sticky [of "[Inference ''v1'' 20, Assign ''x'' (9/10)]"
        "new_ab_manager ''v1'' ''v2'' (1/2) 1 ''accuracy''" "''cam''" "1/10" "9/10"] by simp
qed

end
