(* ===== verification/Circuit_Breaker.thy ===== *)
theory Circuit_Breaker
  imports Prelude
begin

text \<open>
  The three-state circuit breaker of \<open>observability/circuit_breaker.py\<close>, which the VLM
  pipeline asks before every inference. The attribute \<open>state\<close> only ever holds the strings
  \<open>"closed"\<close>, \<open>"open"\<close> and \<open>"half_open"\<close>, here the constructors of a datatype;
  \<open>time.monotonic()\<close> is the argument \<open>now\<close>. The lemmas give the invariant of the
  counters, the refusal of every request while the breaker is open, recovery, and a
  refinement: from a fresh breaker, a sequence of outcomes opens it exactly when it holds a
  streak of \<open>failure_threshold\<close> failures.
\<close>

subsection \<open>State and operations\<close>

datatype cb_state = Closed | Open | Half_Open

record breaker =
  failure_threshold :: int
  recovery_timeout :: real
  half_open_max :: int
  state :: cb_state
  failure_count :: int
  last_failure_time :: real
  half_open_calls :: int

definition new_breaker :: "int \<Rightarrow> real \<Rightarrow> int \<Rightarrow> breaker" where
  "new_breaker threshold timeout hmax =
     \<lparr>failure_threshold = threshold, recovery_timeout = timeout, half_open_max = hmax,
      state = Closed, failure_count = 0, last_failure_time = 0, half_open_calls = 0\<rparr>"

definition allow_request :: "breaker \<Rightarrow> real \<Rightarrow> bool \<times> breaker" where
  "allow_request b now =
     (if state b = Closed then (True, b)
      else if state b = Open then
        (if now - last_failure_time b \<ge> recovery_timeout b
         then (True, b\<lparr>state := Half_Open, half_open_calls := 1\<rparr>)
         else (False, b))
      else if half_open_calls b < half_open_max b
        then (True, b\<lparr>half_open_calls := half_open_calls b + 1\<rparr>)
      else (False, b))"

definition record_success :: "breaker \<Rightarrow> breaker" where
  "record_success b =
     (let b1 = (if state b = Half_Open then b\<lparr>state := Closed\<rparr> else b)
      in b1\<lparr>failure_count := 0, half_open_calls := 0\<rparr>)"

definition record_failure :: "breaker \<Rightarrow> real \<Rightarrow> breaker" where
  "record_failure b now =
     (let b1 = b\<lparr>failure_count := failure_count b + 1, last_failure_time := now\<rparr>
      in if state b1 = Half_Open then b1\<lparr>state := Open\<rparr>
         else if failure_count b1 \<ge> failure_threshold b1 then b1\<lparr>state := Open\<rparr>
         else b1)"

text \<open>The calls a client can make, as one step function.\<close>

datatype cb_op = Allow real | Success | Failure real

fun cb_step :: "breaker \<Rightarrow> cb_op \<Rightarrow> breaker" where
  "cb_step b (Allow now) = snd (allow_request b now)"
| "cb_step b Success = record_success b"
| "cb_step b (Failure now) = record_failure b now"

lemmas cb_defs = allow_request_def record_success_def record_failure_def Let_def

subsection \<open>The invariant\<close>

text \<open>
  A closed breaker is strictly below its threshold, and the number of probes admitted while
  half open never passes \<open>half_open_max\<close> (one probe is admitted even for a limit of 0,
  since the transition out of the open state counts it without looking at the limit).
\<close>

definition cb_inv :: "breaker \<Rightarrow> bool" where
  "cb_inv b \<longleftrightarrow>
     0 < failure_threshold b \<and> 0 \<le> failure_count b \<and> 0 \<le> half_open_calls b \<and>
     half_open_calls b \<le> max 1 (half_open_max b) \<and>
     (state b = Closed \<longrightarrow> failure_count b < failure_threshold b) \<and>
     (state b = Half_Open \<longrightarrow> 1 \<le> half_open_calls b)"

lemma cb_inv_new: "0 < threshold \<Longrightarrow> cb_inv (new_breaker threshold timeout hmax)"
  by (simp add: cb_inv_def new_breaker_def)

lemma cb_inv_step: "cb_inv b \<Longrightarrow> cb_inv (cb_step b op)"
  by (cases op; cases "state b") (auto simp: cb_inv_def cb_defs)

interpretation cb: kept_invariant cb_step cb_inv
  by unfold_locales (rule cb_inv_step)

text \<open>Configuration never changes.\<close>

lemma cb_step_config [simp]:
  "failure_threshold (cb_step b op) = failure_threshold b"
  "recovery_timeout (cb_step b op) = recovery_timeout b"
  "half_open_max (cb_step b op) = half_open_max b"
  by (cases op; simp add: cb_defs)+

lemma cb_run_config [simp]:
  "failure_threshold (foldl cb_step b ops) = failure_threshold b"
  "recovery_timeout (foldl cb_step b ops) = recovery_timeout b"
  "half_open_max (foldl cb_step b ops) = half_open_max b"
  by (induction ops arbitrary: b) simp_all

subsection \<open>Requests refused and admitted\<close>

lemma allow_closed [simp]: "state b = Closed \<Longrightarrow> allow_request b now = (True, b)"
  by (simp add: allow_request_def)

lemma allow_open_early [simp]:
  "state b = Open \<Longrightarrow> now - last_failure_time b < recovery_timeout b \<Longrightarrow>
     allow_request b now = (False, b)"
  by (simp add: allow_request_def)

lemma allow_half_open_full [simp]:
  "state b = Half_Open \<Longrightarrow> half_open_max b \<le> half_open_calls b \<Longrightarrow>
     allow_request b now = (False, b)"
  by (simp add: allow_request_def)

text \<open>The answers to a list of requests, in order, with the breaker they leave.\<close>

fun allow_all :: "breaker \<Rightarrow> real list \<Rightarrow> bool list \<times> breaker" where
  "allow_all b [] = ([], b)"
| "allow_all b (t # ts) =
     (let (ok, b1) = allow_request b t; (oks, b2) = allow_all b1 ts in (ok # oks, b2))"

lemma allow_all_stuck:
  assumes "\<And>t. t \<in> set ts \<Longrightarrow> allow_request b t = (False, b)"
  shows "allow_all b ts = (replicate (length ts) False, b)"
  using assms by (induction ts) auto

text \<open>
  The number of requests a half-open breaker admits before an outcome is recorded is what is
  left of \<open>half_open_max\<close>.
\<close>

lemma allow_all_half_open:
  assumes "state b = Half_Open"
  shows "int (length (filter (\<lambda>ok. ok) (fst (allow_all b ts))))
           \<le> max 0 (half_open_max b - half_open_calls b)"
  using assms
proof (induction ts arbitrary: b)
  case Nil
  then show ?case by simp
next
  case (Cons t ts)
  show ?case
  proof (cases "half_open_calls b < half_open_max b")
    case True
    let ?b1 = "b\<lparr>half_open_calls := half_open_calls b + 1\<rparr>"
    have "allow_request b t = (True, ?b1)"
      using Cons.prems True by (simp add: allow_request_def)
    moreover have "int (length (filter (\<lambda>ok. ok) (fst (allow_all ?b1 ts))))
        \<le> max 0 (half_open_max b - (half_open_calls b + 1))"
      using Cons.IH [of ?b1] Cons.prems by simp
    ultimately show ?thesis
      using True by (auto split: prod.splits)
  next
    case False
    then have "allow_all b (t # ts) = (replicate (length (t # ts)) False, b)"
      using Cons.prems by (intro allow_all_stuck) simp
    then show ?thesis by (simp add: filter_replicate)
  qed
qed

subsection \<open>Refinement: when a sequence of outcomes opens the breaker\<close>

text \<open>
  The abstract view: an outcome is a success or a failure, and what counts is the longest
  streak of failures. \<open>streak\<close> carries the current streak.
\<close>

fun longest_streak :: "nat \<Rightarrow> bool list \<Rightarrow> nat" where
  "longest_streak cur [] = cur"
| "longest_streak cur (True # os) = max cur (longest_streak 0 os)"
| "longest_streak cur (False # os) = longest_streak (Suc cur) os"

fun outcome_op :: "bool \<times> real \<Rightarrow> cb_op" where
  "outcome_op (ok, now) = (if ok then Success else Failure now)"

lemma longest_streak_ge: "cur \<le> longest_streak cur os"
  by (induction cur os rule: longest_streak.induct) auto

lemma open_stays_open:
  "state b = Open \<Longrightarrow> state (foldl cb_step b (map outcome_op os)) = Open"
proof (induction os arbitrary: b)
  case Nil
  then show ?case by simp
next
  case (Cons x os)
  obtain ok now where x: "x = (ok, now)" by fastforce
  have "state (cb_step b (outcome_op x)) = Open"
    using Cons.prems by (simp add: x cb_defs)
  then show ?case using Cons.IH by simp
qed

lemma closed_run_state:
  assumes "state b = Closed" and "failure_count b = int cur"
    and "int cur < failure_threshold b"
  shows "state (foldl cb_step b (map outcome_op os)) =
           (if failure_threshold b \<le> int (longest_streak cur (map fst os)) then Open else Closed)"
  using assms
proof (induction os arbitrary: b cur)
  case Nil
  then show ?case by simp
next
  case (Cons x os)
  obtain ok now where x: "x = (ok, now)" by fastforce
  show ?case
  proof (cases ok)
    case True
    let ?b1 = "cb_step b Success"
    have "state (foldl cb_step ?b1 (map outcome_op os)) =
        (if failure_threshold b \<le> int (longest_streak 0 (map fst os)) then Open else Closed)"
      using Cons.IH [of ?b1 0] Cons.prems by (simp add: cb_defs)
    then show ?thesis using True Cons.prems by (auto simp: x)
  next
    case False
    let ?b1 = "cb_step b (Failure now)"
    show ?thesis
    proof (cases "failure_threshold b \<le> int (Suc cur)")
      case True
      then have "state ?b1 = Open" using Cons.prems by (simp add: cb_defs)
      moreover have "failure_threshold b \<le> int (longest_streak (Suc cur) (map fst os))"
        using True longest_streak_ge [of "Suc cur" "map fst os"] by linarith
      ultimately show ?thesis using False by (simp add: x open_stays_open)
    next
      case below: False
      then show ?thesis
        using False Cons.IH [of ?b1 "Suc cur"] Cons.prems by (simp add: x cb_defs)
    qed
  qed
qed

subsection \<open>Properties\<close>

text \<open>
  Claim C1. A fresh breaker, after any sequence of recorded outcomes, is open exactly when the
  sequence holds a streak of at least \<open>failure_threshold\<close> consecutive failures, and is
  closed otherwise: the counters implement the abstract "consecutive failures" contract.
\<close>

theorem breaker_opens_iff_streak:
  assumes "0 < threshold"
  shows "state (foldl cb_step (new_breaker threshold timeout hmax) (map outcome_op os)) =
           (if threshold \<le> int (longest_streak 0 (map fst os)) then Open else Closed)"
  using closed_run_state [of "new_breaker threshold timeout hmax" 0 os] assms
  by (simp add: new_breaker_def)

theorem breaker_opens_iff_streak_witness:
  "state (foldl cb_step (new_breaker 2 30 1)
     (map outcome_op [(False, 1), (True, 2), (False, 3), (False, 4)])) = Open"
  by (subst breaker_opens_iff_streak) simp_all

text \<open>
  After any sequence of calls in any order, a breaker built with a positive threshold
  is below the threshold while closed, and has at least one and at most
  \<open>max 1 half_open_max\<close> admitted probes while half open.
\<close>

theorem breaker_counters_bounded:
  assumes "0 < threshold" and b: "b = foldl cb_step (new_breaker threshold timeout hmax) ops"
  shows "(state b = Closed \<longrightarrow> failure_count b < threshold) \<and>
         (state b = Half_Open \<longrightarrow> 1 \<le> half_open_calls b \<and> half_open_calls b \<le> max 1 hmax)"
proof -
  have "cb_inv b"
    unfolding b by (rule cb.run_keeps) (rule cb_inv_new [OF assms(1)])
  moreover have "failure_threshold b = threshold" "half_open_max b = hmax"
    by (simp_all add: b new_breaker_def)
  ultimately show ?thesis by (auto simp: cb_inv_def)
qed

theorem breaker_counters_bounded_witness:
  "state (foldl cb_step (new_breaker 1 30 2) [Failure 0, Allow 30]) = Half_Open \<and>
   half_open_calls (foldl cb_step (new_breaker 1 30 2) [Failure 0, Allow 30]) \<le> 2"
proof -
  have "state (foldl cb_step (new_breaker 1 30 2) [Failure 0, Allow 30]) = Half_Open"
    by (simp add: cb_defs new_breaker_def)
  then show ?thesis
    using breaker_counters_bounded [OF _ refl, of 1 30 2 "[Failure 0, Allow 30]"] by simp
qed

text \<open>
  While open, the breaker refuses every request that comes before the recovery
  timeout and stays as it is; the first request after it is admitted as a probe, a success of
  the probe closes the breaker with cleared counters, and a failure opens it again with the
  timeout counted from that failure.
\<close>

theorem breaker_recovery:
  assumes "state b = Open"
    and "\<forall>t \<in> set early. t - last_failure_time b < recovery_timeout b"
    and "recovery_timeout b \<le> now - last_failure_time b"
  shows "allow_all b early = (replicate (length early) False, b) \<and>
         fst (allow_request b now) \<and>
         state (record_success (snd (allow_request b now))) = Closed \<and>
         failure_count (record_success (snd (allow_request b now))) = 0 \<and>
         state (record_failure (snd (allow_request b now)) later) = Open \<and>
         last_failure_time (record_failure (snd (allow_request b now)) later) = later"
  using assms by (auto intro!: allow_all_stuck simp: cb_defs)

theorem breaker_recovery_witness:
  "allow_all (record_failure (new_breaker 1 30 1) 5) [6, 20] =
     ([False, False], record_failure (new_breaker 1 30 1) 5) \<and>
   fst (allow_request (record_failure (new_breaker 1 30 1) 5) 40)"
proof -
  let ?b = "record_failure (new_breaker 1 30 1) 5"
  have "state ?b = Open" "\<forall>t \<in> set [6, 20]. t - last_failure_time ?b < recovery_timeout ?b"
    "recovery_timeout ?b \<le> 40 - last_failure_time ?b"
    by (simp_all add: cb_defs new_breaker_def)
  from breaker_recovery [OF this] show ?thesis by (simp add: numeral_2_eq_2)
qed

text \<open>
  A half-open breaker admits at most what is left of \<open>half_open_max\<close> until an
  outcome is recorded, and this has no time limit: when the admitted probes never report (the
  caller was cancelled between the request and the outcome), every later request is refused,
  at whatever time it comes.
\<close>

theorem breaker_lost_probe_blocks:
  assumes "state b = Half_Open"
  shows "int (length (filter (\<lambda>ok. ok) (fst (allow_all b ts))))
           \<le> max 0 (half_open_max b - half_open_calls b) \<and>
         (half_open_max b \<le> half_open_calls b \<longrightarrow>
           allow_all b ts = (replicate (length ts) False, b))"
  using assms by (auto intro: allow_all_half_open allow_all_stuck)

theorem breaker_lost_probe_blocks_witness:
  "allow_all (snd (allow_request (record_failure (new_breaker 1 30 1) 0) 30)) [60, 10000] =
     ([False, False], snd (allow_request (record_failure (new_breaker 1 30 1) 0) 30))"
proof -
  let ?b = "snd (allow_request (record_failure (new_breaker 1 30 1) 0) 30)"
  have "state ?b = Half_Open" "half_open_max ?b \<le> half_open_calls ?b"
    by (simp_all add: cb_defs new_breaker_def)
  from breaker_lost_probe_blocks [OF this(1), of "[60, 10000]"] this(2) show ?thesis
    by (simp add: numeral_2_eq_2)
qed

end
