(* ===== verification/Retry.thy ===== *)
theory Retry
  imports Prelude
begin

text \<open>
  The retry helpers of \<open>observability/retry.py\<close>. The function to be called is given by what
  its successive calls do: \<open>calls i\<close> is the result of the call number \<open>i\<close>, a value or an
  exception. \<open>catches\<close> is the tuple \<open>exceptions\<close> of the code. The pauses are the
  arguments given to \<open>sleep\<close>, in order. The lemmas say which call decides the result, how
  many calls are made, and that the pauses double.
\<close>

subsection \<open>The loop\<close>

record 'a retry_result =
  outcome :: "exn + 'a"
  calls_made :: nat
  pauses :: "real list"

text \<open>
  One iteration per attempt of \<open>range(max_retries + 1)\<close>; \<open>left\<close> is the number of attempts
  that follow this one. With no attempt at all the loop is left at once and the code raises
  its variable \<open>last_exc\<close>, which is still \<open>None\<close>: a \<open>TypeError\<close>.
\<close>

fun retry_loop ::
    "real \<Rightarrow> (exn \<Rightarrow> bool) \<Rightarrow> (nat \<Rightarrow> exn + 'a) \<Rightarrow> nat \<Rightarrow> nat \<Rightarrow> 'a retry_result" where
  "retry_loop backoff catches calls attempt 0 =
     \<lparr>outcome = Inl (Type_Error ''exceptions must derive from BaseException''),
      calls_made = 0, pauses = []\<rparr>"
| "retry_loop backoff catches calls attempt (Suc left) =
     (case calls attempt of
        Inr x \<Rightarrow> \<lparr>outcome = Inr x, calls_made = 1, pauses = []\<rparr>
      | Inl e \<Rightarrow>
          if \<not> catches e \<or> left = 0
          then \<lparr>outcome = Inl e, calls_made = 1, pauses = []\<rparr>
          else let r = retry_loop backoff catches calls (Suc attempt) left
               in r\<lparr>calls_made := Suc (calls_made r),
                    pauses := backoff * 2 ^ attempt # pauses r\<rparr>)"

definition retry_sync ::
    "int \<Rightarrow> real \<Rightarrow> (exn \<Rightarrow> bool) \<Rightarrow> (nat \<Rightarrow> exn + 'a) \<Rightarrow> 'a retry_result" where
  "retry_sync max_retries backoff catches calls =
     retry_loop backoff catches calls 0 (nat (max_retries + 1))"

text \<open>
  The asynchronous version differs in what it awaits and in the default of \<open>backoff\<close>; the
  sequence of calls and pauses is the same.
\<close>

definition retry_async ::
    "int \<Rightarrow> real \<Rightarrow> (exn \<Rightarrow> bool) \<Rightarrow> (nat \<Rightarrow> exn + 'a) \<Rightarrow> 'a retry_result" where
  "retry_async max_retries backoff catches calls =
     retry_loop backoff catches calls 0 (nat (max_retries + 1))"

subsection \<open>What the loop does\<close>

text \<open>A call settles the loop when it returns or raises something that is not caught.\<close>

definition settles :: "(exn \<Rightarrow> bool) \<Rightarrow> exn + 'a \<Rightarrow> bool" where
  "settles catches r = (case r of Inr _ \<Rightarrow> True | Inl e \<Rightarrow> \<not> catches e)"

lemma retry_loop_settled:
  assumes "k < n" and "settles catches (calls (a + k))"
    and "\<forall>j < k. \<not> settles catches (calls (a + j))"
  shows "retry_loop backoff catches calls a n =
           \<lparr>outcome = calls (a + k), calls_made = Suc k,
            pauses = map (\<lambda>j. backoff * 2 ^ (a + j)) [0..<k]\<rparr>"
  using assms
proof (induction k arbitrary: a n)
  case 0
  then obtain m where "n = Suc m" by (cases n) auto
  with 0 show ?case by (auto simp: settles_def split: sum.splits)
next
  case (Suc k)
  then obtain m where n: "n = Suc m" and "k < m" by (cases n) auto
  have tail: "settles catches (calls (Suc a + k))"
    "\<forall>j < k. \<not> settles catches (calls (Suc a + j))"
    using Suc.prems(2,3) by (auto simp: less_Suc_eq_0_disj)
  have "\<not> settles catches (calls a)"
    using Suc.prems(3) by (metis add_0_right zero_less_Suc)
  then obtain e where "calls a = Inl e" "catches e"
    by (auto simp: settles_def split: sum.splits)
  then show ?case
    using Suc.IH [OF \<open>k < m\<close> tail] \<open>k < m\<close>
    by (simp add: n upt_conv_Cons map_Suc_upt [symmetric] comp_def del: upt_Suc)
qed

lemma retry_loop_exhausted:
  assumes "0 < n" and "\<forall>j < n. \<not> settles catches (calls (a + j))"
  shows "retry_loop backoff catches calls a n =
           \<lparr>outcome = calls (a + (n - 1)), calls_made = n,
            pauses = map (\<lambda>j. backoff * 2 ^ (a + j)) [0..<n - 1]\<rparr>"
  using assms
proof (induction n arbitrary: a)
  case 0
  then show ?case by simp
next
  case (Suc m)
  have "\<not> settles catches (calls a)"
    using Suc.prems(2) by (metis add_0_right zero_less_Suc)
  then obtain e where e: "calls a = Inl e" "catches e"
    by (auto simp: settles_def split: sum.splits)
  show ?case
  proof (cases "m = 0")
    case True
    with e show ?thesis by simp
  next
    case False
    have "\<forall>j < m. \<not> settles catches (calls (Suc a + j))"
      using Suc.prems(2) by (auto simp: less_Suc_eq_0_disj)
    from Suc.IH [OF _ this] False e show ?thesis
      by (cases m) (simp_all add: upt_conv_Cons map_Suc_upt [symmetric] comp_def del: upt_Suc)
  qed
qed

lemma calls_made_le: "calls_made (retry_loop backoff catches calls a n) \<le> n"
  by (induction n arbitrary: a) (auto simp: Let_def split: sum.splits)

subsection \<open>Properties\<close>

text \<open>
  The first call that returns, or raises an exception that is not to be retried,
  decides the result, provided it is among the first \<open>max_retries + 1\<close>; the calls before
  it are separated by pauses \<open>backoff, 2 * backoff, 4 * backoff, ...\<close>. When no call settles,
  exactly \<open>max_retries + 1\<close> calls are made and the exception of the last one is raised,
  with no pause after it.
\<close>

theorem retry_result_and_pauses:
  assumes "0 \<le> max_retries"
    and r: "r = retry_sync max_retries backoff catches calls"
  shows "(\<forall>k. int k \<le> max_retries \<and> settles catches (calls k) \<and>
             (\<forall>j < k. \<not> settles catches (calls j)) \<longrightarrow>
           r = \<lparr>outcome = calls k, calls_made = Suc k,
                pauses = map (\<lambda>j. backoff * 2 ^ j) [0..<k]\<rparr>) \<and>
         ((\<forall>j \<le> nat max_retries. \<not> settles catches (calls j)) \<longrightarrow>
           r = \<lparr>outcome = calls (nat max_retries), calls_made = Suc (nat max_retries),
                pauses = map (\<lambda>j. backoff * 2 ^ j) [0..<nat max_retries]\<rparr>)"
proof -
  have n: "nat (max_retries + 1) = Suc (nat max_retries)" using assms(1) by simp
  have "r = \<lparr>outcome = calls k, calls_made = Suc k,
             pauses = map (\<lambda>j. backoff * 2 ^ j) [0..<k]\<rparr>"
    if "int k \<le> max_retries" "settles catches (calls k)"
      "\<forall>j < k. \<not> settles catches (calls j)" for k
    using retry_loop_settled [of k "Suc (nat max_retries)" catches calls 0 backoff] that
    by (simp add: r retry_sync_def n)
  moreover have "r = \<lparr>outcome = calls (nat max_retries), calls_made = Suc (nat max_retries),
             pauses = map (\<lambda>j. backoff * 2 ^ j) [0..<nat max_retries]\<rparr>"
    if "\<forall>j \<le> nat max_retries. \<not> settles catches (calls j)"
    using retry_loop_exhausted [of "Suc (nat max_retries)" catches calls 0 backoff] that
    by (simp add: r retry_sync_def n less_Suc_eq_le del: retry_loop.simps)
  ultimately show ?thesis by blast
qed

theorem retry_result_and_pauses_witness:
  "retry_sync 3 (1/10) (\<lambda>_. True)
     (\<lambda>i. if i < 2 then Inl (Operational_Error ''locked'') else Inr i) =
   \<lparr>outcome = Inr 2, calls_made = 3, pauses = [1/10, 2/10]\<rparr>"
proof -
  let ?calls = "\<lambda>i :: nat. if i < 2 then Inl (Operational_Error ''locked'') else Inr i"
  have "\<forall>j < 2. \<not> settles (\<lambda>_. True) (?calls j)" "settles (\<lambda>_. True) (?calls 2)"
    by (simp_all add: settles_def)
  then show ?thesis
    using retry_result_and_pauses
      [OF _ refl, where max_retries = 3 and backoff = "1/10" and catches = "\<lambda>_. True"
        and calls = ?calls, THEN conjunct1, rule_format, of 2]
    by (simp add: upt_rec)
qed

text \<open>
  The two helpers make the same calls and pauses, never more than
  \<open>max_retries + 1\<close> calls; and for a negative \<open>max_retries\<close> the function is not called at
  all and a \<open>TypeError\<close> is raised, by the statement the code marks as unreachable.
\<close>

theorem retry_call_budget:
  "retry_async m backoff catches calls = retry_sync m backoff catches calls \<and>
   int (calls_made (retry_sync m backoff catches calls)) \<le> max 0 (m + 1) \<and>
   (m < 0 \<longrightarrow> retry_sync m backoff catches calls =
      \<lparr>outcome = Inl (Type_Error ''exceptions must derive from BaseException''),
       calls_made = 0, pauses = []\<rparr>)"
  using calls_made_le [of backoff catches calls 0 "nat (m + 1)"]
  by (auto simp: retry_async_def retry_sync_def)

theorem retry_call_budget_witness:
  "calls_made (retry_sync (- 1) 1 (\<lambda>_. True) (\<lambda>_. Inr (7 :: nat))) = 0"
  using retry_call_budget [of "- 1" 1 "\<lambda>_. True" "\<lambda>_. Inr (7 :: nat)"] by simp

end
