(* ===== verification/Py_Float.thy ===== *)
theory Py_Float
  imports Prelude
begin

text \<open>
  Python floats where infinities and NaN matter: the numbers that arrive over the wire and the
  z-scores of a constant baseline. A finite float is a real number with exact arithmetic, and
  the sign of zero is left out. Comparisons with NaN are false, as in the language; the type is
  an instance of the syntactic classes, so that the usual operators can be written.
\<close>

datatype pyfloat = Fin real | Pos_Inf | Neg_Inf | Nan

fun is_finite :: "pyfloat \<Rightarrow> bool" where
  "is_finite (Fin _) = True"
| "is_finite _ = False"

fun finite_part :: "pyfloat \<Rightarrow> real" where
  "finite_part (Fin x) = x"
| "finite_part _ = 0"

instantiation pyfloat :: ord
begin

fun less_eq_pyfloat :: "pyfloat \<Rightarrow> pyfloat \<Rightarrow> bool" where
  "less_eq_pyfloat Nan _ = False"
| "less_eq_pyfloat _ Nan = False"
| "less_eq_pyfloat Neg_Inf _ = True"
| "less_eq_pyfloat _ Pos_Inf = True"
| "less_eq_pyfloat (Fin x) (Fin y) = (x \<le> y)"
| "less_eq_pyfloat _ _ = False"

definition less_pyfloat :: "pyfloat \<Rightarrow> pyfloat \<Rightarrow> bool" where
  "less_pyfloat a b \<longleftrightarrow> a \<le> b \<and> \<not> b \<le> a"

instance ..

end

instantiation pyfloat :: "{plus, uminus, minus, times}"
begin

fun plus_pyfloat :: "pyfloat \<Rightarrow> pyfloat \<Rightarrow> pyfloat" where
  "plus_pyfloat Nan _ = Nan"
| "plus_pyfloat _ Nan = Nan"
| "plus_pyfloat Pos_Inf Neg_Inf = Nan"
| "plus_pyfloat Neg_Inf Pos_Inf = Nan"
| "plus_pyfloat Pos_Inf _ = Pos_Inf"
| "plus_pyfloat _ Pos_Inf = Pos_Inf"
| "plus_pyfloat Neg_Inf _ = Neg_Inf"
| "plus_pyfloat _ Neg_Inf = Neg_Inf"
| "plus_pyfloat (Fin x) (Fin y) = Fin (x + y)"

fun uminus_pyfloat :: "pyfloat \<Rightarrow> pyfloat" where
  "uminus_pyfloat (Fin x) = Fin (- x)"
| "uminus_pyfloat Pos_Inf = Neg_Inf"
| "uminus_pyfloat Neg_Inf = Pos_Inf"
| "uminus_pyfloat Nan = Nan"

definition minus_pyfloat :: "pyfloat \<Rightarrow> pyfloat \<Rightarrow> pyfloat" where
  "minus_pyfloat a b = a + - b"

fun times_pyfloat :: "pyfloat \<Rightarrow> pyfloat \<Rightarrow> pyfloat" where
  "times_pyfloat Nan _ = Nan"
| "times_pyfloat _ Nan = Nan"
| "times_pyfloat (Fin x) (Fin y) = Fin (x * y)"
| "times_pyfloat (Fin x) Pos_Inf = (if x = 0 then Nan else if 0 < x then Pos_Inf else Neg_Inf)"
| "times_pyfloat (Fin x) Neg_Inf = (if x = 0 then Nan else if 0 < x then Neg_Inf else Pos_Inf)"
| "times_pyfloat Pos_Inf (Fin y) = (if y = 0 then Nan else if 0 < y then Pos_Inf else Neg_Inf)"
| "times_pyfloat Neg_Inf (Fin y) = (if y = 0 then Nan else if 0 < y then Neg_Inf else Pos_Inf)"
| "times_pyfloat Pos_Inf Pos_Inf = Pos_Inf"
| "times_pyfloat Neg_Inf Neg_Inf = Pos_Inf"
| "times_pyfloat Pos_Inf Neg_Inf = Neg_Inf"
| "times_pyfloat Neg_Inf Pos_Inf = Neg_Inf"

instance ..

end

lemma less_Fin [simp]: "Fin x < Fin y \<longleftrightarrow> x < y"
  by (auto simp: less_pyfloat_def)

lemma minus_Fin [simp]: "Fin x - Fin y = Fin (x - y)"
  by (simp add: minus_pyfloat_def)

text \<open>A range test with finite bounds is passed by finite numbers only.\<close>

lemma between_finite:
  "Fin a \<le> x \<and> x \<le> Fin b \<longleftrightarrow> (\<exists>r. x = Fin r \<and> a \<le> r \<and> r \<le> b)"
  by (cases x) auto

lemma nan_not_between [simp]: "\<not> (Fin a \<le> Nan)" "\<not> Nan \<le> x"
  by simp_all

end
