(* ===== verification/Detection_Store.thy ===== *)
theory Detection_Store
  imports Retry Py_Float "HOL-Library.Multiset"
begin

text \<open>
  The SQLite store of \<open>storage/detection_store.py\<close> with its repositories
  \<open>_detection_repo.py\<close>, \<open>_timeseries_repo.py\<close> and \<open>_conversation_repo.py\<close>. A table is a
  list of rows in insertion order; \<open>ORDER BY\<close> is a stable sort (SQL leaves the order of equal
  keys open, and no lemma depends on it), and a negative \<open>LIMIT\<close> is no limit, as in SQLite.
  JSON is taken as exact, so a row holds the list of detections itself. The interface the other
  components use is stated as two locales, \<open>event_source\<close> and \<open>timeseries_source\<close>, which
  are interpreted here on the store.
\<close>

subsection \<open>Events and rows\<close>

record detection =
  class_name :: string
  confidence :: pyfloat
  x_min :: pyfloat
  y_min :: pyfloat
  x_max :: pyfloat
  y_max :: pyfloat

datatype event_value = Text string | Number pyfloat

text \<open>
  An event is a dictionary; a key that is missing is \<open>None\<close> here. The keys only one kind of
  event has are in \<open>ev_extra\<close>.
\<close>

record event =
  ev_type :: "string option"
  ev_timestamp :: "real option"
  ev_frame_id :: "int option"
  ev_trace_id :: "string option"
  ev_device_id :: "string option"
  ev_detections :: "detection list option"
  ev_vlm_result :: "string option"
  ev_rule :: "string option"
  ev_extra :: "(string \<times> event_value) list"

record det_row =
  row_timestamp :: real
  row_frame_id :: "int option"
  row_trace_id :: "string option"
  row_event_type :: string
  row_detections :: "detection list"
  row_vlm_result :: "string option"
  row_rule_matched :: "string option"
  row_device_id :: string

record ts_row =
  ts_timestamp :: real
  ts_device :: string
  ts_metric :: string
  ts_value :: real

record conv_row =
  conv_device :: string
  conv_timestamp :: real
  conv_role :: string
  conv_content :: string
  conv_context :: string

record store =
  det_table :: "det_row list"
  ts_table :: "ts_row list"
  conv_table :: "conv_row list"
  retention_days :: int
  connected :: bool

definition new_store :: "int \<Rightarrow> store" where
  "new_store days = \<lparr>det_table = [], ts_table = [], conv_table = [],
     retention_days = days, connected = True\<rparr>"

definition close_store :: "store \<Rightarrow> store" where
  "close_store s = s\<lparr>connected := False\<rparr>"

definition or_else :: "'a option \<Rightarrow> 'a \<Rightarrow> 'a" where
  "or_else x d = (case x of None \<Rightarrow> d | Some y \<Rightarrow> y)"

definition row_of_event :: "event \<Rightarrow> real \<Rightarrow> det_row" where
  "row_of_event ev now =
     \<lparr>row_timestamp = or_else (ev_timestamp ev) now, row_frame_id = ev_frame_id ev,
      row_trace_id = ev_trace_id ev, row_event_type = or_else (ev_type ev) ''detection'',
      row_detections = or_else (ev_detections ev) [], row_vlm_result = ev_vlm_result ev,
      row_rule_matched = ev_rule ev, row_device_id = or_else (ev_device_id ev) ''''\<rparr>"

subsection \<open>Writes, with the database lock\<close>

text \<open>
  One attempt of a write executes an \<open>INSERT\<close> and commits. Either call may raise; the
  attempts are given as a sequence. When the commit raises, the transaction stays open with
  the row in it (as SQLite documents for a busy \<open>COMMIT\<close>), and a later attempt on the same
  connection adds its row to the same transaction.
\<close>

datatype db_attempt = Attempt_Ok | Execute_Fails exn | Commit_Fails exn

fun attempt_result :: "db_attempt \<Rightarrow> exn + unit" where
  "attempt_result Attempt_Ok = Inr ()"
| "attempt_result (Execute_Fails e) = Inl e"
| "attempt_result (Commit_Fails e) = Inl e"

fun inserts :: "db_attempt \<Rightarrow> bool" where
  "inserts (Execute_Fails e) = False"
| "inserts _ = True"

fun is_operational :: "exn \<Rightarrow> bool" where
  "is_operational (Operational_Error _) = True"
| "is_operational _ = False"

definition no_connection :: exn where
  "no_connection = Attribute_Error ''NoneType has no attribute execute''"

text \<open>\<open>retry_sync(_do, max_retries=3, backoff=0.1, exceptions=(OperationalError,))\<close>.\<close>

definition db_retry :: "(nat \<Rightarrow> db_attempt) \<Rightarrow> unit retry_result" where
  "db_retry attempts = retry_sync 3 (1/10) is_operational (\<lambda>i. attempt_result (attempts i))"

definition rows_added :: "(nat \<Rightarrow> db_attempt) \<Rightarrow> nat" where
  "rows_added attempts =
     length (filter (\<lambda>i. inserts (attempts i)) [0..<calls_made (db_retry attempts)])"

definition record_event ::
    "store \<Rightarrow> (nat \<Rightarrow> db_attempt) \<Rightarrow> event \<Rightarrow> real \<Rightarrow> (exn + unit) \<times> store" where
  "record_event s attempts ev now =
     (if \<not> connected s then (Inl no_connection, s)
      else (outcome (db_retry attempts),
            s\<lparr>det_table := det_table s @ replicate (rows_added attempts) (row_of_event ev now)\<rparr>))"

definition record_timeseries ::
    "store \<Rightarrow> (nat \<Rightarrow> db_attempt) \<Rightarrow> string \<Rightarrow> string \<Rightarrow> real \<Rightarrow> real \<Rightarrow> real
       \<Rightarrow> (exn + unit) \<times> store" where
  "record_timeseries s attempts dev name val ts now =
     (if \<not> connected s then (Inl no_connection, s)
      else (outcome (db_retry attempts),
            s\<lparr>ts_table := ts_table s @ replicate (rows_added attempts)
                \<lparr>ts_timestamp = (if ts = 0 then now else ts), ts_device = dev, ts_metric = name,
                 ts_value = val\<rparr>\<rparr>))"

definition record_conversation ::
    "store \<Rightarrow> (nat \<Rightarrow> db_attempt) \<Rightarrow> string \<Rightarrow> string \<Rightarrow> string \<Rightarrow> string \<Rightarrow> real \<Rightarrow> real
       \<Rightarrow> (exn + unit) \<times> store" where
  "record_conversation s attempts dev role content ctx ts now =
     (if \<not> connected s then (Inl no_connection, s)
      else (outcome (db_retry attempts),
            s\<lparr>conv_table := conv_table s @ replicate (rows_added attempts)
                \<lparr>conv_device = dev, conv_timestamp = (if ts = 0 then now else ts),
                 conv_role = role, conv_content = content, conv_context = ctx\<rparr>\<rparr>))"

subsection \<open>Queries\<close>

definition sql_limit :: "int \<Rightarrow> 'a list \<Rightarrow> 'a list" where
  "sql_limit n xs = (if n < 0 then xs else take (nat n) xs)"

definition select_events :: "store \<Rightarrow> real \<Rightarrow> real \<Rightarrow> string \<Rightarrow> det_row list" where
  "select_events s since til dev =
     filter (\<lambda>r. since \<le> row_timestamp r \<and> row_timestamp r \<le> til \<and>
                 (dev \<noteq> '''' \<longrightarrow> row_device_id r = dev)) (det_table s)"

definition query_events ::
    "store \<Rightarrow> (nat \<Rightarrow> db_attempt) \<Rightarrow> real \<Rightarrow> real \<Rightarrow> real \<Rightarrow> int \<Rightarrow> string
       \<Rightarrow> exn + det_row list" where
  "query_events s attempts now since til limit dev =
     (let til1 = (if til \<le> 0 then now else til)
      in if \<not> connected s then Inl no_connection
         else case outcome (db_retry attempts) of
             Inl e \<Rightarrow> Inl e
           | Inr _ \<Rightarrow> Inr (sql_limit limit
               (sort_key (\<lambda>r. - row_timestamp r) (select_events s since til1 dev))))"

definition cleanup :: "store \<Rightarrow> real \<Rightarrow> exn + (int \<times> store)" where
  "cleanup s now =
     (if \<not> connected s then Inl no_connection
      else let cutoff = now - real_of_int (retention_days s) * 86400
           in Inr (int (length (filter (\<lambda>r. row_timestamp r < cutoff) (det_table s))),
                   s\<lparr>det_table := filter (\<lambda>r. \<not> row_timestamp r < cutoff) (det_table s)\<rparr>))"

definition count_events :: "store \<Rightarrow> exn + int" where
  "count_events s = (if \<not> connected s then Inl no_connection else Inr (int (length (det_table s))))"

text \<open>Time series: the raw points, or one aggregate per bucket of \<open>bucket_seconds\<close>.\<close>

definition select_points :: "store \<Rightarrow> string \<Rightarrow> string \<Rightarrow> real \<Rightarrow> real \<Rightarrow> ts_row list" where
  "select_points s name dev start stop =
     filter (\<lambda>r. ts_metric r = name \<and> start \<le> ts_timestamp r \<and> ts_timestamp r \<le> stop \<and>
                 (dev \<noteq> '''' \<longrightarrow> ts_device r = dev)) (ts_table s)"

definition bucket_of :: "int \<Rightarrow> ts_row \<Rightarrow> int" where
  "bucket_of b r = trunc_int (ts_timestamp r / real_of_int b) * b"

definition aggregate :: "string \<Rightarrow> real list \<Rightarrow> real" where
  "aggregate agg vs =
     (if agg = ''sum'' then sum_list vs
      else if agg = ''max'' then foldr max (tl vs) (hd vs)
      else if agg = ''min'' then foldr min (tl vs) (hd vs)
      else if agg = ''count'' then real (length vs)
      else sum_list vs / real (length vs))"

definition bucket_rows :: "string \<Rightarrow> int \<Rightarrow> ts_row list \<Rightarrow> (real \<times> real) list" where
  "bucket_rows agg b pts =
     map (\<lambda>k. (real_of_int k, aggregate agg (map ts_value (filter (\<lambda>r. bucket_of b r = k) pts))))
       (sort (remdups (map (bucket_of b) pts)))"

definition query_timeseries ::
    "store \<Rightarrow> (nat \<Rightarrow> db_attempt) \<Rightarrow> real \<Rightarrow> string \<Rightarrow> string \<Rightarrow> real \<Rightarrow> real \<Rightarrow> string \<Rightarrow> int \<Rightarrow> int
       \<Rightarrow> exn + (real \<times> real) list" where
  "query_timeseries s attempts now name dev start stop agg bucket limit =
     (let stop1 = (if stop \<le> 0 then now else stop);
          start1 = (if start \<le> 0 then stop1 - 86400 else start);
          pts = select_points s name dev start1 stop1
      in if \<not> connected s then Inl no_connection
         else case outcome (db_retry attempts) of
             Inl e \<Rightarrow> Inl e
           | Inr _ \<Rightarrow> Inr
               (if 0 < bucket then sql_limit limit (bucket_rows agg bucket pts)
                else map (\<lambda>r. (ts_timestamp r, ts_value r))
                       (sql_limit limit (sort_key ts_timestamp pts))))"

definition query_conversations ::
    "store \<Rightarrow> (nat \<Rightarrow> db_attempt) \<Rightarrow> string \<Rightarrow> int \<Rightarrow> string \<Rightarrow> real \<Rightarrow> exn + conv_row list" where
  "query_conversations s attempts dev limit ctx since =
     (if \<not> connected s then Inl no_connection
      else case outcome (db_retry attempts) of
          Inl e \<Rightarrow> Inl e
        | Inr _ \<Rightarrow> Inr (rev (sql_limit limit (sort_key (\<lambda>r. - conv_timestamp r)
            (filter (\<lambda>r. conv_device r = dev \<and> (ctx \<noteq> '''' \<longrightarrow> conv_context r = ctx) \<and>
                         (0 < since \<longrightarrow> since \<le> conv_timestamp r)) (conv_table s))))))"

text \<open>
  \<open>backup\<close> copies the database; \<open>io\<close> is the exception the copy raises, if any. The SQLite
  errors and \<open>OSError\<close> make it return \<open>False\<close>.
\<close>

definition backup :: "store \<Rightarrow> exn option \<Rightarrow> exn + (bool \<times> store option)" where
  "backup s io =
     (if \<not> connected s then Inr (False, None)
      else case io of
          None \<Rightarrow> Inr (True, Some s)
        | Some (Operational_Error _) \<Rightarrow> Inr (False, None)
        | Some (Os_Error _) \<Rightarrow> Inr (False, None)
        | Some (Connection_Error _) \<Rightarrow> Inr (False, None)
        | Some e \<Rightarrow> Inl e)"

subsection \<open>The interface of the store\<close>

text \<open>
  What the clients rely on: a query returns events of the window and of the device asked for,
  newest first, and at most \<open>limit\<close> of them.
\<close>

locale event_source =
  fixes query :: "real \<Rightarrow> real \<Rightarrow> int \<Rightarrow> string \<Rightarrow> exn + det_row list"
    and clock :: real
  assumes rows_since: "query since til limit dev = Inr rows \<Longrightarrow> r \<in> set rows \<Longrightarrow>
      since \<le> row_timestamp r"
    and rows_until: "query since til limit dev = Inr rows \<Longrightarrow> r \<in> set rows \<Longrightarrow>
      row_timestamp r \<le> (if til \<le> 0 then clock else til)"
    and rows_device: "query since til limit dev = Inr rows \<Longrightarrow> r \<in> set rows \<Longrightarrow>
      dev \<noteq> '''' \<Longrightarrow> row_device_id r = dev"
    and rows_sorted: "query since til limit dev = Inr rows \<Longrightarrow>
      sorted_wrt (\<lambda>a b. row_timestamp b \<le> row_timestamp a) rows"
    and rows_limit: "query since til limit dev = Inr rows \<Longrightarrow> 0 \<le> limit \<Longrightarrow>
      int (length rows) \<le> limit"
begin

lemma rows_take_newest:
  assumes "query since til limit dev = Inr rows" and "a \<in> set (take n rows)" and "b \<in> set (drop n rows)"
  shows "row_timestamp b \<le> row_timestamp a"
proof -
  have "sorted_wrt (\<lambda>a b. row_timestamp b \<le> row_timestamp a) (take n rows @ drop n rows)"
    unfolding append_take_drop_id by (rule rows_sorted [OF assms(1)])
  with assms(2,3) show ?thesis unfolding sorted_wrt_append by blast
qed

end

text \<open>The time series interface: points of the metric's window in ascending order.\<close>

locale timeseries_source =
  fixes points :: "string \<Rightarrow> string \<Rightarrow> real \<Rightarrow> real \<Rightarrow> int \<Rightarrow> exn + (real \<times> real) list"
  assumes points_window: "points name dev start stop limit = Inr ps \<Longrightarrow> 0 < start \<Longrightarrow> 0 < stop \<Longrightarrow>
      p \<in> set ps \<Longrightarrow> start \<le> fst p \<and> fst p \<le> stop"
    and points_sorted: "points name dev start stop limit = Inr ps \<Longrightarrow> sorted (map fst ps)"
    and points_limit: "points name dev start stop limit = Inr ps \<Longrightarrow> 0 \<le> limit \<Longrightarrow>
      int (length ps) \<le> limit"


subsection \<open>The store provides the interfaces\<close>

lemma set_sql_limit: "set (sql_limit n xs) \<subseteq> set xs"
  by (auto simp: sql_limit_def dest: in_set_takeD)

lemma length_sql_limit: "0 \<le> n \<Longrightarrow> int (length (sql_limit n xs)) \<le> n"
  by (simp add: sql_limit_def)

lemma sql_limit_eq_take: "sql_limit n xs = take (if n < 0 then length xs else nat n) xs"
  by (simp add: sql_limit_def)

lemma sorted_sql_limit: "sorted (map f xs) \<Longrightarrow> sorted (map f (sql_limit n xs))"
  by (auto simp: sql_limit_def take_map [symmetric] intro: sorted_wrt_take)

lemma set_select_events:
  "r \<in> set (select_events s since til dev) \<longleftrightarrow>
     r \<in> set (det_table s) \<and> since \<le> row_timestamp r \<and> row_timestamp r \<le> til \<and>
     (dev \<noteq> '''' \<longrightarrow> row_device_id r = dev)"
  by (auto simp: select_events_def)

lemma query_events_rows:
  assumes "query_events s attempts now since til limit dev = Inr rows"
  shows "connected s \<and>
    rows = sql_limit limit (sort_key (\<lambda>r. - row_timestamp r)
      (select_events s since (if til \<le> 0 then now else til) dev))"
  using assms by (auto simp: query_events_def Let_def split: if_splits sum.splits)

lemma query_events_in:
  assumes "query_events s attempts now since til limit dev = Inr rows" and "r \<in> set rows"
  shows "r \<in> set (select_events s since (if til \<le> 0 then now else til) dev)"
  using query_events_rows [OF assms(1)] assms(2) set_sql_limit by fastforce

lemma sorted_neg_iff:
  "sorted (map (\<lambda>r. - f r) xs) \<longleftrightarrow> sorted_wrt (\<lambda>a b. f b \<le> (f a :: real)) xs"
  by (simp add: sorted_wrt_map)

interpretation stored: event_source "query_events s attempts now" now
proof unfold_locales
  fix since til :: real and limit :: int and dev :: string and rows
  assume q: "query_events s attempts now since til limit dev = Inr rows"
  then show "sorted_wrt (\<lambda>a b. row_timestamp b \<le> row_timestamp a) rows"
    using query_events_rows [OF q] by (simp add: sorted_neg_iff [symmetric] sorted_sql_limit)
  show "int (length rows) \<le> limit" if "0 \<le> limit"
    using query_events_rows [OF q] that by (simp add: length_sql_limit)
  fix r assume "r \<in> set rows"
  note r = query_events_in [OF q this]
  then show "since \<le> row_timestamp r" "row_timestamp r \<le> (if til \<le> 0 then now else til)"
    by (simp_all add: set_select_events)
  show "row_device_id r = dev" if "dev \<noteq> ''''"
    using r that by (simp add: set_select_events)
qed

lemma query_raw_points:
  assumes "query_timeseries s attempts now name dev start stop agg bucket limit = Inr ps"
    and "bucket \<le> 0"
  shows "connected s \<and>
    ps = map (\<lambda>r. (ts_timestamp r, ts_value r)) (sql_limit limit (sort_key ts_timestamp
      (select_points s name dev
        (if start \<le> 0 then (if stop \<le> 0 then now else stop) - 86400 else start)
        (if stop \<le> 0 then now else stop))))"
  using assms by (auto simp: query_timeseries_def Let_def split: if_splits sum.splits)

interpretation stored_points: timeseries_source
  "\<lambda>name dev start stop limit. query_timeseries s attempts now name dev start stop agg 0 limit"
proof unfold_locales
  fix name dev :: string and start stop :: real and limit :: int and ps
  assume q: "query_timeseries s attempts now name dev start stop agg 0 limit = Inr ps"
  note rows = query_raw_points [OF q order_refl]
  show "sorted (map fst ps)"
    using rows by (simp add: comp_def sorted_sql_limit)
  show "int (length ps) \<le> limit" if "0 \<le> limit"
    using rows that by (simp add: length_sql_limit)
  fix p assume "0 < start" "0 < stop" "p \<in> set ps"
  then obtain r where "p = (ts_timestamp r, ts_value r)"
    and "r \<in> set (sql_limit limit (sort_key ts_timestamp (select_points s name dev start stop)))"
    using rows by auto
  then have "r \<in> set (select_points s name dev start stop)"
    using set_sql_limit by fastforce
  with \<open>p = _\<close> show "start \<le> fst p \<and> fst p \<le> stop" by (auto simp: select_points_def)
qed


subsection \<open>Lemmas on writes, sorting and buckets\<close>

lemma calls_made_ok:
  assumes "\<forall>j < k. \<exists>e. attempts j = Execute_Fails (Operational_Error e)"
    and "attempts k = Attempt_Ok" and "k \<le> 3"
  shows "db_retry attempts =
    \<lparr>outcome = Inr (), calls_made = Suc k, pauses = map (\<lambda>j. 1/10 * 2 ^ j) [0..<k]\<rparr>"
proof -
  have "\<forall>j < k. \<not> settles is_operational (attempt_result (attempts (0 + j)))"
    using assms(1) by (auto simp: settles_def)
  moreover have "settles is_operational (attempt_result (attempts (0 + k)))"
    using assms(2) by (simp add: settles_def)
  ultimately show ?thesis
    using retry_loop_settled [of k 4 is_operational "\<lambda>i. attempt_result (attempts i)" 0 "1/10"]
      assms(2,3) by (simp add: db_retry_def retry_sync_def)
qed

lemma retry_success_last:
  assumes "outcome (retry_loop b catches calls a n) = Inr x"
  shows "\<exists>k. calls_made (retry_loop b catches calls a n) = Suc k \<and> calls (a + k) = Inr x \<and>
    (\<forall>j < k. \<exists>e. calls (a + j) = Inl e \<and> catches e)"
  using assms
proof (induction n arbitrary: a)
  case 0
  then show ?case by simp
next
  case (Suc n)
  show ?case
  proof (cases "calls a")
    case (Inr y)
    with Suc.prems show ?thesis by (intro exI [of _ 0]) simp
  next
    case (Inl e)
    with Suc.prems have e: "catches e" "n \<noteq> 0"
      and tail: "outcome (retry_loop b catches calls (Suc a) n) = Inr x"
      by (auto simp: Let_def split: if_splits)
    from Suc.IH [OF tail] obtain k where k:
      "calls_made (retry_loop b catches calls (Suc a) n) = Suc k" "calls (Suc a + k) = Inr x"
      "\<forall>j < k. \<exists>e. calls (Suc a + j) = Inl e \<and> catches e" by blast
    have "\<forall>j < Suc k. \<exists>e. calls (a + j) = Inl e \<and> catches e"
      using k(3) Inl e(1) by (auto simp: less_Suc_eq_0_disj)
    with Inl e k show ?thesis by (intro exI [of _ "Suc k"]) (simp add: Let_def)
  qed
qed

definition commit_failures :: "(nat \<Rightarrow> db_attempt) \<Rightarrow> nat \<Rightarrow> nat" where
  "commit_failures attempts n =
     length (filter (\<lambda>i. case attempts i of Commit_Fails _ \<Rightarrow> True | _ \<Rightarrow> False) [0..<n])"

lemma rows_added_success:
  assumes "outcome (db_retry attempts) = Inr ()"
  shows "rows_added attempts = Suc (commit_failures attempts (calls_made (db_retry attempts)))"
proof -
  obtain k where k: "calls_made (db_retry attempts) = Suc k" "attempt_result (attempts k) = Inr ()"
    and before: "\<forall>j < k. \<exists>e. attempt_result (attempts j) = Inl e \<and> is_operational e"
    using retry_success_last [of "1/10" is_operational "\<lambda>i. attempt_result (attempts i)" 0 4]
      assms unfolding db_retry_def retry_sync_def by auto
  have ok: "attempts k = Attempt_Ok" using k(2) by (cases "attempts k") auto
  have "filter (\<lambda>i. inserts (attempts i)) [0..<k] =
        filter (\<lambda>i. case attempts i of Commit_Fails _ \<Rightarrow> True | _ \<Rightarrow> False) [0..<k]"
    using before by (intro filter_cong refl) (auto split: db_attempt.splits)
  then show ?thesis using k(1) ok by (simp add: rows_added_def commit_failures_def)
qed

lemma sum_by_key:
  fixes g :: "'a \<Rightarrow> real" and key :: "'a \<Rightarrow> int"
  assumes "distinct ks" and "set (map key xs) \<subseteq> set ks"
  shows "sum_list (map (\<lambda>k. sum_list (map g (filter (\<lambda>x. key x = k) xs))) ks) = sum_list (map g xs)"
  using assms(2)
proof (induction xs)
  case Nil
  then show ?case by (induction ks) auto
next
  case (Cons x xs)
  have one: "sum_list (map (\<lambda>k. if key x = k then g x else 0) ks) = g x"
    using Cons.prems assms(1) by (simp add: sum_list_distinct_conv_sum_set)
  have "sum_list (map (\<lambda>k. sum_list (map g (filter (\<lambda>x. key x = k) (x # xs)))) ks) =
    sum_list (map (\<lambda>k. (if key x = k then g x else 0) +
                       sum_list (map g (filter (\<lambda>x. key x = k) xs))) ks)"
    by (intro arg_cong [where f = sum_list] map_cong refl) simp
  with one Cons show ?case by (simp add: sum_list_addf)
qed

lemma bucket_keys:
  "distinct (sort (remdups (map f xs)))" "set (sort (remdups (map f xs))) = f ` set xs"
  for f :: "'a \<Rightarrow> int"
  by simp_all


subsection \<open>Properties\<close>


definition sample_store :: store where
  "sample_store = (new_store 30)\<lparr>det_table :=
     map (\<lambda>t. row_of_event \<lparr>ev_type = None, ev_timestamp = Some t, ev_frame_id = None,
       ev_trace_id = None, ev_device_id = None, ev_detections = None, ev_vlm_result = None,
       ev_rule = None, ev_extra = []\<rparr> 0) [10, 30, 20]\<rparr>"

lemma db_retry_ok: "outcome (db_retry (\<lambda>_. Attempt_Ok)) = Inr ()"
  by (simp add: db_retry_def retry_sync_def eval_nat_numeral)

lemma sample_query:
  "query_events sample_store (\<lambda>_. Attempt_Ok) 100 15 0 1 '''' =
     Inr (take 1 (sort_key (\<lambda>r. - row_timestamp r) (select_events sample_store 15 100 '''')))"
  by (simp add: query_events_def Let_def db_retry_ok sql_limit_def sample_store_def new_store_def)

lemma sample_matching:
  "map row_timestamp (select_events sample_store 15 100 '''') = [30, 20]"
  by (simp add: select_events_def sample_store_def row_of_event_def or_else_def)


text \<open>
  When \<open>record_event\<close> returns, the row of the event stands at the end of the
  table, and nothing else changed: once when no commit failed on the way, and otherwise one
  more time for every commit that failed, because the retry inserts again in the transaction
  that is still open.
\<close>

theorem record_event_rows:
  assumes "record_event s attempts ev now = (Inr (), s')"
  shows "s' = s\<lparr>det_table := det_table s @
      replicate (Suc (commit_failures attempts (calls_made (db_retry attempts))))
        (row_of_event ev now)\<rparr>"
  using assms rows_added_success [of attempts]
  by (auto simp: record_event_def split: if_splits)

definition busy_commit :: "nat \<Rightarrow> db_attempt" where
  "busy_commit i = (if i = 0 then Commit_Fails (Operational_Error ''locked'') else Attempt_Ok)"

definition an_event :: event where
  "an_event = \<lparr>ev_type = None, ev_timestamp = Some 5, ev_frame_id = Some 1,
     ev_trace_id = None, ev_device_id = Some ''d'', ev_detections = None, ev_vlm_result = None,
     ev_rule = None, ev_extra = []\<rparr>"

lemma busy_commit_calls: "calls_made (db_retry busy_commit) = 2 \<and> outcome (db_retry busy_commit) = Inr ()"
  by (simp add: db_retry_def retry_sync_def eval_nat_numeral busy_commit_def Let_def)

theorem record_event_rows_witness:
  "length (det_table (snd (record_event (new_store 30) busy_commit an_event 9))) = 2"
proof -
  have ok: "fst (record_event (new_store 30) busy_commit an_event 9) = Inr ()"
    using busy_commit_calls by (simp add: record_event_def new_store_def)
  have "commit_failures busy_commit 2 = 1"
    by (simp add: commit_failures_def busy_commit_def upt_rec)
  then show ?thesis
    using record_event_rows [of "new_store 30" busy_commit an_event 9
        "snd (record_event (new_store 30) busy_commit an_event 9)"] ok busy_commit_calls
    by (simp add: prod_eq_iff) (simp add: new_store_def)
qed

text \<open>
  \<open>cleanup\<close> removes exactly the events older than the retention time, keeps the
  others in their order, returns how many it removed, and never touches the time series or the
  conversations; the count afterwards is the number kept, and no event before the cutoff is
  left to be found.
\<close>

theorem cleanup_exact:
  assumes "connected s" and c: "cutoff = now - real_of_int (retention_days s) * 86400"
  shows "\<exists>n s'. cleanup s now = Inr (n, s') \<and>
    det_table s' = filter (\<lambda>r. cutoff \<le> row_timestamp r) (det_table s) \<and>
    n + int (length (det_table s')) = int (length (det_table s)) \<and>
    count_events s' = Inr (int (length (det_table s)) - n) \<and>
    ts_table s' = ts_table s \<and> conv_table s' = conv_table s \<and>
    (\<forall>r \<in> set (det_table s'). cutoff \<le> row_timestamp r)"
proof -
  have "length (filter (\<lambda>r. row_timestamp r < cutoff) (det_table s)) +
        length (filter (\<lambda>r. cutoff \<le> row_timestamp r) (det_table s)) = length (det_table s)"
    using sum_length_filter_compl [of "\<lambda>r. row_timestamp r < cutoff" "det_table s"]
    by (simp add: not_less)
  then show ?thesis
    using assms(1) by (simp add: cleanup_def count_events_def Let_def c [symmetric] not_less)
qed

theorem cleanup_exact_witness:
  "\<exists>n s'. cleanup (sample_store\<lparr>retention_days := 0\<rparr>) 25 = Inr (n, s') \<and>
     map row_timestamp (det_table s') = [30]"
  using cleanup_exact [of "sample_store\<lparr>retention_days := 0\<rparr>" 25 25]
  by (auto simp: sample_store_def new_store_def row_of_event_def or_else_def)

text \<open>
  The aggregation over buckets loses and invents nothing: when the limit does not cut,
  the sums of all buckets add up to the sum of the selected points, and the counts to their
  number; the buckets come in ascending order, each once.
\<close>

theorem bucket_totals:
  assumes "0 < bucket" and p: "pts = select_points s name dev start stop"
    and "connected s" and "0 < start" and "0 < stop"
    and ok: "outcome (db_retry attempts) = Inr ()" and "limit < 0"
  shows "\<exists>totals counts.
    query_timeseries s attempts now name dev start stop ''sum'' bucket limit = Inr totals \<and>
    query_timeseries s attempts now name dev start stop ''count'' bucket limit = Inr counts \<and>
    sum_list (map snd totals) = sum_list (map ts_value pts) \<and>
    sum_list (map snd counts) = real (length pts) \<and>
    sorted_wrt (<) (map fst totals) \<and> map fst counts = map fst totals"
proof -
  let ?ks = "sort (remdups (map (bucket_of bucket) pts))"
  have rows: "query_timeseries s attempts now name dev start stop agg bucket limit =
      Inr (bucket_rows agg bucket pts)" for agg
    using assms by (simp add: query_timeseries_def Let_def sql_limit_def)
  have "sum_list (map snd (bucket_rows ''sum'' bucket pts)) = sum_list (map ts_value pts)"
    using sum_by_key [of ?ks "bucket_of bucket" pts ts_value]
    by (simp add: bucket_rows_def aggregate_def comp_def)
  moreover have "sum_list (map snd (bucket_rows ''count'' bucket pts)) = real (length pts)"
    using sum_by_key [of ?ks "bucket_of bucket" pts "\<lambda>_. 1"]
    by (simp add: bucket_rows_def aggregate_def comp_def sum_list_triv)
  moreover have "sorted_wrt (<) (map fst (bucket_rows ''sum'' bucket pts))"
    by (simp add: bucket_rows_def sorted_wrt_map strict_sorted_iff comp_def)
  moreover have "map fst (bucket_rows ''count'' bucket pts) = map fst (bucket_rows ''sum'' bucket pts)"
    by (simp add: bucket_rows_def)
  ultimately show ?thesis using rows by blast
qed

definition sample_points :: store where
  "sample_points = (new_store 30)\<lparr>ts_table :=
     map (\<lambda>(t, v). \<lparr>ts_timestamp = t, ts_device = ''d'', ts_metric = ''m'', ts_value = v\<rparr>)
       [(1, 2), (61, 3), (62, 4)]\<rparr>"

theorem bucket_totals_witness:
  "\<exists>totals. query_timeseries sample_points (\<lambda>_. Attempt_Ok) 99 ''m'' '''' 1 90 ''sum'' 60 (-1) =
       Inr totals \<and> sum_list (map snd totals) = 9"
  using bucket_totals [of 60 "select_points sample_points ''m'' '''' 1 90" sample_points "''m''"
      "''''" 1 90 "\<lambda>_. Attempt_Ok" "-1" 99]
  by (auto simp: db_retry_ok select_points_def sample_points_def new_store_def)

end
