(* ===== verification/Event_Bus.thy ===== *)
theory Event_Bus
  imports Detection_Store "HOL-Library.Sublist"
begin

text \<open>
  The orchestrator's event bus, \<open>EventBus\<close> of \<open>core/event_bus.py\<close>: a bounded buffer of the
  recent events, persistence in the detection store, and one bounded queue per listener. The
  queues of \<open>asyncio\<close> have identity, which is a number here. \<open>publish\<close> is synchronous, so
  nothing can be cancelled inside it, and every exception of the store is caught by its
  \<open>except Exception\<close>. The lemmas follow one history of published events through the buffer
  and the queues.
\<close>

subsection \<open>State\<close>

record listener =
  queue_id :: nat
  items :: "event list"

record event_bus =
  recent_events :: "event list"
  max_len :: nat
  listeners :: "listener list"
  detection_store :: "store option"
  next_queue :: nat

definition new_event_bus :: "store option \<Rightarrow> nat \<Rightarrow> event_bus" where
  "new_event_bus st n = \<lparr>recent_events = [], max_len = n, listeners = [],
     detection_store = st, next_queue = 0\<rparr>"

definition queue_size :: nat where
  "queue_size = 50"

subsection \<open>Operations\<close>

text \<open>\<open>deque(maxlen=n).append\<close> drops from the left; \<open>Queue.put_nowait\<close> raises when full.\<close>

definition deque_append :: "nat \<Rightarrow> 'a list \<Rightarrow> 'a \<Rightarrow> 'a list" where
  "deque_append n xs x = drop (Suc (length xs) - n) (xs @ [x])"

definition put_nowait :: "event \<Rightarrow> listener \<Rightarrow> listener" where
  "put_nowait ev l =
     (if queue_size \<le> length (items l) then l else l\<lparr>items := items l @ [ev]\<rparr>)"

text \<open>
  The part of \<open>publish\<close> under \<open>try\<close>: the event, then its time series point. An exception
  leaves the rest undone; \<open>attempts\<close> are the database's answers to the first write,
  \<open>attempts_ts\<close> those to the second.
\<close>

definition persist ::
    "store \<Rightarrow> (nat \<Rightarrow> db_attempt) \<Rightarrow> (nat \<Rightarrow> db_attempt) \<Rightarrow> event \<Rightarrow> real \<Rightarrow> store" where
  "persist s attempts attempts_ts ev now =
     (let (r, s1) = record_event s attempts ev now;
          dev = or_else (ev_device_id ev) '''';
          ts = or_else (ev_timestamp ev) now;
          dets = or_else (ev_detections ev) []
      in case r of
          Inl _ \<Rightarrow> s1
        | Inr _ \<Rightarrow>
            if ev_type ev = Some ''detection'' \<and> dets \<noteq> []
            then snd (record_timeseries s1 attempts_ts dev ''detections_count''
                        (real (length dets)) ts now)
            else if ev_type ev = Some ''vlm_analysis''
            then snd (record_timeseries s1 attempts_ts dev ''vlm_analyses_count'' 1 ts now)
            else s1)"

definition publish ::
    "event_bus \<Rightarrow> (nat \<Rightarrow> db_attempt) \<Rightarrow> (nat \<Rightarrow> db_attempt) \<Rightarrow> event \<Rightarrow> real \<Rightarrow> event_bus" where
  "publish b attempts attempts_ts ev now =
     (let b1 = b\<lparr>recent_events := deque_append (max_len b) (recent_events b) ev\<rparr>;
          b2 = (case detection_store b1 of
                  None \<Rightarrow> b1
                | Some s \<Rightarrow> b1\<lparr>detection_store := Some (persist s attempts attempts_ts ev now)\<rparr>)
      in b2\<lparr>listeners := map (put_nowait ev) (listeners b2)\<rparr>)"

definition subscribe :: "event_bus \<Rightarrow> nat \<times> event_bus" where
  "subscribe b =
     (next_queue b,
      b\<lparr>listeners := listeners b @ [\<lparr>queue_id = next_queue b, items = []\<rparr>],
        next_queue := Suc (next_queue b)\<rparr>)"

fun remove_first :: "('a \<Rightarrow> bool) \<Rightarrow> 'a list \<Rightarrow> 'a list" where
  "remove_first P [] = []"
| "remove_first P (x # xs) = (if P x then xs else x # remove_first P xs)"

definition unsubscribe :: "event_bus \<Rightarrow> nat \<Rightarrow> event_bus" where
  "unsubscribe b q = b\<lparr>listeners := remove_first (\<lambda>l. queue_id l = q) (listeners b)\<rparr>"

definition get_recent :: "event_bus \<Rightarrow> int \<Rightarrow> string \<Rightarrow> event list" where
  "get_recent b limit dev =
     (let events = (if dev \<noteq> '''' then filter (\<lambda>e. ev_device_id e = Some dev) (recent_events b)
                    else recent_events b)
      in slice_from events (- limit))"

subsection \<open>Runs\<close>

text \<open>\<open>Take\<close> is a listener's \<open>queue.get\<close>, which the code calls in the dashboard's stream.\<close>

datatype bus_op =
    Publish event real "nat \<Rightarrow> db_attempt" "nat \<Rightarrow> db_attempt"
  | Subscribe
  | Unsubscribe nat
  | Take nat

definition take_item :: "nat \<Rightarrow> listener \<Rightarrow> listener" where
  "take_item q l = (if queue_id l = q then l\<lparr>items := tl (items l)\<rparr> else l)"

fun bus_step :: "event_bus \<Rightarrow> bus_op \<Rightarrow> event_bus" where
  "bus_step b (Publish ev now a1 a2) = publish b a1 a2 ev now"
| "bus_step b Subscribe = snd (subscribe b)"
| "bus_step b (Unsubscribe q) = unsubscribe b q"
| "bus_step b (Take q) = b\<lparr>listeners := map (take_item q) (listeners b)\<rparr>"

fun published :: "bus_op list \<Rightarrow> event list" where
  "published [] = []"
| "published (Publish ev now a1 a2 # ops) = ev # published ops"
| "published (_ # ops) = published ops"

lemma published_append: "published (xs @ ys) = published xs @ published ys"
  by (induction xs rule: published.induct) auto

definition last_n :: "nat \<Rightarrow> 'a list \<Rightarrow> 'a list" where
  "last_n n xs = drop (length xs - n) xs"

lemma deque_append_last_n: "deque_append n (last_n n xs) x = last_n n (xs @ [x])"
  by (cases "n \<le> length xs") (auto simp: deque_append_def last_n_def Suc_diff_le)

lemma publish_fields [simp]:
  "recent_events (publish b a1 a2 ev now) = deque_append (max_len b) (recent_events b) ev"
  "listeners (publish b a1 a2 ev now) = map (put_nowait ev) (listeners b)"
  "max_len (publish b a1 a2 ev now) = max_len b"
  "next_queue (publish b a1 a2 ev now) = next_queue b"
  by (simp_all add: publish_def Let_def split: option.splits)

lemma max_len_step [simp]: "max_len (bus_step b op) = max_len b"
  by (cases op) (simp_all add: subscribe_def unsubscribe_def)

lemma max_len_run [simp]: "max_len (foldl bus_step b ops) = max_len b"
  by (induction ops arbitrary: b) auto

lemma set_remove_first: "set (remove_first P xs) \<subseteq> set xs"
  by (induction xs) auto

lemma distinct_remove_first: "distinct (map f xs) \<Longrightarrow> distinct (map f (remove_first P xs))"
proof (induction xs)
  case (Cons a xs)
  then show ?case using set_remove_first [of P xs] by auto
qed simp

lemma queue_id_kept [simp]: "queue_id (put_nowait ev l) = queue_id l" "queue_id (take_item q l) = queue_id l"
  by (simp_all add: put_nowait_def take_item_def)

definition queues_ok :: "event_bus \<Rightarrow> bool" where
  "queues_ok b \<longleftrightarrow> distinct (map queue_id (listeners b)) \<and>
     (\<forall>l \<in> set (listeners b). queue_id l < next_queue b \<and> length (items l) \<le> queue_size)"

lemma queues_ok_step: "queues_ok b \<Longrightarrow> queues_ok (bus_step b op)"
proof (cases op)
  case (Publish ev now a1 a2)
  have "length (items (put_nowait ev l)) \<le> queue_size" if "length (items l) \<le> queue_size" for l
    using that by (simp add: put_nowait_def)
  with Publish show "queues_ok b \<Longrightarrow> ?thesis"
    by (auto simp: queues_ok_def comp_def)
next
  case Subscribe
  then show "queues_ok b \<Longrightarrow> ?thesis"
    by (auto simp: queues_ok_def subscribe_def)
next
  case (Unsubscribe q)
  then show "queues_ok b \<Longrightarrow> ?thesis"
    using set_remove_first by (fastforce simp: queues_ok_def unsubscribe_def distinct_remove_first)
next
  case (Take q)
  have "length (items (take_item q l)) \<le> queue_size" if "length (items l) \<le> queue_size" for l
    using that by (auto simp: take_item_def)
  with Take show "queues_ok b \<Longrightarrow> ?thesis"
    by (auto simp: queues_ok_def comp_def)
qed

interpretation bus: kept_invariant bus_step queues_ok
  by unfold_locales (rule queues_ok_step)

lemma recent_run:
  "recent_events (foldl bus_step (new_event_bus st n) ops) = last_n n (published ops)"
proof (induction ops rule: rev_induct)
  case Nil
  then show ?case by (simp add: new_event_bus_def last_n_def)
next
  case (snoc op ops)
  then show ?case
    by (cases op) (simp_all add: published_append deque_append_last_n subscribe_def
        unsubscribe_def new_event_bus_def)
qed

text \<open>What stands in a queue is a subsequence of the published events.\<close>

lemma subseq_tl: "subseq xs ys \<Longrightarrow> subseq (tl xs) ys"
  by (metis list.collapse list.sel(2) subseq_Cons')

lemma queue_subseq_run:
  "l \<in> set (listeners (foldl bus_step (new_event_bus st n) ops)) \<Longrightarrow> subseq (items l) (published ops)"
proof (induction ops arbitrary: l rule: rev_induct)
  case Nil
  then show ?case by (simp add: new_event_bus_def)
next
  case (snoc op ops)
  let ?b = "foldl bus_step (new_event_bus st n) ops"
  show ?case
  proof (cases op)
    case (Publish ev now a1 a2)
    with snoc.prems obtain k where k: "k \<in> set (listeners ?b)" "l = put_nowait ev k" by auto
    with snoc.IH [OF k(1)] show ?thesis
      by (auto simp: Publish published_append put_nowait_def intro: list_emb_append_mono
          list_emb_append2 subseq_rev_drop_many)
  next
    case Subscribe
    with snoc show ?thesis by (auto simp: published_append subscribe_def)
  next
    case (Unsubscribe q)
    with snoc show ?thesis
      using set_remove_first by (fastforce simp: published_append unsubscribe_def)
  next
    case (Take q)
    with snoc.prems obtain k where k: "k \<in> set (listeners ?b)" "l = take_item q k" by auto
    with subseq_tl [OF snoc.IH [OF k(1)]] snoc.IH [OF k(1)] show ?thesis
      by (simp add: Take published_append take_item_def)
  qed
qed

subsection \<open>Properties\<close>

text \<open>
  Claim C4. Whatever the operations and the failures of the database, the buffer of a fresh
  bus holds exactly the last \<open>maxlen\<close> published events in order; every listener's queue holds
  at most 50 events, in the order in which they were published and none of them twice; and no
  two queues are the same.
\<close>

theorem event_bus_delivery:
  assumes b: "b = foldl bus_step (new_event_bus st n) ops"
  shows "recent_events b = last_n n (published ops) \<and>
    distinct (map queue_id (listeners b)) \<and>
    (\<forall>l \<in> set (listeners b). length (items l) \<le> 50 \<and> subseq (items l) (published ops))"
proof -
  have "queues_ok b" unfolding b by (rule bus.run_keeps) (simp add: queues_ok_def new_event_bus_def)
  then show ?thesis
    using recent_run [of st n ops] queue_subseq_run [of _ st n ops]
    by (simp add: b queues_ok_def queue_size_def)
qed

theorem event_bus_delivery_witness:
  "recent_events (foldl bus_step (new_event_bus None 1)
     [Subscribe, Publish an_event 1 busy_commit busy_commit,
      Publish (an_event\<lparr>ev_frame_id := None\<rparr>) 2 busy_commit busy_commit]) =
   [an_event\<lparr>ev_frame_id := None\<rparr>]"
  by (subst event_bus_delivery [OF refl, THEN conjunct1]) (simp add: last_n_def)

text \<open>
  A failure of the database is invisible to the subscribers: publishing an event
  puts it at the end of the buffer and of every queue with room for it, whatever the store
  does, and the store only grows.
\<close>

theorem publish_despite_store:
  assumes b: "b1 = publish b attempts attempts_ts ev now" and "0 < max_len b"
  shows "last (recent_events b1) = ev \<and>
    listeners b1 = map (\<lambda>l. if length (items l) < 50 then l\<lparr>items := items l @ [ev]\<rparr> else l)
      (listeners b) \<and>
    (\<forall>s s1. detection_store b = Some s \<and> detection_store b1 = Some s1 \<longrightarrow>
       (\<exists>rows pts. det_table s1 = det_table s @ rows \<and> set rows \<subseteq> {row_of_event ev now} \<and>
          ts_table s1 = ts_table s @ pts \<and> conv_table s1 = conv_table s))"
proof -
  have grows: "\<exists>rows pts. det_table (persist s attempts attempts_ts ev now) = det_table s @ rows \<and>
      set rows \<subseteq> {row_of_event ev now} \<and>
      ts_table (persist s attempts attempts_ts ev now) = ts_table s @ pts \<and>
      conv_table (persist s attempts attempts_ts ev now) = conv_table s" for s
    by (auto simp: persist_def record_event_def record_timeseries_def Let_def split: sum.splits)
  have "last (recent_events b1) = ev"
    using assms(2) by (simp add: b deque_append_def)
  moreover have "listeners b1 =
      map (\<lambda>l. if length (items l) < 50 then l\<lparr>items := items l @ [ev]\<rparr> else l) (listeners b)"
    by (auto simp: b put_nowait_def queue_size_def)
  ultimately show ?thesis using grows by (auto simp: b publish_def Let_def)
qed

theorem publish_despite_store_witness:
  "last (recent_events (publish (new_event_bus (Some (close_store (new_store 1))) 100)
      busy_commit busy_commit an_event 3)) = an_event"
  using publish_despite_store [OF refl, of "new_event_bus (Some (close_store (new_store 1))) 100"]
  by (simp add: new_event_bus_def)

text \<open>
  For a positive limit \<open>get_recent\<close> returns the newest events of the device asked
  for, in order, all of them when there are at most \<open>limit\<close>; but for the limit 0 it returns
  every event instead of none, because \<open>events[-0:]\<close> is the whole list.
\<close>

theorem get_recent_limits:
  assumes e: "evs = filter (\<lambda>e. dev = '''' \<or> ev_device_id e = Some dev) (recent_events b)"
  shows "(0 < limit \<longrightarrow> get_recent b limit dev = last_n (nat limit) evs) \<and>
    get_recent b 0 dev = evs"
  by (auto simp: e get_recent_def slice_from_def last_n_def Let_def)

theorem get_recent_limits_witness:
  "get_recent (publish (new_event_bus None 9) busy_commit busy_commit an_event 3) 0 '''' = [an_event]"
  by (subst get_recent_limits [OF refl, THEN conjunct2])
    (simp add: new_event_bus_def deque_append_def)

end
