(* ===== verification/Py_Text.thy ===== *)
theory Py_Text
  imports Prelude "HOL-Library.Sublist"
begin

text \<open>
  What the development uses of Python strings: decimal numbers as the f-strings print them,
  zero padding, \<open>join\<close>, the substring test and ASCII \<open>lower\<close>/\<open>upper\<close>. A string is a list
  of characters. Decimal printing is injective, which is what makes the identifiers built from
  counters distinct.
\<close>

subsection \<open>Decimal numbers\<close>

definition digit :: "nat \<Rightarrow> char" where
  "digit n = ''0123456789'' ! n"

fun dec :: "nat \<Rightarrow> string" where
  "dec n = (if n < 10 then [digit n] else dec (n div 10) @ [digit (n mod 10)])"

declare dec.simps [simp del]

definition str_int :: "int \<Rightarrow> string" where
  "str_int i = (if 0 \<le> i then dec (nat i) else ''-'' @ dec (nat (- i)))"

text \<open>The format \<open>{n:04d}\<close>: zeros on the left up to four characters.\<close>

definition pad4 :: "nat \<Rightarrow> string" where
  "pad4 n = replicate (4 - length (dec n)) (CHR ''0'') @ dec n"

text \<open>The format \<open>{x:.nf}\<close> (\<open>n\<close> digits after the point; a negative zero is not kept).\<close>

definition fmt_fixed :: "nat \<Rightarrow> real \<Rightarrow> string" where
  "fmt_fixed n x =
     (let m = round_half_even (x * 10 ^ n);
          s = dec (nat \<bar>m\<bar>);
          t = replicate (Suc n - length s) (CHR ''0'') @ s;
          k = length t - n
      in (if m < 0 then ''-'' else '''') @ take k t @ (if n = 0 then '''' else ''.'' @ drop k t))"

lemma digit_inj: "m < 10 \<Longrightarrow> n < 10 \<Longrightarrow> digit m = digit n \<longleftrightarrow> m = n"
proof -
  have "distinct ''0123456789''" "length ''0123456789'' = 10" by simp_all
  then show "m < 10 \<Longrightarrow> n < 10 \<Longrightarrow> ?thesis"
    unfolding digit_def by (metis nth_eq_iff_index_eq)
qed

lemma digit_zero: "digit 0 = CHR ''0''"
  by (simp add: digit_def)

lemma dec_not_Nil [simp]: "dec n \<noteq> []" "[] \<noteq> dec n"
  by (subst dec.simps, simp)+

lemma dec_inj: "dec m = dec n \<Longrightarrow> m = n"
proof (induction m arbitrary: n rule: less_induct)
  case (less m)
  show ?case
  proof (cases "m < 10 \<or> n < 10")
    case True
    then show ?thesis
      using less.prems by (auto simp: dec.simps [of m] dec.simps [of n] digit_inj split: if_splits)
  next
    case False
    then have "dec (m div 10) = dec (n div 10)" "m mod 10 = n mod 10"
      using less.prems by (auto simp: dec.simps [of m] dec.simps [of n] digit_inj)
    moreover have "m div 10 < m" using False by simp
    ultimately show ?thesis using less.IH by (metis div_mult_mod_eq)
  qed
qed

lemma digit_ascii: "n < 10 \<Longrightarrow> digit n \<in> set ''0123456789''"
  unfolding digit_def by (rule nth_mem) simp

lemma set_dec: "set (dec n) \<subseteq> set ''0123456789''"
proof (induction n rule: dec.induct)
  case (1 n)
  then show ?case
    using digit_ascii [of n] digit_ascii [of "n mod 10"]
    by (subst dec.simps) auto
qed

lemma hd_dec: "hd (dec n) = CHR ''0'' \<longleftrightarrow> n = 0"
proof (induction n rule: less_induct)
  case (less n)
  show ?case
  proof (cases "n < 10")
    case True
    then show ?thesis
      using digit_inj [of n 0] by (simp add: dec.simps [of n] digit_zero)
  next
    case False
    then have "n div 10 < n" "n div 10 \<noteq> 0" by auto
    with less.IH [of "n div 10"] False show ?thesis
      by (simp add: dec.simps [of n])
  qed
qed

lemma dec_0: "dec 0 = ''0''"
  by (simp add: dec.simps [of 0] digit_def)

lemma strip_zeros_pad4:
  "dropWhile (\<lambda>c. c = CHR ''0'') (pad4 n) = (if n = 0 then [] else dec n)"
proof (cases "n = 0")
  case True
  then show ?thesis by (simp add: pad4_def dec_0 dropWhile_eq_Nil_conv)
next
  case False
  then have "dropWhile (\<lambda>c. c = CHR ''0'') (dec n) = dec n"
    using hd_dec [of n] by (cases "dec n") auto
  with False show ?thesis by (simp add: pad4_def dropWhile_append)
qed

lemma pad4_inj:
  assumes "pad4 m = pad4 n"
  shows "m = n"
proof -
  have "(if m = 0 then [] else dec m) = (if n = 0 then [] else dec n)"
    using assms by (metis strip_zeros_pad4)
  then show ?thesis by (auto split: if_splits dest: dec_inj)
qed

lemma dec_no_minus: "dec n \<noteq> CHR ''-'' # xs"
  using set_dec [of n] by auto

lemma str_int_inj: "str_int i = str_int j \<Longrightarrow> i = j"
  using dec_inj [of "nat i" "nat j"] dec_inj [of "nat (- i)" "nat (- j)"]
  by (auto simp: str_int_def dec_no_minus dec_no_minus [symmetric] split: if_splits)

subsection \<open>Other string functions\<close>

definition newline :: char where
  "newline = char_of (10 :: nat)"

definition quote :: char where
  "quote = char_of (34 :: nat)"

definition apostrophe :: char where
  "apostrophe = char_of (39 :: nat)"

text \<open>Characters outside ASCII are written as their UTF-8 bytes.\<close>

definition em_dash :: string where
  "em_dash = map char_of [226 :: nat, 128, 148]"

fun join :: "string \<Rightarrow> string list \<Rightarrow> string" where
  "join sep [] = []"
| "join sep [x] = x"
| "join sep (x # y # ys) = x @ sep @ join sep (y # ys)"

text \<open>\<open>needle in hay\<close>, on strings.\<close>

fun contains :: "string \<Rightarrow> string \<Rightarrow> bool" where
  "contains needle [] = (needle = [])"
| "contains needle (c # cs) = (prefix needle (c # cs) \<or> contains needle cs)"

lemma contains_sublist: "contains needle hay \<longleftrightarrow> sublist needle hay"
  by (induction hay) (auto simp: sublist_Cons_right)

definition starts_with :: "string \<Rightarrow> string \<Rightarrow> bool" where
  "starts_with s pre = prefix pre s"

definition lower_char :: "char \<Rightarrow> char" where
  "lower_char c =
     (let n = of_char c :: nat in if 65 \<le> n \<and> n \<le> 90 then char_of (n + 32) else c)"

definition upper_char :: "char \<Rightarrow> char" where
  "upper_char c =
     (let n = of_char c :: nat in if 97 \<le> n \<and> n \<le> 122 then char_of (n - 32) else c)"

text \<open>\<open>str.lower\<close> and \<open>str.upper\<close> on ASCII text; other characters are left as they are.\<close>

definition lower :: "string \<Rightarrow> string" where
  "lower s = map lower_char s"

definition upper :: "string \<Rightarrow> string" where
  "upper s = map upper_char s"

end
