(* ===== verification/Behavior.thy ===== *)
theory Behavior
  imports Detection_Store Py_Text
begin

text \<open>
  The behaviour analysis of \<open>pipeline/behavior_analyzer.py\<close>: crowding in one frame, and
  loitering over the stored history. The history is the query of the store, described by the
  locale \<open>event_source\<close>; \<open>None\<close> is a missing store. Dividing by a threshold of zero raises.
\<close>

subsection \<open>Data\<close>

datatype behavior_type = Loitering | Running | Lingering | Crowd | Unusual_Time

fun behavior_value :: "behavior_type \<Rightarrow> string" where
  "behavior_value Loitering = ''loitering''"
| "behavior_value Running = ''running''"
| "behavior_value Lingering = ''lingering''"
| "behavior_value Crowd = ''crowd''"
| "behavior_value Unusual_Time = ''unusual_time''"

record behavior_event =
  behavior_type :: behavior_type
  be_device :: string
  be_confidence :: real
  be_description :: string
  be_timestamp :: real
  be_metadata :: "(string \<times> event_value) list"

record analyzer =
  loiter_threshold :: real
  crowd_threshold :: int
  analysis_window :: real

definition default_analyzer :: analyzer where
  "default_analyzer = \<lparr>loiter_threshold = 120, crowd_threshold = 5, analysis_window = 300\<rparr>"

type_synonym event_query = "real \<Rightarrow> real \<Rightarrow> int \<Rightarrow> string \<Rightarrow> exn + det_row list"

subsection \<open>Checks\<close>

definition class_counts :: "detection list \<Rightarrow> (string, nat) pydict" where
  "class_counts dets = foldl (\<lambda>d x. AList.update (class_name x)
     (Suc (case map_of d (class_name x) of None \<Rightarrow> 0 | Some n \<Rightarrow> n)) d) [] dets"

definition check_crowd :: "analyzer \<Rightarrow> string \<Rightarrow> detection list \<Rightarrow> real \<Rightarrow> exn + behavior_event option" where
  "check_crowd a dev dets ts =
     (case List.find (\<lambda>(c, n). crowd_threshold a \<le> int n) (class_counts dets) of
        None \<Rightarrow> Inr None
      | Some (c, n) \<Rightarrow>
          if crowd_threshold a = 0 then Inl Zero_Division_Error
          else Inr (Some \<lparr>behavior_type = Crowd, be_device = dev,
            be_confidence = min 1 (real n / (real_of_int (crowd_threshold a) * 2)),
            be_description = str_int (int n) @ '' '' @ c @ '' objects detected (threshold: '' @
              str_int (crowd_threshold a) @ '')'',
            be_timestamp = ts,
            be_metadata = [(''class_name'', Text c), (''count'', Number (Fin (real n)))]\<rparr>))"

definition is_person :: "detection \<Rightarrow> bool" where
  "is_person d \<longleftrightarrow> class_name d = ''person''"

definition person_buckets :: "det_row list \<Rightarrow> int set" where
  "person_buckets rows =
     set (map (\<lambda>r. trunc_int (row_timestamp r / 10))
       (filter (\<lambda>r. \<exists>d \<in> set (row_detections r). is_person d) rows))"

definition check_loitering ::
    "event_query option \<Rightarrow> analyzer \<Rightarrow> string \<Rightarrow> detection list \<Rightarrow> real \<Rightarrow> exn + behavior_event option" where
  "check_loitering st a dev dets ts =
     (case st of
        None \<Rightarrow> Inr None
      | Some query \<Rightarrow>
          (case query (ts - analysis_window a) ts 200 dev of
             Inl e \<Rightarrow> if is_exception e then Inr None else Inl e
           | Inr history \<Rightarrow>
               if history = [] then Inr None
               else if \<not> (\<exists>d \<in> set dets. is_person d) then Inr None
               else
                 let n = card (person_buckets history); duration = real n * 10
                 in if duration < loiter_threshold a then Inr None
                    else if loiter_threshold a = 0 then Inl Zero_Division_Error
                    else Inr (Some \<lparr>behavior_type = Loitering, be_device = dev,
                      be_confidence = min 1 (duration / (loiter_threshold a * 2)),
                      be_description = ''Person detected across ~'' @ fmt_fixed 0 duration @
                        ''s window (threshold: '' @ fmt_fixed 0 (loiter_threshold a) @ ''s)'',
                      be_timestamp = ts,
                      be_metadata = [(''duration_estimate'', Number (Fin duration)),
                                     (''bucket_count'', Number (Fin (real n)))]\<rparr>)))"

definition analyze ::
    "event_query option \<Rightarrow> analyzer \<Rightarrow> string \<Rightarrow> detection list \<Rightarrow> real \<Rightarrow> real
       \<Rightarrow> exn + behavior_event list" where
  "analyze st a dev dets timestamp now =
     (let ts = (if timestamp = 0 then now else timestamp)
      in case check_crowd a dev dets ts of
          Inl e \<Rightarrow> Inl e
        | Inr crowd \<Rightarrow>
            let events = (case crowd of None \<Rightarrow> [] | Some e \<Rightarrow> [e])
            in if st = None then Inr events
               else case check_loitering st a dev dets ts of
                   Inl e \<Rightarrow> Inl e
                 | Inr loiter \<Rightarrow> Inr (events @ (case loiter of None \<Rightarrow> [] | Some e \<Rightarrow> [e])))"

subsection \<open>Lemmas\<close>

definition class_total :: "string \<Rightarrow> detection list \<Rightarrow> nat" where
  "class_total c dets = length (filter (\<lambda>d. class_name d = c) dets)"

lemma class_counts_snoc:
  "class_counts (dets @ [x]) = AList.update (class_name x)
     (Suc (case map_of (class_counts dets) (class_name x) of None \<Rightarrow> 0 | Some n \<Rightarrow> n)) (class_counts dets)"
  by (simp add: class_counts_def)

lemma map_of_class_counts:
  "map_of (class_counts dets) c = (if class_total c dets = 0 then None else Some (class_total c dets))"
proof (induction dets rule: rev_induct)
  case Nil
  then show ?case by (simp add: class_counts_def class_total_def)
next
  case (snoc x dets)
  then show ?case by (auto simp: class_counts_snoc class_total_def)
qed

lemma class_counts_ok: "dict_ok (class_counts dets)"
  by (induction dets rule: rev_induct) (simp_all add: class_counts_snoc, simp add: class_counts_def)

lemma in_class_counts:
  "(c, n) \<in> set (class_counts dets) \<longleftrightarrow> 0 < n \<and> n = class_total c dets"
proof -
  have "(c, n) \<in> set (class_counts dets) \<longleftrightarrow> map_of (class_counts dets) c = Some n"
    using class_counts_ok [of dets] by (simp add: dict_ok_def map_of_eq_Some_iff)
  then show ?thesis by (auto simp: map_of_class_counts split: if_splits)
qed

lemma check_crowd_cases:
  assumes "0 < crowd_threshold a"
  shows "(check_crowd a dev dets ts = Inr None \<and>
      (\<forall>c. int (class_total c dets) < crowd_threshold a)) \<or>
    (\<exists>e c. check_crowd a dev dets ts = Inr (Some e) \<and> crowd_threshold a \<le> int (class_total c dets) \<and>
      be_metadata e = [(''class_name'', Text c), (''count'', Number (Fin (real (class_total c dets))))] \<and>
      be_confidence e = min 1 (real (class_total c dets) / (2 * real_of_int (crowd_threshold a))))"
proof (cases "List.find (\<lambda>(c, n). crowd_threshold a \<le> int n) (class_counts dets)")
  case None
  then have "\<forall>(c, n) \<in> set (class_counts dets). int n < crowd_threshold a"
    by (auto simp: find_None_iff not_le)
  then have "\<forall>c. int (class_total c dets) < crowd_threshold a"
    using assms by (metis (mono_tags, lifting) case_prodD gr0I in_class_counts of_nat_0)
  then show ?thesis using None by (simp add: check_crowd_def)
next
  case (Some p)
  then obtain c n where p: "p = (c, n)" "(c, n) \<in> set (class_counts dets)" "crowd_threshold a \<le> int n"
    by (cases p) (auto simp: find_Some_iff dest: nth_mem)
  then have "n = class_total c dets" by (simp add: in_class_counts)
  then show ?thesis using Some p assms by (simp add: check_crowd_def mult.commute)
qed

lemma trunc_int_mono: "x \<le> y \<Longrightarrow> trunc_int x \<le> trunc_int y"
  by (auto simp: trunc_int_def floor_mono ceiling_mono)
    (meson ceiling_le_zero linear order_trans zero_le_floor)

lemma trunc_int_bounds: "x - 1 < real_of_int (trunc_int x)" "real_of_int (trunc_int x) < x + 1"
  by (simp_all add: trunc_int_def) linarith+

text \<open>Inside the interface: the buckets come from the window, so their number is bounded by its length.\<close>

context event_source
begin

lemma bucket_bound:
  assumes q: "query since til 200 dev = Inr rows" and "0 < til" and "since \<le> til"
  shows "real (card (person_buckets rows)) * 10 \<le> (til - since) + 30"
proof -
  let ?l = "trunc_int (since / 10)" and ?u = "trunc_int (til / 10)"
  have "person_buckets rows \<subseteq> {?l..?u}"
    using rows_since [OF q] rows_until [OF q] \<open>0 < til\<close>
    by (auto simp: person_buckets_def intro!: trunc_int_mono divide_right_mono)
  then have "card (person_buckets rows) \<le> nat (?u - ?l + 1)"
    using card_mono [of "{?l..?u}"] by simp
  moreover have "?l \<le> ?u" using assms(3) by (intro trunc_int_mono divide_right_mono) auto
  ultimately have "real (card (person_buckets rows)) \<le> real_of_int (?u - ?l + 1)" by linarith
  then show ?thesis using trunc_int_bounds [of "til / 10"] trunc_int_bounds [of "since / 10"] by simp
qed

lemma loiter_needs_window:
  assumes "check_loitering (Some query) a dev dets ts = Inr (Some e)"
    and "0 < ts" and "0 \<le> analysis_window a"
  shows "loiter_threshold a \<le> analysis_window a + 30"
proof -
  obtain rows where r: "query (ts - analysis_window a) ts 200 dev = Inr rows"
    and "loiter_threshold a \<le> real (card (person_buckets rows)) * 10"
    using assms(1) by (auto simp: check_loitering_def Let_def split: sum.splits if_splits)
  with bucket_bound [OF r] assms(2,3) show ?thesis by simp
qed

end

subsection \<open>Properties\<close>

text \<open>
  For a positive threshold a crowd is reported exactly when some class has at least
  that many detections in the frame; the report names such a class with its exact number, and
  its confidence is at least one half and at most one.
\<close>

theorem crowd_reported_iff:
  assumes "0 < crowd_threshold a"
  shows "\<exists>r. check_crowd a dev dets ts = Inr r \<and>
    (r \<noteq> None \<longleftrightarrow> (\<exists>c. crowd_threshold a \<le> int (class_total c dets))) \<and>
    (\<forall>e. r = Some e \<longrightarrow> 1 / 2 \<le> be_confidence e \<and> be_confidence e \<le> 1 \<and>
      (\<exists>c. crowd_threshold a \<le> int (class_total c dets) \<and> be_metadata e =
        [(''class_name'', Text c), (''count'', Number (Fin (real (class_total c dets))))]))"
proof -
  have half: "1 / 2 \<le> real n / (2 * real_of_int t)" if "t \<le> int n" "0 < t" for n t
  proof -
    have "real_of_int t \<le> real n" using that by linarith
    then show ?thesis using that(2) by (simp add: pos_le_divide_eq)
  qed
  from check_crowd_cases [OF assms, of dev dets ts] show ?thesis
  proof (elim disjE exE conjE)
    assume "check_crowd a dev dets ts = Inr None"
      and "\<forall>c. int (class_total c dets) < crowd_threshold a"
    then show ?thesis by (auto simp: not_le)
  next
    fix e c
    assume "check_crowd a dev dets ts = Inr (Some e)" "crowd_threshold a \<le> int (class_total c dets)"
      "be_metadata e = [(''class_name'', Text c), (''count'', Number (Fin (real (class_total c dets))))]"
      "be_confidence e = min 1 (real (class_total c dets) / (2 * real_of_int (crowd_threshold a)))"
    moreover have "1 / 2 \<le> be_confidence e" "be_confidence e \<le> 1"
      using half [OF \<open>crowd_threshold a \<le> _\<close> assms] \<open>be_confidence e = _\<close> by linarith+
    ultimately show ?thesis by (intro exI [of _ "Some e"]) blast
  qed
qed

definition person :: detection where
  "person = \<lparr>class_name = ''person'', confidence = Fin 1, x_min = Fin 0, y_min = Fin 0,
     x_max = Fin 1, y_max = Fin 1\<rparr>"

theorem crowd_reported_iff_witness:
  "\<exists>e. check_crowd default_analyzer ''d'' (replicate 6 person) 0 = Inr (Some e)"
proof -
  have "class_total ''person'' (replicate 6 person) = 6" by (simp add: class_total_def person_def)
  then have "\<exists>c. crowd_threshold default_analyzer \<le> int (class_total c (replicate 6 person))"
    by (intro exI [of _ "''person''"]) (simp add: default_analyzer_def)
  then show ?thesis
    using crowd_reported_iff [of default_analyzer "''d''" "replicate 6 person" 0]
    by (auto simp: default_analyzer_def)
qed

text \<open>
  On the store, loitering can be reported only when the current frame shows a person
  and the threshold is at most 30 seconds more than the analysis window: for a longer
  threshold no history is enough. A failing database means no report, never an exception.
\<close>

theorem loitering_needs_window:
  assumes "0 < ts" and "0 \<le> analysis_window a"
  shows "(\<forall>e. check_loitering (Some (query_events s attempts now)) a dev dets ts = Inr (Some e) \<longrightarrow>
      loiter_threshold a \<le> analysis_window a + 30 \<and> (\<exists>d \<in> set dets. is_person d)) \<and>
    (\<forall>e. query_events s attempts now (ts - analysis_window a) ts 200 dev = Inl e \<and> is_exception e \<longrightarrow>
      check_loitering (Some (query_events s attempts now)) a dev dets ts = Inr None)"
  using stored.loiter_needs_window [OF _ assms]
  by (auto simp: check_loitering_def Let_def split: sum.splits if_splits)

theorem loitering_needs_window_witness:
  "check_loitering (Some (query_events (close_store (new_store 7)) busy_commit 5)) default_analyzer
     ''d'' [person] 400 = Inr None"
proof -
  have "query_events (close_store (new_store 7)) busy_commit 5 (400 - analysis_window default_analyzer)
      400 200 ''d'' = Inl no_connection"
    by (simp add: query_events_def close_store_def)
  then show ?thesis
    using loitering_needs_window [of 400 default_analyzer, THEN conjunct2]
    by (simp add: default_analyzer_def no_connection_def)
qed

end
