(* ===== verification/Statistics.thy ===== *)
theory Statistics
  imports Complex_Main
begin

text \<open>
  The mean and the population variance of a list of numbers, computed as the anomaly baseline
  and the time series engine compute them, with the facts the two share: the squares add up,
  Chebyshev's bound on the number of values far from the mean, and the range of the mean.
\<close>

definition mean :: "real list \<Rightarrow> real" where
  "mean xs = sum_list xs / real (length xs)"

definition variance :: "real list \<Rightarrow> real" where
  "variance xs = sum_list (map (\<lambda>v. (v - mean xs)\<^sup>2) xs) / real (length xs)"

definition std_dev :: "real list \<Rightarrow> real" where
  "std_dev xs = sqrt (variance xs)"

lemma sum_list_squares_nonneg: "0 \<le> sum_list (map (\<lambda>v. (f v :: real)\<^sup>2) xs)"
  by (induction xs) auto

lemma variance_nonneg [simp]: "0 \<le> variance xs"
  by (simp add: variance_def sum_list_squares_nonneg)

lemma std_dev_nonneg [simp]: "0 \<le> std_dev xs"
  by (simp add: std_dev_def)

lemma std_dev_square [simp]: "(std_dev xs)\<^sup>2 = variance xs"
  by (simp add: std_dev_def)

lemma square_le_sum_squares: "x \<in> set xs \<Longrightarrow> (f x :: real)\<^sup>2 \<le> sum_list (map (\<lambda>v. (f v)\<^sup>2) xs)"
proof (induction xs)
  case (Cons a xs)
  then show ?case using sum_list_squares_nonneg [of f xs] by (auto intro: add_increasing)
qed simp

lemma variance_zero_const: "variance xs = 0 \<Longrightarrow> x \<in> set xs \<Longrightarrow> x = mean xs"
  using square_le_sum_squares [of x xs "\<lambda>v. v - mean xs"]
  by (cases xs) (auto simp: variance_def)

lemma mean_const: "xs \<noteq> [] \<Longrightarrow> (\<And>x. x \<in> set xs \<Longrightarrow> x = c) \<Longrightarrow> mean xs = c"
proof -
  assume "xs \<noteq> []" and c: "\<And>x. x \<in> set xs \<Longrightarrow> x = c"
  have "sum_list xs = real (length xs) * c"
    using c by (induction xs) (auto simp: algebra_simps)
  with \<open>xs \<noteq> []\<close> show ?thesis by (simp add: mean_def)
qed

lemma std_dev_zero_iff:
  assumes "xs \<noteq> []"
  shows "std_dev xs = 0 \<longleftrightarrow> (\<forall>x \<in> set xs. x = mean xs)"
proof
  show "std_dev xs = 0 \<Longrightarrow> \<forall>x \<in> set xs. x = mean xs"
    using variance_zero_const [of xs] by (simp add: std_dev_def)
  show "\<forall>x \<in> set xs. x = mean xs \<Longrightarrow> std_dev xs = 0"
  proof -
    assume "\<forall>x \<in> set xs. x = mean xs"
    then have "map (\<lambda>v. (v - mean xs)\<^sup>2) xs = map (\<lambda>v. 0) xs" by (intro map_cong refl) simp
    then show ?thesis by (simp add: std_dev_def variance_def map_replicate_const sum_list_replicate)
  qed
qed

lemma count_large_squares:
  assumes "0 \<le> c"
  shows "real (length (filter (\<lambda>v. c \<le> (f v :: real)\<^sup>2) xs)) * c \<le> sum_list (map (\<lambda>v. (f v)\<^sup>2) xs)"
  by (induction xs) (use assms in \<open>auto simp: algebra_simps intro: add_increasing\<close>)

text \<open>Chebyshev: at most \<open>n / z\<^sup>2\<close> of the values are \<open>z\<close> standard deviations away.\<close>

lemma chebyshev:
  assumes "0 < z" and "0 < std_dev xs"
  shows "real (length (filter (\<lambda>v. z \<le> \<bar>v - mean xs\<bar> / std_dev xs) xs)) * z\<^sup>2 \<le> real (length xs)"
proof -
  let ?c = "z\<^sup>2 * variance xs"
  have v: "0 < variance xs" using assms(2) by (simp add: std_dev_def)
  have "z \<le> \<bar>v - mean xs\<bar> / std_dev xs \<longleftrightarrow> ?c \<le> (v - mean xs)\<^sup>2" for v
  proof -
    have "z \<le> \<bar>v - mean xs\<bar> / std_dev xs \<longleftrightarrow> z * std_dev xs \<le> \<bar>v - mean xs\<bar>"
      using assms(2) by (simp add: pos_le_divide_eq)
    also have "\<dots> \<longleftrightarrow> (z * std_dev xs)\<^sup>2 \<le> (v - mean xs)\<^sup>2"
      using assms by (simp add: abs_le_square_iff [symmetric] abs_mult)
    finally show ?thesis by (simp add: power_mult_distrib)
  qed
  moreover have "real (length (filter (\<lambda>v. ?c \<le> (v - mean xs)\<^sup>2) xs)) * ?c \<le>
      sum_list (map (\<lambda>v. (v - mean xs)\<^sup>2) xs)"
    using v by (intro count_large_squares) simp
  moreover have "sum_list (map (\<lambda>v. (v - mean xs)\<^sup>2) xs) = real (length xs) * variance xs"
    by (cases xs) (simp_all add: variance_def)
  ultimately have "real (length (filter (\<lambda>v. z \<le> \<bar>v - mean xs\<bar> / std_dev xs) xs)) * z\<^sup>2 * variance xs
      \<le> real (length xs) * variance xs" by (simp add: mult.assoc)
  then show ?thesis using v by (simp add: mult_le_cancel_right)
qed

lemma sum_list_bounds:
  assumes "\<forall>x \<in> set xs. a \<le> x \<and> x \<le> (b :: real)"
  shows "real (length xs) * a \<le> sum_list xs \<and> sum_list xs \<le> real (length xs) * b"
  using assms by (induction xs) (auto simp: algebra_simps)

lemma mean_bounds:
  assumes "xs \<noteq> []" and "\<forall>x \<in> set xs. a \<le> x \<and> x \<le> b"
  shows "a \<le> mean xs \<and> mean xs \<le> b"
  using sum_list_bounds [OF assms(2)] assms(1)
  by (simp add: mean_def pos_le_divide_eq pos_divide_le_eq mult.commute)

end
