(* ===== verification/Anomaly.thy ===== *)
theory Anomaly
  imports Detection_Store Statistics
begin

text \<open>
  The anomaly baselines of \<open>pipeline/anomaly_baseline.py\<close>. The history comes from the store's
  \<open>query_timeseries\<close>, the parameter \<open>points\<close>, as described by the locale \<open>timeseries_source\<close>;
  \<open>None\<close> stands for a missing store. The z-score is a float that may be infinite.
\<close>

subsection \<open>State\<close>

record baseline =
  b_metric :: string
  b_device :: string
  b_mean :: real
  b_std :: real
  sample_count :: int
  last_updated :: real

record anomaly_score =
  s_metric :: string
  s_device :: string
  s_value :: real
  z_score :: pyfloat
  is_anomaly :: bool
  baseline_mean :: real
  baseline_std :: real

record anomaly_baseline =
  window_hours :: real
  z_threshold :: real
  min_samples :: int
  baselines :: "(string, baseline) pydict"

definition new_anomaly_baseline :: "real \<Rightarrow> real \<Rightarrow> int \<Rightarrow> anomaly_baseline" where
  "new_anomaly_baseline window z n =
     \<lparr>window_hours = window, z_threshold = z, min_samples = n, baselines = []\<rparr>"

definition baseline_key :: "string \<Rightarrow> string \<Rightarrow> string" where
  "baseline_key dev metric = dev @ '':'' @ metric"

subsection \<open>Learning and scoring\<close>

type_synonym points_query =
  "string \<Rightarrow> string \<Rightarrow> real \<Rightarrow> real \<Rightarrow> int \<Rightarrow> exn + (real \<times> real) list"

definition learn_baseline ::
    "points_query option \<Rightarrow> anomaly_baseline \<Rightarrow> string \<Rightarrow> string \<Rightarrow> real
       \<Rightarrow> exn + (baseline option \<times> anomaly_baseline)" where
  "learn_baseline st a dev metric now =
     (case st of
        None \<Rightarrow> Inr (None, a)
      | Some points \<Rightarrow>
          (case points metric dev (now - window_hours a * 3600) now 10000 of
             Inl e \<Rightarrow> Inl e
           | Inr rows \<Rightarrow>
               let vals = map snd rows
               in if int (length vals) < min_samples a then Inr (None, a)
                  else if vals = [] then Inl Zero_Division_Error
                  else let b = \<lparr>b_metric = metric, b_device = dev, b_mean = mean vals,
                                b_std = sqrt (variance vals), sample_count = int (length vals),
                                last_updated = now\<rparr>
                       in Inr (Some b, a\<lparr>baselines :=
                            AList.update (baseline_key dev metric) b (baselines a)\<rparr>)))"

definition score :: "anomaly_baseline \<Rightarrow> string \<Rightarrow> string \<Rightarrow> real \<Rightarrow> anomaly_score" where
  "score a dev metric val =
     (case map_of (baselines a) (baseline_key dev metric) of
        Some b \<Rightarrow>
          if sample_count b < min_samples a
          then \<lparr>s_metric = metric, s_device = dev, s_value = val, z_score = Fin 0,
                is_anomaly = False, baseline_mean = 0, baseline_std = 0\<rparr>
          else let z = (if b_std b = 0 then (if val = b_mean b then Fin 0 else Pos_Inf)
                        else Fin (\<bar>val - b_mean b\<bar> / b_std b))
               in \<lparr>s_metric = metric, s_device = dev, s_value = val, z_score = z,
                   is_anomaly = (Fin (z_threshold a) \<le> z), baseline_mean = b_mean b,
                   baseline_std = b_std b\<rparr>
      | None \<Rightarrow> \<lparr>s_metric = metric, s_device = dev, s_value = val, z_score = Fin 0,
                 is_anomaly = False, baseline_mean = 0, baseline_std = 0\<rparr>)"

definition get_baseline :: "anomaly_baseline \<Rightarrow> string \<Rightarrow> string \<Rightarrow> baseline option" where
  "get_baseline a dev metric = map_of (baselines a) (baseline_key dev metric)"

definition list_baselines :: "anomaly_baseline \<Rightarrow> baseline list" where
  "list_baselines a = map snd (baselines a)"

subsection \<open>Lemmas\<close>

lemma learned_baseline:
  assumes "learn_baseline (Some points) a dev metric now = Inr (Some b, a1)"
  shows "\<exists>rows. points metric dev (now - window_hours a * 3600) now 10000 = Inr rows \<and>
    map snd rows \<noteq> [] \<and> min_samples a \<le> int (length rows) \<and>
    b = \<lparr>b_metric = metric, b_device = dev, b_mean = mean (map snd rows),
         b_std = std_dev (map snd rows), sample_count = int (length rows), last_updated = now\<rparr> \<and>
    a1 = a\<lparr>baselines := AList.update (baseline_key dev metric) b (baselines a)\<rparr>"
  using assms by (auto simp: learn_baseline_def Let_def std_dev_def split: sum.splits if_splits)

lemma score_learned:
  assumes "map_of (baselines a) (baseline_key dev metric) = Some b" and "min_samples a \<le> sample_count b"
  shows "is_anomaly (score a dev metric x) \<longleftrightarrow>
    (if b_std b = 0 then (x \<noteq> b_mean b \<or> z_threshold a \<le> 0)
     else z_threshold a \<le> \<bar>x - b_mean b\<bar> / b_std b)"
  using assms by (simp add: score_def Let_def)

text \<open>Inside the interface of the store: what is learned comes from the window, and no more than 10000 points.\<close>

context timeseries_source
begin

lemma learned_from_window:
  assumes "learn_baseline (Some points) a dev metric now = Inr (Some b, a1)"
    and "0 < now - window_hours a * 3600" and "0 < now"
  shows "sample_count b \<le> 10000 \<and>
    (\<exists>rows. points metric dev (now - window_hours a * 3600) now 10000 = Inr rows \<and>
      (\<forall>p \<in> set rows. now - window_hours a * 3600 \<le> fst p \<and> fst p \<le> now))"
proof -
  obtain rows where r: "points metric dev (now - window_hours a * 3600) now 10000 = Inr rows"
    and "b = \<lparr>b_metric = metric, b_device = dev, b_mean = mean (map snd rows),
         b_std = std_dev (map snd rows), sample_count = int (length rows), last_updated = now\<rparr>"
    using learned_baseline [OF assms(1)] by blast
  with points_limit [OF r] points_window [OF r assms(2,3)] show ?thesis by auto
qed

end

subsection \<open>Properties\<close>

text \<open>
  Claim C35. The baseline separates its own samples well: after learning, at most
  \<open>n / threshold\<^sup>2\<close> of the \<open>n\<close> values it was learned from are scored as anomalies, whatever
  their distribution; when all samples are equal, exactly the other values are anomalies.
\<close>

theorem baseline_few_false_alarms:
  assumes l: "learn_baseline (Some points) a dev metric now = Inr (Some b, a1)"
    and r: "points metric dev (now - window_hours a * 3600) now 10000 = Inr rows"
    and "0 < z_threshold a"
  shows "real (length (filter (\<lambda>v. is_anomaly (score a1 dev metric v)) (map snd rows))) *
      (z_threshold a)\<^sup>2 \<le> real (length rows) \<and>
    ((\<forall>v \<in> set (map snd rows). v = c) \<longrightarrow> (\<forall>v. is_anomaly (score a1 dev metric v) \<longleftrightarrow> v \<noteq> c))"
proof -
  let ?vs = "map snd rows"
  have b: "?vs \<noteq> []" "min_samples a \<le> int (length rows)" "b_mean b = mean ?vs"
    "b_std b = std_dev ?vs" "sample_count b = int (length rows)"
    and a1: "a1 = a\<lparr>baselines := AList.update (baseline_key dev metric) b (baselines a)\<rparr>"
    using learned_baseline [OF l] r by auto
  have s: "is_anomaly (score a1 dev metric v) \<longleftrightarrow>
      (if std_dev ?vs = 0 then v \<noteq> mean ?vs else z_threshold a \<le> \<bar>v - mean ?vs\<bar> / std_dev ?vs)" for v
    using score_learned [of a1 dev metric b v] b assms(3) by (simp add: a1)
  have "real (length (filter (\<lambda>v. is_anomaly (score a1 dev metric v)) ?vs)) *
      (z_threshold a)\<^sup>2 \<le> real (length ?vs)"
  proof (cases "std_dev ?vs = 0")
    case True
    then have "\<forall>v \<in> set ?vs. v = mean ?vs" using std_dev_zero_iff [OF b(1)] by blast
    then have "filter (\<lambda>v. v \<noteq> mean ?vs) ?vs = []" by (auto simp: filter_empty_conv)
    then show ?thesis by (simp only: s True if_True) simp
  next
    case False
    then have "0 < std_dev ?vs" using std_dev_nonneg [of ?vs] by linarith
    from chebyshev [OF assms(3) this] show ?thesis by (simp only: s False if_False)
  qed
  moreover have "is_anomaly (score a1 dev metric v) \<longleftrightarrow> v \<noteq> c" if "\<forall>v \<in> set ?vs. v = c" for v
  proof -
    have "mean ?vs = c" using mean_const [OF b(1)] that by blast
    moreover have "std_dev ?vs = 0" using std_dev_zero_iff [OF b(1)] that calculation by blast
    ultimately show ?thesis by (simp only: s) simp
  qed
  ultimately show ?thesis by simp
qed

theorem baseline_few_false_alarms_witness:
  "\<exists>b a1. learn_baseline (Some (\<lambda>_ _ _ _ _. Inr [(1, 5), (2, 5)])) (new_anomaly_baseline 1 3 2)
      ''d'' ''m'' 9 = Inr (Some b, a1) \<and>
    is_anomaly (score a1 ''d'' ''m'' 6) \<and> \<not> is_anomaly (score a1 ''d'' ''m'' 5)"
proof -
  obtain b a1 where l: "learn_baseline (Some (\<lambda>_ _ _ _ _. Inr [(1, 5), (2, 5)]))
      (new_anomaly_baseline 1 3 2) ''d'' ''m'' 9 = Inr (Some b, a1)"
    by (simp add: learn_baseline_def new_anomaly_baseline_def Let_def)
  show ?thesis
    using baseline_few_false_alarms [OF l refl, where c = 5] l
    by (simp add: new_anomaly_baseline_def)
qed

text \<open>
  The key of a baseline joins device and metric with a colon, so it does not tell
  apart pairs whose names contain one: a baseline learned for one pair is used to score the
  other.
\<close>

theorem baseline_keys_collide:
  assumes "learn_baseline st a (d @ '':'' @ e) m now = Inr (Some b, a1)"
  shows "get_baseline a1 d (e @ '':'' @ m) = Some b \<and>
    (\<forall>x. z_score (score a1 d (e @ '':'' @ m) x) = z_score (score a1 (d @ '':'' @ e) m x))"
proof -
  have k: "baseline_key (d @ '':'' @ e) m = baseline_key d (e @ '':'' @ m)"
    by (simp add: baseline_key_def)
  have m: "map_of (baselines a1) (baseline_key (d @ '':'' @ e) m) = Some b"
    using assms by (auto simp: learn_baseline_def Let_def split: sum.splits if_splits option.splits)
  then have m1: "map_of (baselines a1) (baseline_key d (e @ '':'' @ m)) = Some b" by (simp only: k)
  show ?thesis unfolding get_baseline_def score_def m m1 by (simp add: Let_def)
qed

theorem baseline_keys_collide_witness:
  "\<exists>b a1. learn_baseline (Some (\<lambda>_ _ _ _ _. Inr [(1, 5), (2, 5)])) (new_anomaly_baseline 1 3 2)
      ''cam:a'' ''m'' 9 = Inr (Some b, a1) \<and> get_baseline a1 ''cam'' ''a:m'' = Some b"
proof -
  obtain b a1 where l: "learn_baseline (Some (\<lambda>_ _ _ _ _. Inr [(1, 5), (2, 5)]))
      (new_anomaly_baseline 1 3 2) (''cam'' @ '':'' @ ''a'') ''m'' 9 = Inr (Some b, a1)"
    by (simp add: learn_baseline_def new_anomaly_baseline_def Let_def)
  show ?thesis using baseline_keys_collide [OF l] l by auto
qed

end
