(* ===== verification/Prompts.thy ===== *)
theory Prompts
  imports Detection_Store Py_Text
begin

text \<open>
  The prompt generator, \<open>inference/prompt_generator.py\<close>. A template is the list of its pieces,
  literal words and replacement fields with their format; \<open>str.format\<close> raises a \<open>KeyError\<close>
  for a field without a value, and the code then falls back to the scene template.
\<close>

subsection \<open>Templates\<close>

datatype field_format = Plain | Fixed nat | Percent nat

datatype piece = Words string | Slot string field_format

definition templates :: "(string \<times> piece list) list" where
  "templates =
     [
      (''scene_analysis'',
       [Words ''Analyze the following scene. Detected objects: '',
        Slot ''detections'' Plain,
        Words ''. Describe what is happening and identify any potential safety concerns.'']),
      (''person_behavior'',
       [Words ''A person was detected at coordinates ('',
        Slot ''x_min'' (Fixed 2),
        Words '', '',
        Slot ''y_min'' (Fixed 2),
        Words '') to ('',
        Slot ''x_max'' (Fixed 2),
        Words '', '',
        Slot ''y_max'' (Fixed 2),
        Words '') in the frame with confidence '',
        Slot ''confidence'' (Percent 1),
        Words (''. Describe the person'' @ [apostrophe] @ ''s likely activity and assess if there are any safety ''),
        Words ''hazards in the area.'']),
      (''anomaly_detection'',
       [Words ''The following objects were detected in a monitored area: '',
        Slot ''detections'' Plain,
        Words ''. Normal objects for this area include: '',
        Slot ''normal_objects'' Plain,
        Words ''. Identify any anomalies or unusual patterns.'']),
      (''multi_object'',
       [Words (''Multiple objects detected:'' @ [newline]),
        Slot ''detection_list'' Plain,
        Words ([newline] @ [newline] @ ''Analyze the spatial relationships between these objects and describe the ''),
        Words ''overall scene context.'']),
      (''reasoning_observe'',
       [Words ''Observe this scene carefully. Detected objects: '',
        Slot ''detections'' Plain,
        Words (''. Describe exactly what you see '' @ em_dash @ '' objects, positions, actions, and ''),
        Words ''environmental context. Be factual and specific.'']),
      (''reasoning_reason'',
       [Words (''Based on this observation: '' @ [quote]),
        Slot ''previous_context'' Plain,
        Words ([quote] @ [newline] @ ''Now reason about what is happening. What activities are taking place? Are ''),
        Words ''there any safety concerns, unusual patterns, or noteworthy interactions? '',
        Words ''Explain your reasoning step by step.'']),
      (''reasoning_verify'',
       [Words (''Based on this analysis: '' @ [quote]),
        Slot ''previous_context'' Plain,
        Words ([quote] @ [newline] @ ''Verify your conclusions. Rate confidence (high/medium/low). Identify what ''),
        Words ''could be wrong with the analysis. Provide a final concise assessment with '',
        Words ''actionable recommendations.'']),
      (''rag_scene_analysis'',
       [Words ''Analyze the following scene. Detected objects: '',
        Slot ''detections'' Plain,
        Words (''.'' @ [newline] @ [newline] @ ''Historical context from this location:'' @ [newline]),
        Slot ''rag_context'' Plain,
        Words ([newline] @ [newline] @ ''Considering both the current scene and historical patterns, describe what ''),
        Words ''is happening and identify any concerns.'']),
      (''edge_config_suggestion'',
       [Words (''Based on this analysis: '' @ [quote]),
        Slot ''previous_context'' Plain,
        Words ([quote] @ [newline] @ ''Detected objects: ''),
        Slot ''detections'' Plain,
        Words (''.'' @ [newline] @ ''Suggest optimal edge device configuration adjustments:'' @ [newline] @ ''1. Detection region ''),
        Words (''of interest (ROI) as normalized coordinates'' @ [newline] @ ''2. Confidence threshold ''),
        Words (''adjustment'' @ [newline] @ ''3. Frame rate recommendation'' @ [newline] @ ''Respond in JSON format with keys: ''),
        Words ''roi, threshold, fps_recommendation.''])
     ]"

definition scene_analysis :: "piece list" where
  "scene_analysis = the (map_of templates ''scene_analysis'')"

subsection \<open>Formatting\<close>

datatype field_value = V_Str string | V_Num pyfloat

fun format_float :: "nat \<Rightarrow> pyfloat \<Rightarrow> string" where
  "format_float n (Fin x) = fmt_fixed n x"
| "format_float n Pos_Inf = ''inf''"
| "format_float n Neg_Inf = ''-inf''"
| "format_float n Nan = ''nan''"

definition format_percent :: "nat \<Rightarrow> pyfloat \<Rightarrow> string" where
  "format_percent n x = format_float n (x * Fin 100) @ ''%''"

text \<open>
  A text under a float format is a \<open>ValueError\<close>. No template puts a number under the plain
  format (\<open>plain_fields_are_text\<close>), so the last equation is never used.
\<close>

fun format_value :: "field_format \<Rightarrow> field_value \<Rightarrow> exn + string" where
  "format_value Plain (V_Str s) = Inr s"
| "format_value (Fixed n) (V_Num x) = Inr (format_float n x)"
| "format_value (Percent n) (V_Num x) = Inr (format_percent n x)"
| "format_value (Fixed n) (V_Str s) = Inl (Value_Error ''Unknown format code f'')"
| "format_value (Percent n) (V_Str s) = Inl (Value_Error ''Unknown format code %'')"
| "format_value Plain (V_Num x) = Inl (Value_Error ''number in a plain field'')"

fun format_pieces :: "(string \<Rightarrow> field_value option) \<Rightarrow> piece list \<Rightarrow> exn + string" where
  "format_pieces vars [] = Inr ''''"
| "format_pieces vars (Words w # ps) =
     (case format_pieces vars ps of Inl e \<Rightarrow> Inl e | Inr s \<Rightarrow> Inr (w @ s))"
| "format_pieces vars (Slot f fmt # ps) =
     (case vars f of
        None \<Rightarrow> Inl (Key_Error f)
      | Some v \<Rightarrow> (case format_value fmt v of
            Inl e \<Rightarrow> Inl e
          | Inr t \<Rightarrow> (case format_pieces vars ps of Inl e \<Rightarrow> Inl e | Inr s \<Rightarrow> Inr (t @ s))))"

definition detection_text :: "detection \<Rightarrow> string" where
  "detection_text d = class_name d @ '' (conf='' @ format_percent 1 (confidence d) @ '', bbox=['' @
     format_float 2 (x_min d) @ '','' @ format_float 2 (y_min d) @ '','' @
     format_float 2 (x_max d) @ '','' @ format_float 2 (y_max d) @ ''])''"

text \<open>
  The variables: those of the detection list, overridden by the caller's, overridden by the
  coordinates of the first detection.
\<close>

definition template_vars ::
    "detection list \<Rightarrow> (string \<times> string) list \<Rightarrow> string \<Rightarrow> field_value option" where
  "template_vars dets kwargs name =
     (let base = [(''detections'', join ''; '' (map detection_text dets)),
                  (''detection_list'', join [newline] (map (\<lambda>d. ''- '' @ detection_text d) dets))];
          coords = (case dets of [] \<Rightarrow> [] | d # _ \<Rightarrow>
            [(''x_min'', x_min d), (''y_min'', y_min d), (''x_max'', x_max d), (''y_max'', y_max d),
             (''confidence'', confidence d)])
      in case map_of coords name of
          Some x \<Rightarrow> Some (V_Num x)
        | None \<Rightarrow> (case map_of kwargs name of
              Some s \<Rightarrow> Some (V_Str s)
            | None \<Rightarrow> map_option V_Str (map_of base name)))"

definition generate ::
    "string \<Rightarrow> detection list \<Rightarrow> string option \<Rightarrow> (string \<times> string) list \<Rightarrow> exn + string" where
  "generate default_template dets template kwargs =
     (let name = (case template of None \<Rightarrow> default_template | Some t \<Rightarrow> t);
          t = (case map_of templates name of None \<Rightarrow> scene_analysis | Some t \<Rightarrow> t)
      in case format_pieces (template_vars dets kwargs) t of
          Inl (Key_Error _) \<Rightarrow>
            format_pieces (\<lambda>f. if f = ''detections''
              then Some (V_Str (join ''; '' (map detection_text dets))) else None) scene_analysis
        | r \<Rightarrow> r)"

definition available_templates :: "string list" where
  "available_templates = map fst templates"

subsection \<open>Lemmas\<close>

definition field_names :: "piece list \<Rightarrow> (string \<times> field_format) list" where
  "field_names ps = concat (map (\<lambda>p. case p of Words _ \<Rightarrow> [] | Slot f fmt \<Rightarrow> [(f, fmt)]) ps)"

definition number_fields :: "string list" where
  "number_fields = [''x_min'', ''y_min'', ''x_max'', ''y_max'', ''confidence'']"

lemma template_fields:
  "\<forall>(n, t) \<in> set templates. \<forall>(f, fmt) \<in> set (field_names t). (fmt = Plain) \<longleftrightarrow> f \<notin> set number_fields"
  by (simp add: templates_def field_names_def number_fields_def)

lemma plain_fields_are_text:
  "f \<notin> set number_fields \<Longrightarrow> template_vars dets kwargs f = Some v \<Longrightarrow> \<exists>s. v = V_Str s"
  by (auto simp: template_vars_def number_fields_def Let_def split: option.splits list.splits if_splits)

lemma number_fields_are_numbers:
  assumes "f \<in> set number_fields" and "\<forall>(k, _) \<in> set kwargs. k \<notin> set number_fields"
    and "template_vars dets kwargs f = Some v"
  shows "\<exists>x. v = V_Num x"
proof -
  have "map_of kwargs f = None" using assms(1,2) by (auto simp: map_of_eq_None_iff)
  then show ?thesis
    using assms(1,3) by (auto simp: template_vars_def number_fields_def Let_def split: list.splits)
qed

lemma format_pieces_result:
  assumes "\<forall>(f, fmt) \<in> set (field_names ps). \<forall>v. vars f = Some v \<longrightarrow> (\<exists>t. format_value fmt v = Inr t)"
  shows "(\<exists>s. format_pieces vars ps = Inr s) \<or>
    (\<exists>f. format_pieces vars ps = Inl (Key_Error f) \<and> vars f = None \<and> f \<in> fst ` set (field_names ps))"
  using assms
proof (induction ps)
  case (Cons p ps)
  have IH: "(\<exists>s. format_pieces vars ps = Inr s) \<or>
      (\<exists>f. format_pieces vars ps = Inl (Key_Error f) \<and> vars f = None \<and> f \<in> fst ` set (field_names ps))"
    using Cons.prems by (intro Cons.IH) (auto simp: field_names_def)
  show ?case
  proof (cases p)
    case (Words w)
    then have n: "field_names (p # ps) = field_names ps" by (simp add: field_names_def)
    from IH show ?thesis unfolding n by (elim disjE exE conjE) (simp_all add: Words)
  next
    case (Slot f fmt)
    then have n: "field_names (p # ps) = (f, fmt) # field_names ps" by (simp add: field_names_def)
    show ?thesis
    proof (cases "vars f")
      case None
      then show ?thesis unfolding n by (simp add: Slot)
    next
      case (Some v)
      then obtain t where "format_value fmt v = Inr t" using Cons.prems n by fastforce
      with Some IH show ?thesis unfolding n by (elim disjE exE conjE) (simp_all add: Slot)
    qed
  qed
qed simp

lemma template_in: "map_of templates name = Some t \<Longrightarrow> (name, t) \<in> set templates"
  by (rule map_of_SomeD)

lemma scene_analysis_eq: "map_of templates ''scene_analysis'' = Some scene_analysis"
  by (simp add: scene_analysis_def templates_def)

lemma scene_fields: "field_names scene_analysis = [(''detections'', Plain)]"
  by (simp add: scene_analysis_def templates_def field_names_def)

lemma formats_fit:
  assumes "(n, t) \<in> set templates" and "\<forall>(k, _) \<in> set kwargs. k \<notin> set number_fields"
  shows "\<forall>(f, fmt) \<in> set (field_names t). \<forall>v. template_vars dets kwargs f = Some v \<longrightarrow>
    (\<exists>s. format_value fmt v = Inr s)"
proof clarify
  fix f fmt v assume f: "(f, fmt) \<in> set (field_names t)" and v: "template_vars dets kwargs f = Some v"
  have iff: "fmt = Plain \<longleftrightarrow> f \<notin> set number_fields" using template_fields assms(1) f by fastforce
  show "\<exists>s. format_value fmt v = Inr s"
  proof (cases fmt)
    case Plain
    then show ?thesis using plain_fields_are_text [OF _ v] iff by auto
  next
    case (Fixed k)
    then show ?thesis using number_fields_are_numbers [OF _ assms(2) v] iff by auto
  next
    case (Percent k)
    then show ?thesis using number_fields_are_numbers [OF _ assms(2) v] iff by auto
  qed
qed

lemma generate_total:
  assumes "\<forall>(k, _) \<in> set kwargs. k \<notin> set number_fields"
  shows "\<exists>s. generate d dets (Some name) kwargs = Inr s"
proof -
  obtain t n where t: "t = (case map_of templates name of None \<Rightarrow> scene_analysis | Some t \<Rightarrow> t)"
    "(n, t) \<in> set templates"
    using template_in [of name] template_in [OF scene_analysis_eq] by (cases "map_of templates name") auto
  have fallback: "\<exists>s. format_pieces (\<lambda>f. if f = ''detections''
      then Some (V_Str (join ''; '' (map detection_text dets))) else None) scene_analysis = Inr s"
    by (simp add: scene_analysis_def templates_def)
  from format_pieces_result [OF formats_fit [OF t(2) assms], of dets] fallback
  show ?thesis by (auto simp: generate_def Let_def t(1) [symmetric])
qed

subsection \<open>Properties\<close>

text \<open>
  A prompt is always produced: whatever the template's name and the detections, when
  the caller's variables do not hide the numeric fields \<open>generate\<close> returns a text; an unknown
  name is the scene template, and so is every template with a field that has no value.
\<close>

theorem prompt_always_generated:
  assumes "\<forall>(k, _) \<in> set kwargs. k \<notin> set number_fields"
  shows "\<exists>s. generate d dets (Some name) kwargs = Inr s \<and>
    (map_of templates name = None \<longrightarrow> generate d dets (Some name) kwargs =
       generate d dets (Some ''scene_analysis'') kwargs)"
  using generate_total [OF assms] by (auto simp: generate_def scene_analysis_eq)

theorem prompt_always_generated_witness:
  "\<exists>s. generate ''scene_analysis'' [] (Some ''person_behavior'') [] = Inr s"
  using prompt_always_generated [of "[]" "''scene_analysis''" "[]" "''person_behavior''"] by auto

end
