(* ===== verification/Detection_Processor.thy ===== *)
theory Detection_Processor
  imports Event_Bus Behavior Anomaly Prompts
begin

text \<open>
  The processing of one detection message, \<open>pipeline/detection_processor.py\<close>: rule matching,
  the VLM request with its bounded queue, behaviour analysis, anomaly scoring, and publication.
  The clock is read once (\<open>now\<close>); \<open>db\<close> gives the database's answers to the writes of each
  publication in turn. Prometheus counters and tracing spans are left out.
\<close>

subsection \<open>Data\<close>

record vlm_rule =
  rule_class :: string
  rule_min_confidence :: real
  prompt_template :: string

definition default_rule :: vlm_rule where
  "default_rule = \<lparr>rule_class = ''person'', rule_min_confidence = 8 / 10,
     prompt_template = ''person_behavior''\<rparr>"

text \<open>A message \<open>DetectionResult\<close> of the protocol; the frame is a byte string.\<close>

record detection_result =
  frame_id :: int
  boxes :: "detection list"
  frame_data :: string
  trace_id :: string
  device_id :: string

record vlm_item =
  item_frame_data :: string
  item_prompt :: string
  item_frame_id :: int
  item_trace_id :: string
  item_device_id :: string
  item_detections :: "detection list"
  item_rule :: string

text \<open>The queue with its maximal size and the count of unfinished tasks that \<open>join\<close> waits for.\<close>

record vlm_queue =
  q_items :: "vlm_item list"
  q_max :: nat
  unfinished :: int

definition new_vlm_queue :: "nat \<Rightarrow> vlm_queue" where
  "new_vlm_queue n = \<lparr>q_items = [], q_max = n, unfinished = 0\<rparr>"

definition queue_full :: "vlm_queue \<Rightarrow> bool" where
  "queue_full q \<longleftrightarrow> 0 < q_max q \<and> q_max q \<le> length (q_items q)"

definition enqueue :: "vlm_queue \<Rightarrow> vlm_item \<Rightarrow> vlm_queue" where
  "enqueue q it = q\<lparr>q_items := q_items q @ [it], unfinished := unfinished q + 1\<rparr>"

record processor =
  vlm_rules :: "vlm_rule list"
  behavior :: "analyzer option"
  anomaly :: "anomaly_baseline option"
  has_alerts :: bool
  has_engine :: bool
  event_count :: nat
  shutting_down :: bool

definition new_processor :: "vlm_rule list \<Rightarrow> analyzer option \<Rightarrow> anomaly_baseline option \<Rightarrow> bool \<Rightarrow> processor" where
  "new_processor rs b a alerts = \<lparr>vlm_rules = rs, behavior = b, anomaly = a, has_alerts = alerts,
     has_engine = False, event_count = 0, shutting_down = False\<rparr>"

definition set_vlm_rules :: "processor \<Rightarrow> vlm_rule list \<Rightarrow> processor" where
  "set_vlm_rules p rs = p\<lparr>vlm_rules := rs\<rparr>"

subsection \<open>Processing\<close>

definition match_vlm_rule :: "vlm_rule list \<Rightarrow> detection list \<Rightarrow> vlm_rule option" where
  "match_vlm_rule rs dets =
     List.find (\<lambda>r. \<exists>d \<in> set dets. class_name d = rule_class r \<and>
                      Fin (rule_min_confidence r) < confidence d) rs"

text \<open>The request to the VLM: the new queue, and the alerts whose tasks are started.\<close>

definition request_vlm ::
    "processor \<Rightarrow> vlm_queue \<Rightarrow> detection_result \<Rightarrow> exn + (vlm_queue \<times> string list)" where
  "request_vlm p q res =
     (case match_vlm_rule (vlm_rules p) (boxes res) of
        None \<Rightarrow> Inr (q, [])
      | Some rule \<Rightarrow>
          if \<not> has_engine p \<or> frame_data res = '''' then Inr (q, [])
          else case generate ''scene_analysis'' (boxes res) (Some (prompt_template rule)) [] of
              Inl e \<Rightarrow> Inl e
            | Inr prompt \<Rightarrow>
                if shutting_down p then Inr (q, [])
                else if queue_full q
                then Inr (q, if has_alerts p then [''vlm_queue_full''] else [])
                else Inr (enqueue q \<lparr>item_frame_data = frame_data res, item_prompt = prompt,
                       item_frame_id = frame_id res, item_trace_id = trace_id res,
                       item_device_id = device_id res, item_detections = boxes res,
                       item_rule = rule_class rule\<rparr>, []))"

definition behavior_alert :: "string \<Rightarrow> behavior_event \<Rightarrow> event" where
  "behavior_alert dev be = \<lparr>ev_type = Some ''behavior_alert'', ev_timestamp = Some (be_timestamp be),
     ev_frame_id = None, ev_trace_id = None, ev_device_id = Some dev, ev_detections = None,
     ev_vlm_result = None, ev_rule = None,
     ev_extra = [(''behavior_type'', Text (behavior_value (behavior_type be))),
       (''confidence'', Number (Fin (be_confidence be))), (''description'', Text (be_description be))]\<rparr>"

definition anomaly_alert :: "string \<Rightarrow> anomaly_score \<Rightarrow> real \<Rightarrow> event" where
  "anomaly_alert dev s now = \<lparr>ev_type = Some ''anomaly_alert'', ev_timestamp = Some now,
     ev_frame_id = None, ev_trace_id = None, ev_device_id = Some dev, ev_detections = None,
     ev_vlm_result = None, ev_rule = None,
     ev_extra = [(''metric_name'', Text ''detections_count''), (''value'', Number (Fin (s_value s))),
       (''z_score'', Number (z_score s)), (''baseline_mean'', Number (Fin (baseline_mean s)))]\<rparr>"

definition detection_event :: "detection_result \<Rightarrow> real \<Rightarrow> event" where
  "detection_event res now = \<lparr>ev_type = Some ''detection'', ev_timestamp = Some now,
     ev_frame_id = Some (frame_id res), ev_trace_id = Some (trace_id res),
     ev_device_id = Some (device_id res), ev_detections = Some (boxes res), ev_vlm_result = None,
     ev_rule = None, ev_extra = []\<rparr>"

text \<open>
  The events published for one message, in order. The analyser reads the store before the first
  of them is published, and its exceptions are caught.
\<close>

definition message_alerts ::
    "event_query option \<Rightarrow> processor \<Rightarrow> detection_result \<Rightarrow> real \<Rightarrow> event list" where
  "message_alerts st p res now =
     (case behavior p of
        Some a \<Rightarrow> if boxes res = [] then []
          else (case analyze st a (device_id res) (boxes res) now now of
                  Inl _ \<Rightarrow> []
                | Inr bs \<Rightarrow> map (behavior_alert (device_id res)) bs)
      | None \<Rightarrow> []) @
     (case anomaly p of
        Some a \<Rightarrow> if boxes res = [] then []
          else let s = score a (device_id res) ''detections_count'' (real (length (boxes res)))
               in if is_anomaly s then [anomaly_alert (device_id res) s now] else []
      | None \<Rightarrow> [])"

definition message_events ::
    "event_query option \<Rightarrow> processor \<Rightarrow> detection_result \<Rightarrow> real \<Rightarrow> event list" where
  "message_events st p res now = message_alerts st p res now @ [detection_event res now]"

fun publish_all ::
    "event_bus \<Rightarrow> (nat \<Rightarrow> (nat \<Rightarrow> db_attempt) \<times> (nat \<Rightarrow> db_attempt)) \<Rightarrow> nat \<Rightarrow> event list \<Rightarrow> real
       \<Rightarrow> event_bus" where
  "publish_all b db i [] now = b"
| "publish_all b db i (ev # evs) now =
     publish_all (publish b (fst (db i)) (snd (db i)) ev now) db (Suc i) evs now"

record processed =
  proc_after :: processor
  queue_after :: vlm_queue
  bus_after :: event_bus
  alert_tasks :: "string list"

definition process ::
    "event_query option \<Rightarrow> (nat \<Rightarrow> (nat \<Rightarrow> db_attempt) \<times> (nat \<Rightarrow> db_attempt)) \<Rightarrow> processor
       \<Rightarrow> vlm_queue \<Rightarrow> event_bus \<Rightarrow> detection_result \<Rightarrow> real \<Rightarrow> exn + processed" where
  "process st db p q b res now =
     (let p1 = p\<lparr>event_count := Suc (event_count p)\<rparr>
      in case request_vlm p1 q res of
          Inl e \<Rightarrow> Inl e
        | Inr (q1, alerts) \<Rightarrow>
            Inr \<lparr>proc_after = p1, queue_after = q1,
                 bus_after = publish_all b db 0 (message_events st p1 res now) now,
                 alert_tasks = alerts\<rparr>)"

subsection \<open>Lemmas\<close>

lemma publish_all_recent:
  "recent_events (publish_all b db i evs now) = foldl (deque_append (max_len b)) (recent_events b) evs \<and>
   max_len (publish_all b db i evs now) = max_len b"
  by (induction evs arbitrary: b i) auto

lemma last_foldl_deque:
  "0 < n \<Longrightarrow> evs \<noteq> [] \<Longrightarrow> last (foldl (deque_append n) xs evs) = last evs"
  by (induction evs arbitrary: xs rule: rev_induct) (simp_all add: deque_append_def)

lemma match_vlm_rule_Some:
  "match_vlm_rule rs dets = Some r \<Longrightarrow> r \<in> set rs \<and>
   (\<exists>d \<in> set dets. class_name d = rule_class r \<and> Fin (rule_min_confidence r) < confidence d)"
  by (auto simp: match_vlm_rule_def find_Some_iff)

lemma match_vlm_rule_None:
  "match_vlm_rule rs dets = None \<longleftrightarrow>
   (\<forall>r \<in> set rs. \<forall>d \<in> set dets. \<not> (class_name d = rule_class r \<and> Fin (rule_min_confidence r) < confidence d))"
  by (auto simp: match_vlm_rule_def find_None_iff)

text \<open>The queue's size stays within its bound and every queued item is unfinished.\<close>

definition queue_ok :: "vlm_queue \<Rightarrow> bool" where
  "queue_ok q \<longleftrightarrow> (0 < q_max q \<longrightarrow> length (q_items q) \<le> q_max q) \<and> int (length (q_items q)) \<le> unfinished q"

lemma enqueue_ok: "queue_ok q \<Longrightarrow> \<not> queue_full q \<Longrightarrow> queue_ok (enqueue q it)"
  by (auto simp: queue_ok_def queue_full_def enqueue_def)

lemma request_vlm_never_raises:
  "\<exists>q1 alerts. request_vlm p q res = Inr (q1, alerts)"
  using generate_total [of "[]" "''scene_analysis''" "boxes res"]
  by (auto simp: request_vlm_def Let_def split: option.splits sum.splits) (metis sum.simps(4))

lemma message_alerts_types:
  "(\<forall>e \<in> set (message_alerts st p res now). ev_type e \<in> {Some ''behavior_alert'', Some ''anomaly_alert''}) \<and>
   (boxes res = [] \<longrightarrow> message_alerts st p res now = [])"
  by (auto simp: message_alerts_def Let_def behavior_alert_def anomaly_alert_def
      split: option.splits sum.splits if_splits)

subsection \<open>Properties\<close>

text \<open>
  Claim C18. Every message is processed without an exception and counted; whatever the database
  and the analysis do, the last event published for it is its detection event, and the alerts
  come before it.
\<close>

theorem message_always_published:
  assumes "0 < max_len b"
  shows "\<exists>r. process st db p q b res now = Inr r \<and>
    event_count (proc_after r) = Suc (event_count p) \<and>
    last (recent_events (bus_after r)) = detection_event res now \<and>
    (\<exists>alerts. message_events st p res now = alerts @ [detection_event res now] \<and>
       (\<forall>e \<in> set alerts. ev_type e \<in> {Some ''behavior_alert'', Some ''anomaly_alert''}) \<and>
       (boxes res = [] \<longrightarrow> alerts = []))"
proof -
  let ?p = "p\<lparr>event_count := Suc (event_count p)\<rparr>"
  have alerts: "\<exists>alerts. message_events st p' res now = alerts @ [detection_event res now] \<and>
       (\<forall>e \<in> set alerts. ev_type e \<in> {Some ''behavior_alert'', Some ''anomaly_alert''}) \<and>
       (boxes res = [] \<longrightarrow> alerts = [])" for p'
    using message_alerts_types [of st p' res now] by (auto simp: message_events_def)
  obtain q1 al where "request_vlm ?p q res = Inr (q1, al)" using request_vlm_never_raises by blast
  moreover have "last (recent_events (publish_all b db 0 (message_events st ?p res now) now)) =
      detection_event res now"
    unfolding publish_all_recent [THEN conjunct1]
    by (subst last_foldl_deque [OF assms]) (simp_all add: message_events_def)
  ultimately show ?thesis using alerts [of p] by (simp add: process_def Let_def)
qed

definition sample_result :: detection_result where
  "sample_result = \<lparr>frame_id = 1, boxes = [person], frame_data = ''jpg'', trace_id = ''t'',
     device_id = ''cam''\<rparr>"

theorem message_always_published_witness:
  "\<exists>r. process None (\<lambda>_. (busy_commit, busy_commit)) (new_processor [default_rule] None None True)
     (new_vlm_queue 32) (new_event_bus None 100) sample_result 5 = Inr r \<and> event_count (proc_after r) = 1"
  using message_always_published [of "new_event_bus None 100" None "\<lambda>_. (busy_commit, busy_commit)"
      "new_processor [default_rule] None None True" "new_vlm_queue 32" sample_result 5]
  by (auto simp: new_event_bus_def new_processor_def)

text \<open>
  Claim C20. A message asks for a VLM analysis exactly when a detection matches a rule (class
  equal, confidence strictly above the rule's), it carries a frame, there is an engine, the
  server is not shutting down and the queue has room; the request names the first matching rule
  of the list. Otherwise the queue is as before, and only a full queue raises an alert.
\<close>

theorem vlm_requested_iff:
  assumes q: "request_vlm p q res = Inr (q1, alerts)"
    and wanted: "wanted \<longleftrightarrow> match_vlm_rule (vlm_rules p) (boxes res) \<noteq> None \<and> has_engine p \<and>
      frame_data res \<noteq> '''' \<and> \<not> shutting_down p"
  shows "(wanted \<and> \<not> queue_full q \<longrightarrow> (\<exists>it r. q1 = enqueue q it \<and> alerts = [] \<and>
        match_vlm_rule (vlm_rules p) (boxes res) = Some r \<and> item_rule it = rule_class r \<and>
        item_device_id it = device_id res \<and> item_frame_id it = frame_id res)) \<and>
    (\<not> (wanted \<and> \<not> queue_full q) \<longrightarrow> q1 = q) \<and>
    (alerts \<noteq> [] \<longleftrightarrow> wanted \<and> queue_full q \<and> has_alerts p) \<and>
    (match_vlm_rule (vlm_rules p) (boxes res) \<noteq> None \<longleftrightarrow> (\<exists>r \<in> set (vlm_rules p). \<exists>d \<in> set (boxes res).
       class_name d = rule_class r \<and> Fin (rule_min_confidence r) < confidence d)) \<and>
    (queue_ok q \<longrightarrow> queue_ok q1)"
proof -
  have "match_vlm_rule (vlm_rules p) (boxes res) \<noteq> None \<longleftrightarrow> (\<exists>r \<in> set (vlm_rules p). \<exists>d \<in> set (boxes res).
       class_name d = rule_class r \<and> Fin (rule_min_confidence r) < confidence d)"
    unfolding match_vlm_rule_None by blast
  moreover have "(wanted \<and> \<not> queue_full q \<longrightarrow> (\<exists>it r. q1 = enqueue q it \<and> alerts = [] \<and>
        match_vlm_rule (vlm_rules p) (boxes res) = Some r \<and> item_rule it = rule_class r \<and>
        item_device_id it = device_id res \<and> item_frame_id it = frame_id res)) \<and>
    (\<not> (wanted \<and> \<not> queue_full q) \<longrightarrow> q1 = q) \<and>
    (alerts \<noteq> [] \<longleftrightarrow> wanted \<and> queue_full q \<and> has_alerts p)"
    using q by (auto simp: request_vlm_def wanted split: option.splits sum.splits if_splits)
  moreover from this have "queue_ok q \<longrightarrow> queue_ok q1"
    using enqueue_ok [of q] by (cases "wanted \<and> \<not> queue_full q") auto
  ultimately show ?thesis by (elim conjE) (intro conjI, assumption+)
qed

theorem vlm_requested_iff_witness:
  "\<exists>q1. request_vlm ((new_processor [default_rule] None None True)\<lparr>has_engine := True\<rparr>)
     (new_vlm_queue 32) sample_result = Inr (q1, []) \<and> length (q_items q1) = 1"
proof -
  let ?p = "(new_processor [default_rule] None None True)\<lparr>has_engine := True\<rparr>"
  obtain q1 al where r: "request_vlm ?p (new_vlm_queue 32) sample_result = Inr (q1, al)"
    using request_vlm_never_raises by blast
  have "match_vlm_rule (vlm_rules ?p) (boxes sample_result) \<noteq> None"
    by (simp add: match_vlm_rule_def new_processor_def default_rule_def sample_result_def person_def
        less_pyfloat_def)
  with vlm_requested_iff [OF r refl] r show ?thesis
    by (auto simp: new_processor_def sample_result_def queue_full_def new_vlm_queue_def enqueue_def)
qed

end
