(* ===== verification/Conversation.thy ===== *)
theory Conversation
  imports Py_Text
begin

text \<open>
  Conversations and the inference engine, \<open>inference/mlx_llm_inference.py\<close>. The models of
  \<open>mlx_lm\<close> and \<open>mlx_vlm\<close> are third-party code: loading and generating are parameters, given
  by their results; the engine's own logic (stub mode, fallback from images to text, error
  wrapping, conversations per device) is modelled in full.
\<close>

subsection \<open>Conversations\<close>

record turn =
  role :: string
  content :: string

record conversation =
  max_turns :: int
  turns :: "turn list"

definition new_conversation :: "int \<Rightarrow> conversation" where
  "new_conversation n = \<lparr>max_turns = n, turns = []\<rparr>"

definition add_turn :: "conversation \<Rightarrow> string \<Rightarrow> string \<Rightarrow> conversation" where
  "add_turn c r text =
     (let h = turns c @ [\<lparr>role = r, content = text\<rparr>]
      in c\<lparr>turns := (if max_turns c * 2 < int (length h) then slice_from h (- max_turns c * 2) else h)\<rparr>)"

definition build_prompt :: "conversation \<Rightarrow> string \<Rightarrow> string" where
  "build_prompt c new =
     join [newline] (map (\<lambda>t. (if role t = ''user'' then ''User'' else ''Assistant'') @ '': '' @ content t)
       (turns c) @ [''User: '' @ new])"

definition clear :: "conversation \<Rightarrow> conversation" where
  "clear c = c\<lparr>turns := []\<rparr>"

definition turn_count :: "conversation \<Rightarrow> nat" where
  "turn_count c = length (turns c) div 2"

subsection \<open>The engine\<close>

record engine =
  engine_mode :: string
  vlm_path :: "string option"
  has_llm :: bool
  has_vlm :: bool
  use_stub :: bool
  loaded :: bool
  conversations :: "(string, conversation) pydict"

definition new_engine :: "string \<Rightarrow> string option \<Rightarrow> engine" where
  "new_engine mode vlm = \<lparr>engine_mode = mode, vlm_path = vlm, has_llm = False, has_vlm = False,
     use_stub = True, loaded = False, conversations = []\<rparr>"

text \<open>What an attempt to load a model can give: \<open>import\<close> fails, \<open>load\<close> raises, or it is loaded.\<close>

datatype load_result = Not_Installed | Load_Raises exn | Loaded

fun load_error :: "exn \<Rightarrow> bool" where
  "load_error (Os_Error _) = True"
| "load_error (Connection_Error _) = True"
| "load_error Timeout_Error = True"
| "load_error (Runtime_Error _) = True"
| "load_error (Value_Error _) = True"
| "load_error _ = False"

definition model_load_error :: "exn \<Rightarrow> exn" where
  "model_load_error e = Other_Error (''LLM load failed: '' @ exn_text e)"

definition load_model ::
    "engine \<Rightarrow> bool \<Rightarrow> load_result \<Rightarrow> bool \<Rightarrow> load_result \<Rightarrow> (exn + unit) \<times> engine" where
  "load_model e path_exists llm vlm_exists vlm =
     (if \<not> path_exists then (Inr (), e\<lparr>use_stub := True, loaded := True\<rparr>)
      else
        let load_vlm = (\<lambda>e1.
              if engine_mode e1 = ''vlm'' \<and> vlm_path e1 \<noteq> None
              then (case vlm of
                  Not_Installed \<Rightarrow> (Inr (), e1\<lparr>loaded := True\<rparr>)
                | Loaded \<Rightarrow> (Inr (), e1\<lparr>has_vlm := has_vlm e1 \<or> vlm_exists, loaded := True\<rparr>)
                | Load_Raises x \<Rightarrow>
                    if \<not> vlm_exists \<or> load_error x then (Inr (), e1\<lparr>loaded := True\<rparr>) else (Inl x, e1))
              else (Inr (), e1\<lparr>loaded := True\<rparr>))
        in case llm of
            Not_Installed \<Rightarrow> load_vlm (e\<lparr>use_stub := True\<rparr>)
          | Loaded \<Rightarrow> load_vlm (e\<lparr>has_llm := True, use_stub := False\<rparr>)
          | Load_Raises x \<Rightarrow> (if load_error x then (Inl (model_load_error x), e) else (Inl x, e)))"

definition not_loaded :: exn where
  "not_loaded = Runtime_Error ''Model not loaded. Call load_model() first.''"

fun generate_error :: "exn \<Rightarrow> bool" where
  "generate_error (Runtime_Error _) = True"
| "generate_error (Value_Error _) = True"
| "generate_error _ = False"

text \<open>\<open>llm prompt\<close> is the result of \<open>mlx_generate\<close>.\<close>

definition generate :: "engine \<Rightarrow> (string \<Rightarrow> exn + string) \<Rightarrow> string \<Rightarrow> exn + string" where
  "generate e llm prompt =
     (if \<not> loaded e then Inl not_loaded
      else if use_stub e then Inr (''[STUB] Analysis of: '' @ take 80 prompt)
      else if \<not> has_llm e then Inl not_loaded
      else case llm prompt of
          Inr s \<Rightarrow> Inr s
        | Inl x \<Rightarrow> if generate_error x then Inl (Other_Error (''LLM generation failed: '' @ exn_text x))
                   else Inl x)"

text \<open>\<open>vlm img prompt\<close> is the result of writing the image and of \<open>vlm_generate\<close>.\<close>

fun image_error :: "exn \<Rightarrow> bool" where
  "image_error (Os_Error _) = True"
| "image_error (Connection_Error _) = True"
| "image_error Timeout_Error = True"
| "image_error x = generate_error x"

definition analyze_image ::
    "engine \<Rightarrow> (string \<Rightarrow> exn + string) \<Rightarrow> ('i \<Rightarrow> string \<Rightarrow> exn + string) \<Rightarrow> 'i \<Rightarrow> string \<Rightarrow> exn + string" where
  "analyze_image e llm vlm img prompt =
     (if \<not> loaded e then Inl not_loaded
      else if use_stub e then generate e llm prompt
      else if engine_mode e = ''vlm'' \<and> has_vlm e
      then (case vlm img prompt of
          Inr s \<Rightarrow> Inr s
        | Inl x \<Rightarrow> if image_error x then generate e llm prompt else Inl x)
      else generate e llm prompt)"

text \<open>A batch item that fails is turned into a text; a cancellation ends the batch.\<close>

fun batch_loop ::
    "('i \<Rightarrow> string \<Rightarrow> exn + string) \<Rightarrow> ('i \<times> string) list \<Rightarrow> exn + string list" where
  "batch_loop analyze [] = Inr []"
| "batch_loop analyze ((img, prompt) # items) =
     (let here = (case analyze img prompt of
                    Inr s \<Rightarrow> Inr s
                  | Inl x \<Rightarrow> if is_exception x then Inr (''[ERROR] '' @ exn_text x) else Inl x)
      in case here of
          Inl x \<Rightarrow> Inl x
        | Inr s \<Rightarrow> (case batch_loop analyze items of Inl x \<Rightarrow> Inl x | Inr ss \<Rightarrow> Inr (s # ss)))"

definition batch_analyze ::
    "engine \<Rightarrow> (string \<Rightarrow> exn + string) \<Rightarrow> ('i \<Rightarrow> string \<Rightarrow> exn + string) \<Rightarrow> ('i \<times> string) list
       \<Rightarrow> exn + string list" where
  "batch_analyze e llm vlm items =
     (if \<not> loaded e then Inl not_loaded
      else if use_stub e
      then Inr (map (\<lambda>(i, (_, prompt)). ''[STUB] batch '' @ str_int (int i) @ '': '' @ take 60 prompt)
             (enumerate 0 items))
      else batch_loop (analyze_image e llm vlm) items)"

definition unload_model :: "engine \<Rightarrow> engine" where
  "unload_model e = e\<lparr>has_llm := False, has_vlm := False, loaded := False, conversations := []\<rparr>"

definition switch_vlm_model ::
    "engine \<Rightarrow> string \<Rightarrow> bool \<Rightarrow> load_result \<Rightarrow> (exn + bool) \<times> engine" where
  "switch_vlm_model e path exists_there vlm =
     (if \<not> exists_there then (Inr False, e)
      else case vlm of
          Loaded \<Rightarrow> (Inr True, e\<lparr>has_vlm := True, vlm_path := Some path\<rparr>)
        | Not_Installed \<Rightarrow> (Inr False, e)
        | Load_Raises x \<Rightarrow> (if load_error x then (Inr False, e) else (Inl x, e)))"

definition get_conversation :: "engine \<Rightarrow> string \<Rightarrow> int \<Rightarrow> conversation \<times> engine" where
  "get_conversation e dev n =
     (case map_of (conversations e) dev of
        Some c \<Rightarrow> (c, e)
      | None \<Rightarrow> let c = new_conversation n
                in (c, e\<lparr>conversations := AList.update dev c (conversations e)\<rparr>))"

text \<open>
  The object \<open>get_conversation\<close> returns is shared; adding turns to it changes the engine's.
\<close>

definition set_conversation :: "engine \<Rightarrow> string \<Rightarrow> conversation \<Rightarrow> engine" where
  "set_conversation e dev c = e\<lparr>conversations := AList.update dev c (conversations e)\<rparr>"

definition clear_conversation :: "engine \<Rightarrow> string \<Rightarrow> engine" where
  "clear_conversation e dev =
     (case map_of (conversations e) dev of
        None \<Rightarrow> e
      | Some c \<Rightarrow> set_conversation e dev (clear c))"

subsection \<open>Lemmas\<close>

definition add_turns :: "conversation \<Rightarrow> (string \<times> string) list \<Rightarrow> conversation" where
  "add_turns c ts = foldl (\<lambda>d (r, t). add_turn d r t) c ts"

lemma max_turns_add [simp]: "max_turns (add_turn c r t) = max_turns c"
  by (simp add: add_turn_def Let_def)

lemma turns_add_turn:
  assumes "0 < max_turns c" and "int (length (turns c)) \<le> 2 * max_turns c"
  shows "turns (add_turn c r t) =
    drop (Suc (length (turns c)) - nat (2 * max_turns c)) (turns c @ [\<lparr>role = r, content = t\<rparr>])"
  using assms by (auto simp: add_turn_def Let_def slice_from_def mult.commute)

lemma add_turns_last:
  assumes "0 < n"
  shows "max_turns (add_turns (new_conversation n) ts) = n \<and>
    turns (add_turns (new_conversation n) ts) =
      drop (length ts - nat (2 * n)) (map (\<lambda>(r, t). \<lparr>role = r, content = t\<rparr>) ts)"
proof (induction ts rule: rev_induct)
  case Nil
  then show ?case by (simp add: add_turns_def new_conversation_def)
next
  case (snoc x ts)
  obtain r t where x: "x = (r, t)" by (cases x)
  let ?c = "add_turns (new_conversation n) ts"
  let ?h = "map (\<lambda>(r, t). \<lparr>role = r, content = t\<rparr>) ts"
  have c: "add_turns (new_conversation n) (ts @ [x]) = add_turn ?c r t"
    by (simp add: add_turns_def x)
  have len: "length (turns ?c) = length ts - (length ts - nat (2 * n))" using snoc.IH by simp
  have "turns (add_turn ?c r t) =
      drop (Suc (length (turns ?c)) - nat (2 * n)) (turns ?c @ [\<lparr>role = r, content = t\<rparr>])"
    using snoc.IH assms len by (subst turns_add_turn) auto
  also have "\<dots> = drop (Suc (length ts) - nat (2 * n)) (?h @ [\<lparr>role = r, content = t\<rparr>])"
    using snoc.IH assms by (cases "nat (2 * n) \<le> length ts") (auto simp: Suc_diff_le drop_Suc tl_drop)
  finally show ?case using snoc.IH unfolding c by (simp add: x)
qed

lemma zero_turns_unbounded:
  "turns (add_turns (new_conversation 0) ts) = map (\<lambda>(r, t). \<lparr>role = r, content = t\<rparr>) ts \<and>
   max_turns (add_turns (new_conversation 0) ts) = 0"
  by (induction ts rule: rev_induct)
    (auto simp: add_turns_def new_conversation_def add_turn_def Let_def slice_from_def)

lemma batch_loop_length: "batch_loop analyze items = Inr rs \<Longrightarrow> length rs = length items"
  by (induction items arbitrary: rs rule: batch_loop.induct) (auto simp: Let_def split: sum.splits if_splits)

subsection \<open>Properties\<close>

text \<open>
  A conversation remembers exactly its last \<open>2 * max_turns\<close> turns in order, for a
  positive \<open>max_turns\<close>; for \<open>max_turns = 0\<close> it forgets nothing, because the slice
  \<open>[-0:]\<close> is the whole list. The prompt built from it always ends with the new question.
\<close>

theorem conversation_window:
  "(0 < n \<longrightarrow> turns (add_turns (new_conversation n) ts) =
      drop (length ts - nat (2 * n)) (map (\<lambda>(r, t). \<lparr>role = r, content = t\<rparr>) ts) \<and>
      int (turn_count (add_turns (new_conversation n) ts)) \<le> n) \<and>
   length (turns (add_turns (new_conversation 0) ts)) = length ts \<and>
   (\<exists>before. build_prompt (add_turns (new_conversation n) ts) q = before @ ''User: '' @ q)"
proof -
  have "\<exists>before. join sep (xs @ [y]) = before @ y" for sep y and xs :: "string list"
  proof (induction xs)
    case (Cons x xs)
    then obtain b where "join sep (xs @ [y]) = b @ y" by blast
    then show ?case by (cases xs) (auto intro: exI [of _ "x @ sep"] exI [of _ "x @ sep @ b"])
  qed simp
  then have "\<exists>before. build_prompt (add_turns (new_conversation n) ts) q = before @ ''User: '' @ q"
    unfolding build_prompt_def by blast
  moreover have "turns (add_turns (new_conversation n) ts) =
      drop (length ts - nat (2 * n)) (map (\<lambda>(r, t). \<lparr>role = r, content = t\<rparr>) ts) \<and>
      int (turn_count (add_turns (new_conversation n) ts)) \<le> n" if "0 < n"
    using add_turns_last [OF that, of ts] that by (simp add: turn_count_def)
  ultimately show ?thesis using zero_turns_unbounded [of ts] by simp
qed

theorem conversation_window_witness:
  "turns (add_turns (new_conversation 1) [(''user'', ''a''), (''assistant'', ''b''), (''user'', ''c'')]) =
     [\<lparr>role = ''assistant'', content = ''b''\<rparr>, \<lparr>role = ''user'', content = ''c''\<rparr>]"
  using conversation_window [of 1 "[(''user'', ''a''), (''assistant'', ''b''), (''user'', ''c'')]"]
  by simp

text \<open>
  A loaded engine answers a batch with exactly one text per item, in order, unless it
  is cancelled: in stub mode always, and otherwise with the error's text for an item that
  failed; an engine that is not loaded raises.
\<close>

theorem batch_one_result_per_item:
  assumes "loaded e" and "\<And>i p. analyze_image e llm vlm i p \<noteq> Inl Cancelled_Error"
  shows "\<exists>rs. batch_analyze e llm vlm items = Inr rs \<and> length rs = length items \<and>
    (\<forall>i < length items. \<not> use_stub e \<longrightarrow>
       rs ! i = (case analyze_image e llm vlm (fst (items ! i)) (snd (items ! i)) of
         Inr s \<Rightarrow> s | Inl x \<Rightarrow> ''[ERROR] '' @ exn_text x))"
proof (cases "use_stub e")
  case True
  with assms(1) show ?thesis by (simp add: batch_analyze_def)
next
  case False
  let ?f = "\<lambda>(i, p). (case analyze_image e llm vlm i p of Inr s \<Rightarrow> s | Inl x \<Rightarrow> ''[ERROR] '' @ exn_text x)"
  have exc: "is_exception x" if "analyze_image e llm vlm i p = Inl x" for i p x
    using assms(2) [of i p] that by (cases x) auto
  have "batch_loop (analyze_image e llm vlm) items = Inr (map ?f items)"
  proof (induction items)
    case (Cons it items)
    obtain i p where it: "it = (i, p)" by (cases it)
    from Cons show ?case
      using exc [of i p] by (auto simp: it Let_def split: sum.splits)
  qed simp
  with assms(1) False show ?thesis by (auto simp: batch_analyze_def split: prod.splits)
qed

theorem batch_one_result_per_item_witness:
  "\<exists>rs. batch_analyze ((new_engine ''llm'' None)\<lparr>loaded := True\<rparr>) (\<lambda>_. Inr '''') (\<lambda>_ _. Inr '''')
     [((), ''a''), ((), ''b'')] = Inr rs \<and> length rs = 2"
  using batch_one_result_per_item [of "(new_engine ''llm'' None)\<lparr>loaded := True\<rparr>" "\<lambda>_. Inr ''''"
      "\<lambda>_ _. Inr ''''" "[((), ''a''), ((), ''b'')]"]
  by (auto simp: new_engine_def analyze_image_def generate_def)

end
