(* ===== verification/Rag.thy ===== *)
theory Rag
  imports Behavior
begin

text \<open>
  The retriever of historical context, \<open>inference/rag_retriever.py\<close>. The history is the
  store's query; \<open>clock_text\<close> is \<open>time.strftime\<close> on the local time, a parameter because it
  depends on the machine's time zone.
\<close>

subsection \<open>Retrieval\<close>

record rag =
  max_items :: int
  rag_window_hours :: real

record rag_context =
  rag_items :: "det_row list"
  rag_summary :: string

definition row_line :: "(real \<Rightarrow> string) \<Rightarrow> det_row \<Rightarrow> string" where
  "row_line clock_text r =
     (let classes = map class_name (row_detections r);
          time = (if row_timestamp r = 0 then ''?'' else clock_text (row_timestamp r));
          dets = (if classes = [] then ''none'' else join '', '' classes);
          line = ''  ['' @ time @ ''] '' @ row_event_type r @ '': '' @ dets
      in case row_vlm_result r of
          None \<Rightarrow> line
        | Some v \<Rightarrow> if v = '''' then line else line @ '' '' @ em_dash @ '' VLM: '' @ take 80 v)"

definition format_summary :: "(real \<Rightarrow> string) \<Rightarrow> det_row list \<Rightarrow> string \<Rightarrow> real \<Rightarrow> string" where
  "format_summary clock_text rows dev hours =
     (if rows = []
      then ''No recent events for device '' @ dev @ '' in the last '' @ fmt_fixed 0 hours @ ''h.''
      else join [newline]
        ((''Recent history for '' @ dev @ '' ('' @ str_int (int (length rows)) @ '' events, last '' @
          fmt_fixed 0 hours @ ''h):'') # map (row_line clock_text) rows))"

definition retrieve ::
    "(real \<Rightarrow> string) \<Rightarrow> event_query option \<Rightarrow> rag \<Rightarrow> string \<Rightarrow> string list \<Rightarrow> real \<Rightarrow> real
       \<Rightarrow> exn + rag_context" where
  "retrieve clock_text st g dev class_names hours now =
     (case st of
        None \<Rightarrow> Inr \<lparr>rag_items = [], rag_summary = ''No history available.''\<rparr>
      | Some query \<Rightarrow>
          let window = (if hours = 0 then rag_window_hours g else hours)
          in case query (now - window * 3600) 0 (max_items g * 3) dev of
              Inl e \<Rightarrow> Inl e
            | Inr rows \<Rightarrow>
                let rows1 = (if class_names = [] then rows
                      else filter (\<lambda>r. \<exists>d \<in> set (row_detections r). class_name d \<in> set class_names) rows);
                    picked = slice_to rows1 (max_items g)
                in Inr \<lparr>rag_items = picked, rag_summary = format_summary clock_text picked dev window\<rparr>)"

definition format_for_prompt :: "rag_context \<Rightarrow> string" where
  "format_for_prompt c = rag_summary c"

subsection \<open>Lemmas in the store's interface\<close>

lemma sorted_wrt_filter_take:
  "sorted_wrt P xs \<Longrightarrow> sorted_wrt P (take n (filter Q xs))"
  by (simp add: sorted_wrt_take sorted_wrt_filter)

context event_source
begin

lemma retrieved_items:
  assumes r: "retrieve clock_text (Some query) g dev class_names hours now = Inr c"
    and "0 \<le> max_items g" and "hours \<noteq> 0"
  shows "int (length (rag_items c)) \<le> max_items g \<and>
    sorted_wrt (\<lambda>a b. row_timestamp b \<le> row_timestamp a) (rag_items c) \<and>
    (\<forall>row \<in> set (rag_items c). now - hours * 3600 \<le> row_timestamp row \<and>
       (dev \<noteq> '''' \<longrightarrow> row_device_id row = dev) \<and>
       (class_names \<noteq> [] \<longrightarrow> (\<exists>d \<in> set (row_detections row). class_name d \<in> set class_names)))"
proof -
  obtain rows where q: "query (now - hours * 3600) 0 (max_items g * 3) dev = Inr rows"
    and items: "rag_items c = take (nat (max_items g)) (if class_names = [] then rows
      else filter (\<lambda>r. \<exists>d \<in> set (row_detections r). class_name d \<in> set class_names) rows)"
    using r assms(2,3) by (auto simp: retrieve_def Let_def slice_to_def split: sum.splits)
  show ?thesis
    using rows_sorted [OF q] rows_since [OF q] rows_device [OF q] assms(2)
    by (auto simp: items sorted_wrt_take sorted_wrt_filter_take dest!: in_set_takeD)
qed

end

subsection \<open>Properties\<close>

text \<open>
  The context given to a prompt is relevant: at most \<open>max_items\<close> stored events,
  newest first, all of the device, within the time window and, when class names are given,
  each with a detection of one of them; without any, the summary says so.
\<close>

theorem rag_context_relevant:
  assumes r: "retrieve clock_text (Some (query_events s attempts now)) g dev class_names hours now = Inr c"
    and "0 \<le> max_items g" and "hours \<noteq> 0"
  shows "int (length (rag_items c)) \<le> max_items g \<and> set (rag_items c) \<subseteq> set (det_table s) \<and>
    sorted_wrt (\<lambda>a b. row_timestamp b \<le> row_timestamp a) (rag_items c) \<and>
    (\<forall>row \<in> set (rag_items c). now - hours * 3600 \<le> row_timestamp row \<and>
       (dev \<noteq> '''' \<longrightarrow> row_device_id row = dev) \<and>
       (class_names \<noteq> [] \<longrightarrow> (\<exists>d \<in> set (row_detections row). class_name d \<in> set class_names))) \<and>
    (rag_items c = [] \<longrightarrow> format_for_prompt c =
       ''No recent events for device '' @ dev @ '' in the last '' @ fmt_fixed 0 hours @ ''h.'')"
proof -
  have "set (rag_items c) \<subseteq> set (det_table s)"
    using r assms(2,3) query_events_in [of s attempts now]
    by (fastforce simp: retrieve_def Let_def slice_to_def set_select_events
        split: sum.splits if_splits dest!: in_set_takeD)
  moreover have "rag_items c = [] \<longrightarrow> format_for_prompt c =
      ''No recent events for device '' @ dev @ '' in the last '' @ fmt_fixed 0 hours @ ''h.''"
    using r assms(3) by (auto simp: retrieve_def Let_def format_for_prompt_def format_summary_def
        split: sum.splits)
  ultimately show ?thesis using stored.retrieved_items [OF r assms(2,3)] by blast
qed

theorem rag_context_relevant_witness:
  "\<exists>c. retrieve (\<lambda>_. '''') (Some (query_events sample_store (\<lambda>_. Attempt_Ok) 100))
     \<lparr>max_items = 5, rag_window_hours = 24\<rparr> ''x'' [] 1 100 = Inr c \<and> int (length (rag_items c)) \<le> 5"
proof -
  have "connected sample_store" by (simp add: sample_store_def new_store_def)
  then obtain rows where "query_events sample_store (\<lambda>_. Attempt_Ok) 100 (100 - 1 * 3600) 0 (5 * 3) ''x'' = Inr rows"
    by (simp add: query_events_def Let_def db_retry_ok)
  then obtain c where "retrieve (\<lambda>_. '''') (Some (query_events sample_store (\<lambda>_. Attempt_Ok) 100))
     \<lparr>max_items = 5, rag_window_hours = 24\<rparr> ''x'' [] 1 100 = Inr c"
    by (simp add: retrieve_def Let_def)
  from rag_context_relevant [OF this] this show ?thesis by auto
qed

end
