(* ===== verification/Py_Regex.thy ===== *)
theory Py_Regex
  imports Py_Text
begin

text \<open>
  The part of Python's \<open>re\<close> that the code uses, as a backtracking matcher: \<open>rests r s\<close> lists
  what is left of \<open>s\<close> after each way to match \<open>r\<close> at its start, in the order in which the
  engine tries them (greedy repetitions longest first, lazy ones shortest first). Repetition is
  only needed of single characters. \<open>findall\<close> is \<open>re.findall\<close> for a pattern with one group,
  given as the parts before, in and after the group.
\<close>

subsection \<open>Matching\<close>

datatype re =
    Eps
  | Cls "char \<Rightarrow> bool"
  | Seq re re
  | Alt re re
  | Greedy "char \<Rightarrow> bool"
  | Lazy "char \<Rightarrow> bool"
  | Line_End


definition is_space :: "char \<Rightarrow> bool" where
  "is_space c \<longleftrightarrow> (of_char c :: nat) \<in> {9, 10, 11, 12, 13, 28, 29, 30, 31, 32, 133, 160}"

definition is_digit :: "char \<Rightarrow> bool" where
  "is_digit c \<longleftrightarrow> c \<in> set ''0123456789''"

fun greedy_rests :: "(char \<Rightarrow> bool) \<Rightarrow> string \<Rightarrow> string list" where
  "greedy_rests p [] = [[]]"
| "greedy_rests p (c # cs) = (if p c then greedy_rests p cs @ [c # cs] else [c # cs])"

fun lazy_rests :: "(char \<Rightarrow> bool) \<Rightarrow> string \<Rightarrow> string list" where
  "lazy_rests p [] = [[]]"
| "lazy_rests p (c # cs) = (c # cs) # (if p c then lazy_rests p cs else [])"

primrec rests :: "re \<Rightarrow> string \<Rightarrow> string list" where
  "rests Eps s = [s]"
| "rests (Cls p) s = (case s of [] \<Rightarrow> [] | c # cs \<Rightarrow> if p c then [cs] else [])"
| "rests (Seq a b) s = concat (map (rests b) (rests a s))"
| "rests (Alt a b) s = rests a s @ rests b s"
| "rests (Greedy p) s = greedy_rests p s"
| "rests (Lazy p) s = lazy_rests p s"
| "rests Line_End s = (if s = [] \<or> hd s = newline then [s] else [])"

fun lit :: "string \<Rightarrow> re" where
  "lit [] = Eps"
| "lit (c # cs) = Seq (Cls (\<lambda>x. x = c)) (lit cs)"

text \<open>A literal under \<open>re.IGNORECASE\<close>; the literal itself is in lower case.\<close>

fun ilit :: "string \<Rightarrow> re" where
  "ilit [] = Eps"
| "ilit (c # cs) = Seq (Cls (\<lambda>x. lower_char x = c)) (ilit cs)"

fun alts :: "re list \<Rightarrow> re" where
  "alts [] = Cls (\<lambda>_. False)"
| "alts [r] = r"
| "alts (r # rs) = Alt r (alts rs)"

fun seqs :: "re list \<Rightarrow> re" where
  "seqs [] = Eps"
| "seqs (r # rs) = Seq r (seqs rs)"

definition opt :: "re \<Rightarrow> re" where
  "opt r = Alt r Eps"

text \<open>\<open>re.search\<close> succeeds.\<close>

fun search :: "re \<Rightarrow> string \<Rightarrow> bool" where
  "search r [] = (rests r [] \<noteq> [])"
| "search r (c # cs) = (rests r (c # cs) \<noteq> [] \<or> search r cs)"

text \<open>The first match of \<open>pre(grp)post\<close> at the start of \<open>s\<close>: the group and what is left.\<close>

definition match_group :: "re \<Rightarrow> re \<Rightarrow> re \<Rightarrow> string \<Rightarrow> (string \<times> string) option" where
  "match_group pre grp post s =
     (case [(take (length s1 - length s2) s1, s3). s1 \<leftarrow> rests pre s, s2 \<leftarrow> rests grp s1, s3 \<leftarrow> rests post s2] of
        [] \<Rightarrow> None
      | m # _ \<Rightarrow> Some m)"

function findall :: "re \<Rightarrow> re \<Rightarrow> re \<Rightarrow> string \<Rightarrow> string list" where
  "findall pre grp post s =
     (case match_group pre grp post s of
        Some (g, rest) \<Rightarrow>
          if length rest < length s then g # findall pre grp post rest
          else g # (case s of [] \<Rightarrow> [] | c # cs \<Rightarrow> findall pre grp post cs)
      | None \<Rightarrow> (case s of [] \<Rightarrow> [] | c # cs \<Rightarrow> findall pre grp post cs))"
  by pat_completeness auto
termination
  by (relation "measure (\<lambda>(pre, grp, post, s). length s)") auto

declare findall.simps [simp del]

subsection \<open>Lemmas\<close>

lemma rests_lit: "rests (lit p) s = (if prefix p s then [drop (length p) s] else [])"
proof (induction p arbitrary: s)
  case (Cons c p)
  then show ?case by (cases s) auto
qed simp

lemma rests_Alt_Nil [simp]: "rests (Alt a b) s = [] \<longleftrightarrow> rests a s = [] \<and> rests b s = []"
  by simp

lemma search_lit: "search (lit p) s \<longleftrightarrow> contains p s"
  by (induction s) (auto simp: rests_lit)

text \<open>\<open>str.strip\<close>.\<close>

definition strip :: "string \<Rightarrow> string" where
  "strip s = rev (dropWhile is_space (rev (dropWhile is_space s)))"

end
