(* ===== verification/Py_Number.thy ===== *)
theory Py_Number
  imports Py_Regex Py_Float
begin

text \<open>
  Python's \<open>int\<close> and \<open>float\<close> on strings, which read the environment's overrides of the
  configuration and the numbers in the edge's health reports: surrounding white space, a sign,
  digits with single underscores between them, a fraction and an exponent, infinities and NaN.
  A finite result is exact; from half a unit beyond the largest double on it is an infinity.
  Reading back what \<open>str\<close> prints of an integer gives the integer.
\<close>

subsection \<open>Parts of a number\<close>

definition digits_value :: "string \<Rightarrow> nat" where
  "digits_value s = foldl (\<lambda>n c. 10 * n + (of_char c - 48)) 0 s"

definition in_digit_part :: "char \<Rightarrow> bool" where
  "in_digit_part c \<longleftrightarrow> is_digit c \<or> c = CHR ''_''"

definition digit_part :: "string \<Rightarrow> bool" where
  "digit_part s \<longleftrightarrow> s \<noteq> [] \<and> list_all in_digit_part s \<and> is_digit (hd s) \<and> is_digit (last s) \<and>
     \<not> contains ''__'' s"

definition digit_part_value :: "string \<Rightarrow> nat" where
  "digit_part_value s = digits_value (filter is_digit s)"

definition sign_split :: "string \<Rightarrow> bool \<times> string" where
  "sign_split s = (case s of [] \<Rightarrow> (False, [])
     | c # cs \<Rightarrow> if c = CHR ''-'' then (True, cs) else if c = CHR ''+'' then (False, cs) else (False, s))"

definition py_int :: "string \<Rightarrow> int option" where
  "py_int s = (let (neg, t) = sign_split (strip s)
     in if digit_part t then Some (if neg then - int (digit_part_value t) else int (digit_part_value t))
        else None)"

subsection \<open>Floats\<close>

definition exponent :: "string \<Rightarrow> int option" where
  "exponent s = (case s of [] \<Rightarrow> Some 0
     | c # cs \<Rightarrow> if c \<noteq> CHR ''e'' \<and> c \<noteq> CHR ''E'' then None
         else let (neg, t) = sign_split cs
              in if digit_part t then Some (if neg then - int (digit_part_value t) else int (digit_part_value t))
                 else None)"

definition decimal :: "string \<Rightarrow> real option" where
  "decimal s =
     (let ip = takeWhile in_digit_part s; rest = dropWhile in_digit_part s;
          point = (rest \<noteq> [] \<and> hd rest = CHR ''.'');
          fp = (if point then takeWhile in_digit_part (tl rest) else []);
          rest1 = (if point then dropWhile in_digit_part (tl rest) else rest);
          fd = filter is_digit fp
      in if (ip = [] \<and> fp = []) \<or> (ip \<noteq> [] \<and> \<not> digit_part ip) \<or> (fp \<noteq> [] \<and> \<not> digit_part fp) then None
         else case exponent rest1 of
             None \<Rightarrow> None
           | Some e \<Rightarrow> Some ((real (digit_part_value ip) + real (digits_value fd) / 10 ^ length fd) * 10 powi e))"

definition float_limit :: real where
  "float_limit = 2 ^ 1024 - 2 ^ 970"

definition float_of :: "bool \<Rightarrow> real \<Rightarrow> pyfloat" where
  "float_of neg x =
     (if float_limit \<le> x then (if neg then Neg_Inf else Pos_Inf) else Fin (if neg then - x else x))"

definition py_float :: "string \<Rightarrow> pyfloat option" where
  "py_float s = (let (neg, t) = sign_split (strip s); u = lower t
     in if u = ''inf'' \<or> u = ''infinity'' then Some (if neg then Neg_Inf else Pos_Inf)
        else if u = ''nan'' then Some Nan
        else map_option (float_of neg) (decimal t))"

subsection \<open>Reading what was printed\<close>

lemma digit_is_digit: "n < 10 \<Longrightarrow> is_digit (digit n)"
  unfolding is_digit_def by (rule digit_ascii)

lemma dec_digits: "c \<in> set (dec n) \<Longrightarrow> is_digit c"
  using set_dec [of n] unfolding is_digit_def by blast

lemma dec_ends [simp]: "is_digit (hd (dec n))" "is_digit (last (dec n))"
  by (rule dec_digits, rule hd_in_set, simp) (rule dec_digits, rule last_in_set, simp)

lemma digits_value_snoc: "digits_value (s @ [c]) = 10 * digits_value s + (of_char c - 48)"
  by (simp add: digits_value_def)

lemma digit_value: "n < 10 \<Longrightarrow> of_char (digit n) - 48 = (n :: nat)"
proof -
  assume "n < 10"
  then have "n \<in> {0, 1, 2, 3, 4, 5, 6, 7, 8, 9}" by (simp only: insert_iff empty_iff) arith
  then show ?thesis by (elim insertE emptyE) (simp_all add: digit_def)
qed

lemma digits_value_dec: "digits_value (dec n) = n"
proof (induction n rule: dec.induct)
  case (1 n)
  then show ?case
    by (cases "n < 10")
      (simp_all add: dec.simps [of n] digits_value_snoc digit_value digits_value_def [of "[_]"])
qed

lemma digit_not_space: "is_digit c \<Longrightarrow> \<not> is_space c"
  by (auto simp: is_digit_def is_space_def)

lemma no_underscores: "\<forall>c \<in> set s. is_digit c \<Longrightarrow> \<not> contains ''__'' s"
  by (induction s) (auto simp: is_digit_def)

lemma digit_part_dec: "digit_part (dec n)"
  using no_underscores [of "dec n"] dec_digits [of _ n]
  by (auto simp: digit_part_def list_all_iff in_digit_part_def)

lemma digit_part_value_dec: "digit_part_value (dec n) = n"
proof -
  have "filter is_digit (dec n) = dec n" by (rule filter_True) (simp add: dec_digits)
  then show ?thesis by (simp add: digit_part_value_def digits_value_dec)
qed

lemma strip_id: "s \<noteq> [] \<Longrightarrow> \<not> is_space (hd s) \<Longrightarrow> \<not> is_space (last s) \<Longrightarrow> strip s = s"
proof -
  assume s: "s \<noteq> []" "\<not> is_space (hd s)" "\<not> is_space (last s)"
  then have "dropWhile is_space s = s" by (cases s) auto
  moreover have "dropWhile is_space (rev s) = rev s" using s by (cases s rule: rev_cases) auto
  ultimately show ?thesis by (simp add: strip_def)
qed

lemma strip_str_int: "strip (str_int i) = str_int i"
proof (rule strip_id)
  show "str_int i \<noteq> []" by (simp add: str_int_def)
  show "\<not> is_space (hd (str_int i))" "\<not> is_space (last (str_int i))"
    by (auto simp: str_int_def digit_not_space) (auto simp: is_space_def)
qed

lemma sign_split_dec: "sign_split (dec n) = (False, dec n)"
proof -
  have "is_digit (hd (dec n))" by simp
  then show ?thesis by (cases "dec n") (auto simp: sign_split_def is_digit_def)
qed

lemma py_int_str_int: "py_int (str_int i) = Some i"
proof -
  have "sign_split (str_int i) = (i < 0, dec (nat \<bar>i\<bar>))"
    by (simp add: str_int_def sign_split_dec) (simp add: sign_split_def)
  then show ?thesis
    by (simp add: py_int_def strip_str_int digit_part_dec digit_part_value_dec)
qed

lemma py_int_not_word: "py_int ''abc'' = None"
  by (simp add: py_int_def sign_split_def strip_def is_space_def digit_part_def in_digit_part_def is_digit_def)

end
