(* ===== verification/Vlm_Guide.thy ===== *)
theory Vlm_Guide
  imports Py_Number
begin

text \<open>
  The interpreter of VLM answers, \<open>inference/vlm_config_guide.py\<close>: it looks for recommendations
  in the text and turns them into adjustments of an edge device. The regular expressions are
  those of the code, in the constructors of \<open>Py_Regex\<close>; text is ASCII here, so the bullet
  character of the third pattern is left out. The lemmas bound every number that leaves this
  module.
\<close>

subsection \<open>Data\<close>

datatype adjustment_type = Detection_Region | Sensitivity | Fps | Focus_Area

fun adjustment_value :: "adjustment_type \<Rightarrow> string" where
  "adjustment_value Detection_Region = ''detection_region''"
| "adjustment_value Sensitivity = ''sensitivity''"
| "adjustment_value Fps = ''fps''"
| "adjustment_value Focus_Area = ''focus_area''"

record region =
  r_x_min :: real
  r_y_min :: real
  r_x_max :: real
  r_y_max :: real

definition full_region :: region where
  "full_region = \<lparr>r_x_min = 0, r_y_min = 0, r_x_max = 1, r_y_max = 1\<rparr>"

definition clamp01 :: "real \<Rightarrow> real" where
  "clamp01 x = max 0 (min 1 x)"

definition clamp :: "region \<Rightarrow> region" where
  "clamp r = \<lparr>r_x_min = clamp01 (r_x_min r), r_y_min = clamp01 (r_y_min r),
     r_x_max = clamp01 (r_x_max r), r_y_max = clamp01 (r_y_max r)\<rparr>"

record adjustment =
  adj_type :: adjustment_type
  adj_reason :: string
  adj_confidence :: real
  adj_region :: "region option"
  sensitivity_delta :: real
  fps_delta :: int
  target_classes :: "string list"

datatype param = P_Str string | P_Float real | P_Int int

definition region_params :: "region \<Rightarrow> (string \<times> param) list" where
  "region_params r = [(''x_min'', P_Float (r_x_min r)), (''y_min'', P_Float (r_y_min r)),
     (''x_max'', P_Float (r_x_max r)), (''y_max'', P_Float (r_y_max r))]"

definition to_command_params :: "adjustment \<Rightarrow> (string \<times> param) list" where
  "to_command_params a =
     (let params = [(''reason'', P_Str (adj_reason a))];
          with_region = (case adj_region a of None \<Rightarrow> params | Some r \<Rightarrow> params @ region_params r)
      in case adj_type a of
          Detection_Region \<Rightarrow> with_region
        | Sensitivity \<Rightarrow> params @ [(''delta'', P_Float (sensitivity_delta a))]
        | Fps \<Rightarrow> params @ [(''delta'', P_Int (fps_delta a))]
        | Focus_Area \<Rightarrow> with_region @ [(''classes'', P_Str (join '','' (target_classes a)))])"

record guidance =
  adjustments :: "adjustment list"
  raw_recommendations :: "string list"
  parsing_confidence :: real
  should_apply :: bool

record guide =
  guide_min_confidence :: real
  max_adjustments :: int
  enable_region :: bool
  enable_sensitivity :: bool
  enable_fps :: bool

definition default_guide :: guide where
  "default_guide = \<lparr>guide_min_confidence = 6 / 10, max_adjustments = 3, enable_region = True,
     enable_sensitivity = True, enable_fps = False\<rparr>"

subsection \<open>Keyword patterns\<close>

definition the_opt :: re where
  "the_opt = opt (lit ''the '')"

definition sides :: re where
  "sides = alts (map lit [''upper'', ''lower'', ''left'', ''right'', ''center''])"

definition region_keywords :: "re list" where
  "region_keywords =
     [seqs [lit ''focus on '', the_opt, sides, lit '' '',
        alts (map lit [''area'', ''region'', ''corner'', ''portion''])],
      seqs [lit ''adjust '', opt (lit ''detection ''), lit ''region''],
      seqs [lit ''change '', the_opt, alts (map lit [''roi'', ''region of interest''])],
      seqs [lit ''ignore '', the_opt, sides],
      seqs [lit ''monitor '', the_opt, sides],
      seqs [lit ''move '', the_opt, lit ''detection '', alts (map lit [''area'', ''zone'', ''region''])]]"

definition sensitivity_keywords :: "re list" where
  "sensitivity_keywords =
     [seqs [lit ''increase '', opt (lit ''detection ''), lit ''sensitivity''],
      seqs [lit ''decrease '', opt (lit ''detection ''), lit ''sensitivity''],
      seqs [lit ''lower '', the_opt, lit ''threshold''],
      seqs [lit ''raise '', the_opt, lit ''threshold''],
      lit ''more sensitive'', lit ''less sensitive'', lit ''reduce false positives'',
      lit ''catch more detections'']"

definition fps_keywords :: "re list" where
  "fps_keywords =
     [seqs [lit ''increase '', alts (map lit [''frame rate'', ''fps''])],
      seqs [lit ''decrease '', alts (map lit [''frame rate'', ''fps''])],
      lit ''higher fps'', lit ''lower fps'',
      seqs [lit ''slow '', opt (lit ''down ''), lit ''the '', alts (map lit [''capture'', ''stream''])],
      seqs [lit ''speed up '', the_opt, alts (map lit [''capture'', ''stream''])]]"

definition mentions :: "re list \<Rightarrow> string \<Rightarrow> bool" where
  "mentions ps s \<longleftrightarrow> list_ex (\<lambda>r. search r s) ps"

definition any_word :: "string list \<Rightarrow> string \<Rightarrow> bool" where
  "any_word ws s \<longleftrightarrow> list_ex (\<lambda>w. contains w s) ws"

subsection \<open>Extracting numbers\<close>


definition decimal_value :: "string \<Rightarrow> real" where
  "decimal_value s =
     (let whole = takeWhile (\<lambda>c. c \<noteq> CHR ''.'') s; frac = drop (Suc (length whole)) s
      in real (digits_value whole) + real (digits_value frac) / 10 ^ length frac)"

text \<open>The pattern \<open>(\d+(?:\.\d+)?)\s*(?:%|percent)?\<close>.\<close>

definition coordinates :: "string \<Rightarrow> real list" where
  "coordinates s = map decimal_value
     (findall Eps
        (seqs [Cls is_digit, Greedy is_digit, opt (seqs [lit ''.'', Cls is_digit, Greedy is_digit])])
        (seqs [Greedy is_space, opt (alts [lit ''%'', lit ''percent''])]) s)"

definition directed_region :: "string \<Rightarrow> region" where
  "directed_region s =
     (let r0 = full_region;
          r1 = (if any_word [''upper'', ''top''] s then r0\<lparr>r_y_min := 0, r_y_max := 1 / 2\<rparr> else r0);
          r2 = (if any_word [''lower'', ''bottom''] s then r1\<lparr>r_y_min := 1 / 2, r_y_max := 1\<rparr> else r1);
          r3 = (if any_word [''left''] s then r2\<lparr>r_x_min := 0, r_x_max := 1 / 2\<rparr> else r2);
          r4 = (if any_word [''right''] s then r3\<lparr>r_x_min := 1 / 2, r_x_max := 1\<rparr> else r3)
      in if any_word [''center'', ''middle''] s
         then r4\<lparr>r_x_min := 1 / 4, r_x_max := 3 / 4, r_y_min := 1 / 4, r_y_max := 3 / 4\<rparr>
         else r4)"

definition extract_region :: "string \<Rightarrow> region option" where
  "extract_region s =
     (let r = directed_region s; cs = coordinates s
      in if r \<noteq> full_region then Some (clamp r)
         else if 4 \<le> length cs
         then Some (clamp \<lparr>r_x_min = cs ! 0 / 100, r_y_min = cs ! 1 / 100,
                           r_x_max = cs ! 2 / 100, r_y_max = cs ! 3 / 100\<rparr>)
         else None)"

definition extract_sensitivity_delta :: "string \<Rightarrow> real" where
  "extract_sensitivity_delta s =
     (if any_word [''increase'', ''higher'', ''more sensitive'', ''catch more''] s then 5 / 100
      else if any_word [''decrease'', ''lower'', ''less sensitive'', ''reduce false''] s then - 5 / 100
      else 0)"

definition extract_fps_delta :: "string \<Rightarrow> int" where
  "extract_fps_delta s =
     (if any_word [''increase'', ''higher'', ''speed up'', ''faster''] s then 5
      else if any_word [''decrease'', ''lower'', ''slow down'', ''slower''] s then - 5
      else 0)"

subsection \<open>Parsing\<close>

definition plain_adjustment :: "adjustment_type \<Rightarrow> string \<Rightarrow> real \<Rightarrow> adjustment" where
  "plain_adjustment t rec conf = \<lparr>adj_type = t, adj_reason = take 200 rec, adj_confidence = conf,
     adj_region = None, sensitivity_delta = 0, fps_delta = 0, target_classes = []\<rparr>"

text \<open>
  The loop over the region patterns returns at the first pattern that matches when a region is
  found; the region does not depend on the pattern.
\<close>

definition parse_recommendation :: "guide \<Rightarrow> string \<Rightarrow> adjustment option" where
  "parse_recommendation g rec =
     (let low = lower rec
      in if enable_region g \<and> mentions region_keywords low \<and> extract_region low \<noteq> None
         then Some ((plain_adjustment Detection_Region rec (7 / 10))\<lparr>adj_region := extract_region low\<rparr>)
         else if enable_sensitivity g \<and> mentions sensitivity_keywords low
         then Some ((plain_adjustment Sensitivity rec (75 / 100))
                \<lparr>sensitivity_delta := extract_sensitivity_delta low\<rparr>)
         else if enable_fps g \<and> mentions fps_keywords low
         then Some ((plain_adjustment Fps rec (6 / 10))\<lparr>fps_delta := extract_fps_delta low\<rparr>)
         else None)"

definition to_line_end :: "re \<Rightarrow> string \<Rightarrow> string list" where
  "to_line_end pre s =
     findall pre (Seq (Cls (\<lambda>c. c \<noteq> newline)) (Lazy (\<lambda>c. c \<noteq> newline)))
       (Alt (Cls (\<lambda>c. c = newline)) Line_End) s"

definition not_stop :: "char \<Rightarrow> bool" where
  "not_stop c \<longleftrightarrow> c \<notin> set ''.!?''"

definition recommendation_matches :: "string \<Rightarrow> string list" where
  "recommendation_matches s =
     to_line_end (seqs [alts (map ilit [''recommendation'', ''suggest'', ''advise'', ''should'']),
        opt (ilit ''s''), opt (lit '':''), Greedy is_space]) s @
     to_line_end (seqs [Cls is_digit, Greedy is_digit, lit ''.'', Greedy is_space]) s @
     to_line_end (seqs [lit ''-'', Greedy is_space]) s @
     findall Eps
       (seqs [Cls (\<lambda>c. 65 \<le> (of_char c :: nat) \<and> (of_char c :: nat) \<le> 90), Greedy not_stop,
          alts (map lit [''adjust'', ''change'', ''modify'', ''increase'', ''decrease'', ''focus'',
            ''monitor'', ''ignore'']), Greedy not_stop, Cls (\<lambda>c. \<not> not_stop c)]) Eps s"

fun clean :: "string list \<Rightarrow> string list \<Rightarrow> string list" where
  "clean seen [] = []"
| "clean seen (r # rs) =
     (let t = strip r
      in if t \<noteq> [] \<and> t \<notin> set seen \<and> 10 < length t then t # clean (t # seen) rs else clean seen rs)"

definition extract_recommendations :: "string \<Rightarrow> string list" where
  "extract_recommendations s = clean [] (recommendation_matches s)"

definition parse_vlm_result :: "guide \<Rightarrow> string \<Rightarrow> guidance" where
  "parse_vlm_result g s =
     (let recs = extract_recommendations s;
          adjs = filter (\<lambda>a. guide_min_confidence g \<le> adj_confidence a)
                   (List.map_filter (parse_recommendation g) (slice_to recs (max_adjustments g)))
      in \<lparr>adjustments = adjs, raw_recommendations = recs,
          parsing_confidence = (if adjs = [] then 0
            else sum_list (map adj_confidence adjs) / real (length adjs)),
          should_apply = (adjs \<noteq> [])\<rparr>)"

subsection \<open>Commands\<close>

record command_dict =
  cmd_type :: int
  cmd_id :: int
  cmd_parameters :: "(string \<times> param) list"
  cmd_target :: string

fun command_type :: "adjustment_type \<Rightarrow> int" where
  "command_type Detection_Region = 7"
| "command_type Sensitivity = 8"
| "command_type Fps = 0"
| "command_type Focus_Area = 7"

definition create_control_command :: "adjustment \<Rightarrow> string \<Rightarrow> int \<Rightarrow> command_dict" where
  "create_control_command a dev cid = \<lparr>cmd_type = command_type (adj_type a), cmd_id = cid,
     cmd_parameters = to_command_params a, cmd_target = dev\<rparr>"

subsection \<open>Lemmas\<close>

definition region_ok :: "region \<Rightarrow> bool" where
  "region_ok r \<longleftrightarrow> r_x_min r \<in> {0..1} \<and> r_y_min r \<in> {0..1} \<and> r_x_max r \<in> {0..1} \<and> r_y_max r \<in> {0..1}"

lemma clamp_ok: "region_ok (clamp r)"
  by (simp add: region_ok_def clamp_def clamp01_def)

lemma clamp_id: "region_ok r \<Longrightarrow> clamp r = r"
  by (simp add: region_ok_def clamp_def clamp01_def)

lemma extract_region_ok: "extract_region s = Some r \<Longrightarrow> region_ok r"
  by (auto simp: extract_region_def Let_def clamp_ok split: if_splits)

lemma directed_region_ordered:
  "region_ok (directed_region s) \<and> r_x_min (directed_region s) < r_x_max (directed_region s) \<and>
   r_y_min (directed_region s) < r_y_max (directed_region s)"
  by (simp add: directed_region_def Let_def region_ok_def full_region_def)

text \<open>What every adjustment satisfies.\<close>

definition adjustment_ok :: "guide \<Rightarrow> adjustment \<Rightarrow> bool" where
  "adjustment_ok g a \<longleftrightarrow> length (adj_reason a) \<le> 200 \<and>
     \<bar>sensitivity_delta a\<bar> \<le> 1 / 10 \<and> \<bar>fps_delta a\<bar> \<le> 5 \<and>
     (case adj_type a of
        Detection_Region \<Rightarrow> enable_region g \<and> adj_confidence a = 7 / 10 \<and>
          (\<exists>r. adj_region a = Some r \<and> region_ok r)
      | Sensitivity \<Rightarrow> enable_sensitivity g \<and> adj_confidence a = 75 / 100
      | Fps \<Rightarrow> enable_fps g \<and> adj_confidence a = 6 / 10
      | Focus_Area \<Rightarrow> False)"

lemma parse_recommendation_ok: "parse_recommendation g rec = Some a \<Longrightarrow> adjustment_ok g a"
  by (auto simp: parse_recommendation_def Let_def adjustment_ok_def plain_adjustment_def
      extract_sensitivity_delta_def extract_fps_delta_def dest: extract_region_ok split: if_splits)

lemma in_map_filter: "y \<in> set (List.map_filter f xs) \<Longrightarrow> \<exists>x \<in> set xs. f x = Some y"
  by (auto simp: List.map_filter_def)

lemma length_map_filter: "length (List.map_filter f xs) \<le> length xs"
  by (simp add: List.map_filter_def)

lemma mean_between:
  assumes "xs \<noteq> []" and "\<forall>x \<in> set xs. a \<le> x \<and> x \<le> (b :: real)"
  shows "a \<le> sum_list xs / real (length xs) \<and> sum_list xs / real (length xs) \<le> b"
proof -
  have "real (length xs) * a \<le> sum_list xs \<and> sum_list xs \<le> real (length xs) * b"
    using assms(2) by (induction xs) (auto simp: algebra_simps)
  then show ?thesis using assms(1) by (simp add: pos_le_divide_eq pos_divide_le_eq mult.commute)
qed

lemma clean_props:
  "set (clean seen rs) \<inter> set seen = {} \<and> distinct (clean seen rs) \<and>
   (\<forall>t \<in> set (clean seen rs). 10 < length t \<and> (\<exists>r \<in> set rs. t = strip r))"
proof (induction rs arbitrary: seen)
  case (Cons r rs)
  show ?case
  proof (cases "strip r \<noteq> [] \<and> strip r \<notin> set seen \<and> 10 < length (strip r)")
    case True
    with Cons.IH [of "strip r # seen"] show ?thesis by (auto simp: Let_def)
  next
    case False
    then have "clean seen (r # rs) = clean seen rs" by (simp add: Let_def) blast
    with Cons.IH [of seen] show ?thesis by (auto simp del: clean.simps)
  qed
qed simp

subsection \<open>Properties\<close>

text \<open>
  Claim C33. Every adjustment drawn from any text is within bounds: at most
  \<open>max_adjustments_per_result\<close> of them, each of an enabled kind and at least of the minimal
  confidence, sensitivity steps at most 0.1 and frame rate steps at most 5 in size, a region
  inside the frame, a reason of at most 200 characters; the overall confidence lies between
  0.6 and 0.75, and the result is to be applied exactly when there is an adjustment.
\<close>

theorem guidance_within_bounds:
  assumes g: "r = parse_vlm_result g text" and "0 \<le> max_adjustments g"
  shows "int (length (adjustments r)) \<le> max_adjustments g \<and>
    (\<forall>a \<in> set (adjustments r). adjustment_ok g a \<and> guide_min_confidence g \<le> adj_confidence a) \<and>
    (should_apply r \<longleftrightarrow> adjustments r \<noteq> []) \<and>
    (should_apply r \<longrightarrow> 6 / 10 \<le> parsing_confidence r \<and> parsing_confidence r \<le> 75 / 100) \<and>
    distinct (raw_recommendations r) \<and> (\<forall>t \<in> set (raw_recommendations r). 10 < length t)"
proof -
  let ?adjs = "List.map_filter (parse_recommendation g)
    (slice_to (extract_recommendations text) (max_adjustments g))"
  have ok: "adjustment_ok g a" if "a \<in> set ?adjs" for a
    using in_map_filter [OF that] parse_recommendation_ok by blast
  have conf: "6 / 10 \<le> adj_confidence a \<and> adj_confidence a \<le> 75 / 100" if "adjustment_ok g a" for a
    using that by (cases "adj_type a") (simp_all add: adjustment_ok_def)
  have adjs: "adjustments r = filter (\<lambda>a. guide_min_confidence g \<le> adj_confidence a) ?adjs"
    "parsing_confidence r = (if adjustments r = [] then 0
      else sum_list (map adj_confidence (adjustments r)) / real (length (adjustments r)))"
    "should_apply r \<longleftrightarrow> adjustments r \<noteq> []" "raw_recommendations r = extract_recommendations text"
    by (simp_all add: g parse_vlm_result_def Let_def)
  have "int (length (adjustments r)) \<le> int (length ?adjs)" by (simp add: adjs(1))
  also have "\<dots> \<le> int (length (slice_to (extract_recommendations text) (max_adjustments g)))"
    using length_map_filter [of "parse_recommendation g"] by simp
  also have "\<dots> \<le> max_adjustments g" by (rule length_slice_to_le [OF assms(2)])
  finally have "int (length (adjustments r)) \<le> max_adjustments g" .
  moreover have "\<forall>c \<in> set (map adj_confidence (adjustments r)). 6 / 10 \<le> c \<and> c \<le> 75 / 100"
    using conf [OF ok] by (simp add: adjs(1))
  then have "6 / 10 \<le> parsing_confidence r \<and> parsing_confidence r \<le> 75 / 100" if "adjustments r \<noteq> []"
    using mean_between [of "map adj_confidence (adjustments r)" "6 / 10" "75 / 100"] that
    unfolding adjs(2) by simp
  ultimately show ?thesis
    using ok clean_props [of "[]" "recommendation_matches text"]
    by (auto simp: adjs(1,3,4) extract_recommendations_def)
qed

theorem guidance_within_bounds_witness:
  "int (length (adjustments (parse_vlm_result default_guide ''1. Lower the threshold''))) \<le> 3"
  using guidance_within_bounds [OF refl, of default_guide "''1. Lower the threshold''"]
  by (simp add: default_guide_def)

text \<open>
  With the minimal confidence above 0.6, in particular with the 0.7 that the
  configuration defaults to, no adjustment of the frame rate is ever produced, even when they
  are enabled, because their confidence is fixed at 0.6.
\<close>

theorem fps_never_confident:
  assumes "6 / 10 < guide_min_confidence g"
  shows "\<forall>a \<in> set (adjustments (parse_vlm_result g text)). adj_type a \<noteq> Fps"
proof
  fix a assume "a \<in> set (adjustments (parse_vlm_result g text))"
  then have "guide_min_confidence g \<le> adj_confidence a" "adjustment_ok g a"
    using in_map_filter parse_recommendation_ok by (fastforce simp: parse_vlm_result_def Let_def)+
  with assms show "adj_type a \<noteq> Fps" by (auto simp: adjustment_ok_def)
qed

theorem fps_never_confident_witness:
  "\<forall>a \<in> set (adjustments (parse_vlm_result
     (default_guide\<lparr>guide_min_confidence := 7 / 10, enable_fps := True\<rparr>) ''1. Increase fps please'')).
   adj_type a \<noteq> Fps"
  using fps_never_confident [of "default_guide\<lparr>guide_min_confidence := 7 / 10, enable_fps := True\<rparr>"]
  by (simp add: default_guide_def)

text \<open>
  The recommendation to lower the threshold, which means more detections, is turned
  into the step that decreases the sensitivity, and the recommendation to raise it into no
  step at all.
\<close>

theorem threshold_steps_inverted:
  "extract_sensitivity_delta ''lower the threshold'' = - 5 / 100 \<and>
   extract_sensitivity_delta ''raise the threshold'' = 0 \<and>
   mentions sensitivity_keywords ''lower the threshold'' \<and>
   mentions sensitivity_keywords ''raise the threshold''"
proof -
  have "mentions sensitivity_keywords ''lower the threshold''"
    "mentions sensitivity_keywords ''raise the threshold''"
    by (simp_all add: mentions_def sensitivity_keywords_def the_opt_def opt_def)
  then show ?thesis by (simp add: extract_sensitivity_delta_def any_word_def)
qed

end
