(* ===== verification/Vlm_Pipeline.thy ===== *)
theory Vlm_Pipeline
  imports Circuit_Breaker Detection_Processor Conversation Rag Vlm_Guide
begin

text \<open>
  The VLM worker, \<open>pipeline/vlm_pipeline.py\<close>: batches from the queue, circuit breaker,
  historical context, conversation, inference, publication, upload, and the commands that the
  configuration guide sends to the edge. What happens outside is the environment of an item:
  the answer of the engine to a prompt (with the timeout of \<open>wait_for\<close>), the clocks, the
  database and the upload. The record keeps a log of what was sent to the engine, of the alert
  tasks started and of the frames uploaded. Between two awaits of one item other tasks may
  publish events; the model takes the processing of an item as one step.
\<close>

subsection \<open>State\<close>

record command =
  c_type :: int
  c_id :: int
  c_params :: "(string \<times> string) list"

record pipeline =
  queue :: vlm_queue
  p_engine :: "engine option"
  bus :: event_bus
  breaker :: breaker
  alerts_on :: bool
  cloud_on :: bool
  retriever :: "rag option"
  config_guide :: "guide option"
  batch_max_size :: int
  command_queue :: "command list option"
  command_counter :: int
  worker_running :: bool
  engine_calls :: "string list list"
  alerts_started :: "string list"
  uploaded :: "int list"

definition new_pipeline ::
    "vlm_queue \<Rightarrow> event_bus \<Rightarrow> breaker option \<Rightarrow> bool \<Rightarrow> bool \<Rightarrow> rag option \<Rightarrow> guide option \<Rightarrow> int
       \<Rightarrow> pipeline" where
  "new_pipeline q b cb alerts cloud r g n =
     \<lparr>queue = q, p_engine = None, bus = b,
      breaker = (case cb of None \<Rightarrow> new_breaker 5 30 1 | Some c \<Rightarrow> c),
      alerts_on = alerts, cloud_on = cloud, retriever = r, config_guide = g, batch_max_size = n,
      command_queue = None, command_counter = 0, worker_running = False, engine_calls = [], alerts_started = [], uploaded = []\<rparr>"

definition set_command_queue :: "pipeline \<Rightarrow> command list option \<Rightarrow> pipeline" where
  "set_command_queue p q = p\<lparr>command_queue := q\<rparr>"

definition set_command_id_counter :: "pipeline \<Rightarrow> int \<Rightarrow> pipeline" where
  "set_command_id_counter p n = p\<lparr>command_counter := n\<rparr>"

definition start :: "pipeline \<Rightarrow> pipeline" where
  "start p = p\<lparr>worker_running := True\<rparr>"

record environment =
  answer :: "string \<Rightarrow> exn + string"
  monotonic :: real
  monotonic_end :: real
  wall :: real
  db_event :: "nat \<Rightarrow> db_attempt"
  db_point :: "nat \<Rightarrow> db_attempt"
  history_query :: "event_query option"
  clock_text :: "real \<Rightarrow> string"
  upload_error :: "exn option"
  number_text :: "param \<Rightarrow> string"
  pb_importable :: bool

subsection \<open>One item\<close>

definition task_done :: "pipeline \<Rightarrow> pipeline" where
  "task_done p = p\<lparr>queue := (queue p)\<lparr>unfinished := unfinished (queue p) - 1\<rparr>\<rparr>"

text \<open>The prompt with the historical context; a failing retrieval leaves it as it is.\<close>

definition with_history :: "pipeline \<Rightarrow> environment \<Rightarrow> vlm_item \<Rightarrow> exn + string" where
  "with_history p env it =
     (case retriever p of
        None \<Rightarrow> Inr (item_prompt it)
      | Some r \<Rightarrow>
          if item_device_id it = '''' then Inr (item_prompt it)
          else case retrieve (clock_text env) (history_query env) r (item_device_id it)
                      (map class_name (item_detections it)) 0 (wall env) of
              Inl e \<Rightarrow> if is_exception e then Inr (item_prompt it) else Inl e
            | Inr c \<Rightarrow> if rag_items c = [] then Inr (item_prompt it)
                else Inr (item_prompt it @ [newline, newline] @ ''Historical context:'' @ [newline] @
                  format_for_prompt c))"

text \<open>The prompt with the conversation so far; the conversation is created at its first use.\<close>

definition with_conversation :: "pipeline \<Rightarrow> string \<Rightarrow> string \<Rightarrow> string \<times> pipeline" where
  "with_conversation p dev prompt =
     (case p_engine p of
        None \<Rightarrow> (prompt, p)
      | Some e \<Rightarrow>
          if dev = '''' then (prompt, p)
          else let (c, e1) = get_conversation e dev 10
               in (build_prompt c prompt, p\<lparr>p_engine := Some e1\<rparr>))"

definition record_turns :: "pipeline \<Rightarrow> vlm_item \<Rightarrow> string \<Rightarrow> pipeline" where
  "record_turns p it result =
     (case p_engine p of
        None \<Rightarrow> p
      | Some e \<Rightarrow>
          if item_device_id it = '''' then p
          else let (c, e1) = get_conversation e (item_device_id it) 10;
                   c1 = add_turn (add_turn c ''user'' (item_prompt it)) ''assistant'' (take 200 result)
               in p\<lparr>p_engine := Some (set_conversation e1 (item_device_id it) c1)\<rparr>)"

definition vlm_event :: "vlm_item \<Rightarrow> string \<Rightarrow> real \<Rightarrow> event" where
  "vlm_event it result now = \<lparr>ev_type = Some ''vlm_analysis'', ev_timestamp = Some now,
     ev_frame_id = Some (item_frame_id it), ev_trace_id = Some (item_trace_id it),
     ev_device_id = Some (item_device_id it), ev_detections = Some (item_detections it),
     ev_vlm_result = Some (take 200 result), ev_rule = Some (item_rule it), ev_extra = []\<rparr>"

text \<open>
  \<open>_apply_vlm_guidance\<close>; a parameter that is a number is sent as its text. \<open>pb\<close> says whether
  \<open>import neuro_pipeline_pb2\<close> succeeds; the import stands in the loop, after the counter was
  incremented, and its failure is caught around the loop.
\<close>

fun param_text :: "(param \<Rightarrow> string) \<Rightarrow> param \<Rightarrow> string" where
  "param_text num (P_Str s) = s"
| "param_text num v = num v"

definition command_of :: "(param \<Rightarrow> string) \<Rightarrow> command_dict \<Rightarrow> command" where
  "command_of num c = \<lparr>c_type = cmd_type c, c_id = cmd_id c,
     c_params = map (\<lambda>(k, v). (k, param_text num v)) (cmd_parameters c)\<rparr>"

fun send_adjustments :: "(param \<Rightarrow> string) \<Rightarrow> string \<Rightarrow> int \<Rightarrow> adjustment list \<Rightarrow> command list" where
  "send_adjustments num dev n [] = []"
| "send_adjustments num dev n (a # as) =
     command_of num (create_control_command a dev (n + 1)) # send_adjustments num dev (n + 1) as"

definition apply_vlm_guidance ::
    "bool \<Rightarrow> (param \<Rightarrow> string) \<Rightarrow> guide \<Rightarrow> string \<Rightarrow> string \<Rightarrow> pipeline \<Rightarrow> pipeline" where
  "apply_vlm_guidance pb num g result dev p =
     (let r = parse_vlm_result g result
      in case command_queue p of
          None \<Rightarrow> p
        | Some cs \<Rightarrow>
            if should_apply r \<and> \<not> pb then p\<lparr>command_counter := command_counter p + 1\<rparr>
            else if should_apply r
            then p\<lparr>command_queue := Some (cs @ send_adjustments num dev (command_counter p) (adjustments r)),
                   command_counter := command_counter p + int (length (adjustments r))\<rparr>
            else p)"

text \<open>The part of \<open>_process_item\<close> under \<open>try\<close>.\<close>

definition analysis ::
    "pipeline \<Rightarrow> environment \<Rightarrow> vlm_item \<Rightarrow> string option \<Rightarrow> (exn + string) \<times> pipeline" where
  "analysis p env it batch_result =
     (case with_history p env it of
        Inl e \<Rightarrow> (Inl e, p)
      | Inr prompt1 \<Rightarrow>
          let (prompt2, p1) = with_conversation p (item_device_id it) prompt1
          in case batch_result of
              Some r \<Rightarrow> (Inr r, p1)
            | None \<Rightarrow>
                if p_engine p1 = None
                then (Inl (Attribute_Error ''NoneType has no attribute analyze_image''), p1)
                else (answer env prompt2, p1\<lparr>engine_calls := engine_calls p1 @ [[prompt2]]\<rparr>))"

definition after_success ::
    "pipeline \<Rightarrow> environment \<Rightarrow> vlm_item \<Rightarrow> string \<Rightarrow> (exn + unit) \<times> pipeline" where
  "after_success p env it result =
     (let p1 = record_turns p it result;
          p2 = p1\<lparr>breaker := record_success (breaker p1),
                  bus := publish (bus p1) (db_event env) (db_point env) (vlm_event it result (wall env)) (wall env)\<rparr>;
          upload = cloud_on p2 \<and> item_frame_data it \<noteq> '''';
          p3 = (if upload \<and> upload_error env = None
                then p2\<lparr>uploaded := uploaded p2 @ [item_frame_id it]\<rparr> else p2)
      in case (if upload then upload_error env else None) of
          Some Cancelled_Error \<Rightarrow> (Inl Cancelled_Error, p3)
        | _ \<Rightarrow> (Inr (), (case config_guide p3 of
              None \<Rightarrow> p3
            | Some g \<Rightarrow> if item_device_id it = '''' then p3
                else apply_vlm_guidance (pb_importable env) (number_text env) g result (item_device_id it) p3)))"

definition after_failure :: "pipeline \<Rightarrow> environment \<Rightarrow> pipeline" where
  "after_failure p env =
     (let p1 = p\<lparr>breaker := record_failure (breaker p) (monotonic_end env)\<rparr>
      in if state (breaker p1) = Open \<and> alerts_on p1
         then p1\<lparr>alerts_started := alerts_started p1 @ [''circuit_breaker_open'']\<rparr> else p1)"

text \<open>
  \<open>except (TimeoutError, Exception)\<close> catches all but a cancellation; \<open>task_done\<close> is in the
  \<open>finally\<close> block.
\<close>

definition process_item ::
    "pipeline \<Rightarrow> environment \<Rightarrow> vlm_item \<Rightarrow> string option \<Rightarrow> (exn + unit) \<times> pipeline" where
  "process_item p env it batch_result =
     (let (ok, cb) = allow_request (breaker p) (monotonic env); p0 = p\<lparr>breaker := cb\<rparr>
      in if \<not> ok then (Inr (), task_done p0)
         else case analysis p0 env it batch_result of
             (Inl e, p1) \<Rightarrow>
               if is_exception e then (Inr (), task_done (after_failure p1 env))
               else (Inl e, task_done p1)
           | (Inr result, p1) \<Rightarrow>
               (case after_success p1 env it result of (r, p2) \<Rightarrow> (r, task_done p2)))"

subsection \<open>A round of the worker\<close>

fun process_items ::
    "string list option \<Rightarrow> nat \<Rightarrow> (vlm_item \<times> environment) list \<Rightarrow> pipeline \<Rightarrow> (exn + unit) \<times> pipeline" where
  "process_items results i [] p = (Inr (), p)"
| "process_items results i ((it, env) # rest) p =
     (let br = (case results of None \<Rightarrow> None | Some rs \<Rightarrow> if i < length rs then Some (rs ! i) else None)
      in case process_item p env it br of
          (Inl e, p1) \<Rightarrow> (Inl e, p1)
        | (Inr _, p1) \<Rightarrow> process_items results (Suc i) rest p1)"

text \<open>
  The batch is the first \<open>n\<close> items of the queue: one, and as many more, up to
  \<open>batch_max_size\<close>, as arrive before the deadline. \<open>batch\<close> is the engine's answer to a batch
  of frames and prompts, under its own timeout.
\<close>

definition batch_answer ::
    "(((string \<times> string) list) \<Rightarrow> exn + string list) \<Rightarrow> vlm_item list \<Rightarrow> pipeline
       \<Rightarrow> (exn + string list option) \<times> pipeline" where
  "batch_answer batch its p =
     (if p_engine p = None \<or> length its \<le> 1 then (Inr None, p)
      else let asked = map (\<lambda>it. (item_frame_data it, item_prompt it)) its;
               p1 = p\<lparr>engine_calls := engine_calls p @ [map snd asked]\<rparr>
           in case batch asked of
               Inr rs \<Rightarrow> (Inr (Some rs), p1)
             | Inl e \<Rightarrow> (if is_exception e then (Inr None, p1) else (Inl e, p1)))"

definition worker_round ::
    "(((string \<times> string) list) \<Rightarrow> exn + string list) \<Rightarrow> environment list \<Rightarrow> nat \<Rightarrow> pipeline
       \<Rightarrow> (exn + unit) \<times> pipeline" where
  "worker_round batch envs n p =
     (let its = take n (q_items (queue p));
          p1 = p\<lparr>queue := (queue p)\<lparr>q_items := drop n (q_items (queue p))\<rparr>\<rparr>
      in case batch_answer batch its p1 of
          (Inl e, p2) \<Rightarrow> (Inl e, p2)
        | (Inr results, p2) \<Rightarrow> process_items results 0 (zip its envs) p2)"

text \<open>
  The worker's sizes are at least one, at most what is queued, and at most \<open>batch_max_size\<close>
  (one item is taken even when that is not positive).
\<close>

record 'b round =
  round_batch :: 'b
  round_envs :: "environment list"
  round_size :: nat

text \<open>
  Rounds that work off \<open>k\<close> queued items; \<open>m\<close> is \<open>batch_max_size\<close>.
\<close>

fun covers :: "int \<Rightarrow> nat \<Rightarrow> 'b round list \<Rightarrow> bool" where
  "covers m k [] \<longleftrightarrow> k = 0"
| "covers m k (rd # rds) \<longleftrightarrow> k = 0 \<or>
     (1 \<le> round_size rd \<and> round_size rd \<le> k \<and> int (round_size rd) \<le> max 1 m \<and>
      length (round_envs rd) = round_size rd \<and> covers m (k - round_size rd) rds)"

text \<open>
  The drain of \<open>shutdown\<close>: \<open>join\<close> waits while tasks are unfinished and the worker goes on
  with the rounds that it manages before the timeout; then the worker is cancelled.
\<close>

fun drain :: "(((string \<times> string) list) \<Rightarrow> exn + string list) round list \<Rightarrow> pipeline \<Rightarrow> pipeline" where
  "drain [] p = p"
| "drain (rd # rds) p =
     (if unfinished (queue p) \<le> 0 then p
      else case worker_round (round_batch rd) (round_envs rd) (round_size rd) p of
          (Inl e, p1) \<Rightarrow> p1
        | (Inr _, p1) \<Rightarrow> drain rds p1)"

definition shutdown ::
    "(((string \<times> string) list) \<Rightarrow> exn + string list) round list \<Rightarrow> pipeline \<Rightarrow> pipeline" where
  "shutdown rounds p =
     (let p1 = (if worker_running p \<and> q_items (queue p) \<noteq> [] then drain rounds p else p)
      in p1\<lparr>worker_running := False\<rparr>)"

subsection \<open>Lemmas\<close>

lemma task_done_fields [simp]:
  "unfinished (queue (task_done p)) = unfinished (queue p) - 1"
  "q_items (queue (task_done p)) = q_items (queue p)" "q_max (queue (task_done p)) = q_max (queue p)"
  "breaker (task_done p) = breaker p" "bus (task_done p) = bus p"
  "engine_calls (task_done p) = engine_calls p" "command_queue (task_done p) = command_queue p"
  "command_counter (task_done p) = command_counter p" "p_engine (task_done p) = p_engine p"
  by (simp_all add: task_done_def)

lemma with_conversation_fields [simp]:
  "queue (snd (with_conversation p dev s)) = queue p"
  "breaker (snd (with_conversation p dev s)) = breaker p"
  "bus (snd (with_conversation p dev s)) = bus p"
  "engine_calls (snd (with_conversation p dev s)) = engine_calls p"
  "command_queue (snd (with_conversation p dev s)) = command_queue p"
  "command_counter (snd (with_conversation p dev s)) = command_counter p"
  "p_engine (snd (with_conversation p dev s)) = None \<longleftrightarrow> p_engine p = None"
  by (simp_all add: with_conversation_def split: option.splits prod.splits)

lemma analysis_fields:
  assumes "analysis p env it br = (r, p1)"
  shows "queue p1 = queue p \<and> breaker p1 = breaker p \<and> bus p1 = bus p \<and>
    command_queue p1 = command_queue p \<and> command_counter p1 = command_counter p"
  using assms
  by (auto simp: analysis_def split_beta split: sum.splits option.splits if_splits)

lemma record_turns_fields [simp]:
  "queue (record_turns p it s) = queue p" "breaker (record_turns p it s) = breaker p"
  "bus (record_turns p it s) = bus p" "engine_calls (record_turns p it s) = engine_calls p"
  "command_queue (record_turns p it s) = command_queue p"
  "command_counter (record_turns p it s) = command_counter p"
  by (simp_all add: record_turns_def Let_def split: option.splits prod.splits)

lemma guidance_fields [simp]:
  "queue (apply_vlm_guidance pb num g s dev p) = queue p"
  "breaker (apply_vlm_guidance pb num g s dev p) = breaker p"
  "bus (apply_vlm_guidance pb num g s dev p) = bus p"
  by (simp_all add: apply_vlm_guidance_def Let_def split: option.splits)

lemma after_success_fields:
  assumes "after_success p env it s = (r, p2)"
  shows "queue p2 = queue p \<and> breaker p2 = record_success (breaker p) \<and>
    bus p2 = publish (bus p) (db_event env) (db_point env) (vlm_event it s (wall env)) (wall env)"
  using assms
  by (auto simp: after_success_def Let_def split: option.splits exn.splits if_splits)

lemma after_failure_fields [simp]:
  "queue (after_failure p env) = queue p" "bus (after_failure p env) = bus p"
  "breaker (after_failure p env) = record_failure (breaker p) (monotonic_end env)"
  by (simp_all add: after_failure_def Let_def)

lemma process_item_queue:
  assumes "process_item p env it br = (r, p1)"
  shows "q_items (queue p1) = q_items (queue p) \<and> q_max (queue p1) = q_max (queue p) \<and>
    unfinished (queue p1) = unfinished (queue p) - 1"
proof (cases "allow_request (breaker p) (monotonic env)")
  case (Pair ok cb)
  then show ?thesis
    using assms
    by (auto simp: process_item_def Let_def split: if_splits prod.splits sum.splits
        dest!: analysis_fields after_success_fields)
qed

lemma process_items_queue:
  assumes "process_items results i xs p = (Inr (), p1)"
  shows "q_items (queue p1) = q_items (queue p) \<and> q_max (queue p1) = q_max (queue p) \<and>
    unfinished (queue p1) = unfinished (queue p) - int (length xs)"
  using assms
proof (induction xs arbitrary: i p)
  case (Cons x xs)
  obtain it env where x: "x = (it, env)" by (cases x)
  let ?br = "case results of None \<Rightarrow> None | Some rs \<Rightarrow> if i < length rs then Some (rs ! i) else None"
  obtain r p2 where r: "process_item p env it ?br = (r, p2)" by fastforce
  then have "r = Inr ()" "process_items results (Suc i) xs p2 = (Inr (), p1)"
    using Cons.prems by (auto simp: x Let_def split: sum.splits)
  with Cons.IH [of "Suc i" p2] process_item_queue [OF r] show ?case by simp
qed simp

lemma worker_round_ok:
  assumes r: "worker_round batch envs n p = (Inr u, p1)"
    and "length envs = n" and "n \<le> length (q_items (queue p))"
  shows "q_items (queue p1) = drop n (q_items (queue p))"
    and "q_max (queue p1) = q_max (queue p)"
    and "unfinished (queue p1) = unfinished (queue p) - int n"
proof -
  let ?p = "p\<lparr>queue := (queue p)\<lparr>q_items := drop n (q_items (queue p))\<rparr>\<rparr>"
  obtain b p2 where b: "batch_answer batch (take n (q_items (queue p))) ?p = (b, p2)" by fastforce
  then obtain results where "b = Inr results"
    using r by (cases b) (simp_all add: worker_round_def Let_def)
  with b r have i: "process_items results 0 (zip (take n (q_items (queue p))) envs) p2 = (Inr (), p1)"
    by (simp add: worker_round_def Let_def)
  have q: "queue p2 = queue ?p"
    using b by (auto simp: batch_answer_def Let_def split: if_splits sum.splits)
  from process_items_queue [OF i] assms(2,3) q
  show "q_items (queue p1) = drop n (q_items (queue p))" "q_max (queue p1) = q_max (queue p)"
    "unfinished (queue p1) = unfinished (queue p) - int n" by simp_all
qed

lemma process_item_raises:
  assumes "process_item p env it br = (Inl e, p1)"
  shows "\<not> is_exception e"
  using assms
  by (auto simp: process_item_def after_success_def Let_def
      split: if_splits prod.splits sum.splits option.splits exn.splits)

lemma process_items_raises:
  assumes "process_items results i xs p = (Inl e, p1)"
  shows "\<not> is_exception e"
  using assms
  by (induction results i xs p rule: process_items.induct)
    (auto simp: Let_def split: prod.splits sum.splits option.splits if_splits dest: process_item_raises)


lemma send_adjustments_ids:
  "map c_id (send_adjustments num dev n as) = map (\<lambda>i. n + 1 + int i) [0..<length as]"
  by (induction as arbitrary: n)
    (simp_all add: command_of_def create_control_command_def upt_conv_Cons map_Suc_upt [symmetric]
      del: upt_Suc)

lemma length_send_adjustments [simp]: "length (send_adjustments num dev n as) = length as"
  by (induction as arbitrary: n) simp_all

lemma send_adjustments_set:
  "c \<in> set (send_adjustments num dev n as) \<Longrightarrow>
   \<exists>a \<in> set as. \<exists>i. c = command_of num (create_control_command a dev i)"
  by (induction as arbitrary: n) auto

lemma engine_calls_prefix:
  "\<exists>xs. engine_calls (snd (process_item p env it br)) = engine_calls p @ xs"
proof -
  have a: "\<exists>xs. engine_calls p1 = engine_calls p0 @ xs" if "analysis p0 env it br = (r, p1)" for p0 r p1
    using that by (auto simp: analysis_def split_beta split: sum.splits option.splits if_splits)
  have g: "engine_calls (apply_vlm_guidance pb n g s d p0) = engine_calls p0" for pb n g s d p0
    by (simp add: apply_vlm_guidance_def Let_def split: option.splits)
  have s: "engine_calls p2 = engine_calls p1" if "after_success p1 env it s = (r, p2)" for p1 s r p2
    using that by (auto simp: after_success_def Let_def g split: option.splits exn.splits if_splits)
  have f: "engine_calls (after_failure p1 env) = engine_calls p1" for p1
    by (simp add: after_failure_def Let_def)
  show ?thesis
    by (auto simp: process_item_def Let_def f split: prod.splits sum.splits dest!: a s)
qed

lemma engine_calls_prefix_items:
  "\<exists>ys. engine_calls (snd (process_items results i xs p)) = engine_calls p @ ys"
proof (induction xs arbitrary: i p)
  case (Cons x xs)
  obtain it env where x: "x = (it, env)" by (cases x)
  let ?br = "case results of None \<Rightarrow> None | Some rs \<Rightarrow> if i < length rs then Some (rs ! i) else None"
  obtain r p2 where r: "process_item p env it ?br = (r, p2)" by fastforce
  then obtain zs where "engine_calls p2 = engine_calls p @ zs"
    using engine_calls_prefix [of p env it ?br] by auto
  then show ?case using Cons.IH [of "Suc i" p2] r by (auto simp: x Let_def split: sum.splits)
qed simp

subsection \<open>Properties\<close>

text \<open>
  Claim C5. A round of the worker that takes \<open>n\<close> items from the queue removes exactly the
  first \<open>n\<close> and marks each of them done exactly once, whether it was refused by the breaker,
  analysed, or failed, so that \<open>join\<close> returns when the queue is worked off; only the
  cancellation of the worker ends a round early.
\<close>

theorem worker_round_accounts:
  assumes r: "worker_round batch envs n p = (r, p1)"
    and "length envs = n" and "n \<le> length (q_items (queue p))"
  shows "(case r of
      Inr _ \<Rightarrow> q_items (queue p1) = drop n (q_items (queue p)) \<and>
        unfinished (queue p1) = unfinished (queue p) - int n \<and>
        (queue_ok (queue p) \<longrightarrow> queue_ok (queue p1))
    | Inl e \<Rightarrow> \<not> is_exception e)"
proof -
  let ?p = "p\<lparr>queue := (queue p)\<lparr>q_items := drop n (q_items (queue p))\<rparr>\<rparr>"
  obtain b p2 where b: "batch_answer batch (take n (q_items (queue p))) ?p = (b, p2)" by fastforce
  show ?thesis
  proof (cases b)
    case (Inl e)
    with r b have "r = Inl e" by (simp add: worker_round_def Let_def)
    with Inl b show ?thesis by (auto simp: batch_answer_def Let_def split: if_splits sum.splits)
  next
    case (Inr results)
    then have i: "process_items results 0 (zip (take n (q_items (queue p))) envs) p2 = (r, p1)"
      using r b by (simp add: worker_round_def Let_def)
    show ?thesis
    proof (cases r)
      case (Inl e)
      with i show ?thesis by (auto dest: process_items_raises)
    next
      case (Inr u)
      with worker_round_ok [OF _ assms(2,3), of batch u p1] r assms(3) show ?thesis
        by (auto simp: queue_ok_def)
    qed
  qed
qed

definition sample_item :: vlm_item where
  "sample_item = \<lparr>item_frame_data = ''jpg'', item_prompt = ''describe'', item_frame_id = 1,
     item_trace_id = ''t'', item_device_id = ''cam'', item_detections = [], item_rule = ''person''\<rparr>"

definition sample_env :: environment where
  "sample_env = \<lparr>answer = (\<lambda>_. Inr ''a quiet street''), monotonic = 1, monotonic_end = 2, wall = 3,
     db_event = busy_commit, db_point = busy_commit, history_query = None,
     clock_text = (\<lambda>_. ''12:00''), upload_error = None, number_text = (\<lambda>_. ''0''),
     pb_importable = True\<rparr>"

definition sample_pipeline :: pipeline where
  "sample_pipeline = (new_pipeline (enqueue (enqueue (new_vlm_queue 32) sample_item) sample_item)
     (new_event_bus None 100) None True False None None 8)\<lparr>p_engine := Some (new_engine ''stub'' None)\<rparr>"

theorem worker_round_accounts_witness:
  "case worker_round (\<lambda>its. Inl Timeout_Error) [sample_env, sample_env] 2 sample_pipeline of
     (Inr _, p1) \<Rightarrow> q_items (queue p1) = [] \<and> unfinished (queue p1) = 0
   | (Inl e, _) \<Rightarrow> e = Cancelled_Error"
proof -
  obtain r p1 where r: "worker_round (\<lambda>its. Inl Timeout_Error) [sample_env, sample_env] 2
      sample_pipeline = (r, p1)" by fastforce
  have "unfinished (queue sample_pipeline) = 2" "length (q_items (queue sample_pipeline)) = 2"
    by (simp_all add: sample_pipeline_def new_pipeline_def enqueue_def new_vlm_queue_def)
  moreover have "\<not> is_exception e \<longleftrightarrow> e = Cancelled_Error" for e by (cases e) simp_all
  ultimately show ?thesis
    using worker_round_accounts [OF r] by (auto simp: r split: sum.splits)
qed

text \<open>
  Claim C13. When the breaker admits an item, exactly one outcome is recorded: an answer closes
  the breaker's books with a success and publishes the event with the first 200 characters of
  the answer; an exception records a failure, publishes nothing and does not end the worker; a
  cancellation records neither, so that the probe of a half-open breaker stays without outcome.
\<close>

theorem item_outcome_recorded:
  assumes "allow_request (breaker p) (monotonic env) = (True, cb)"
    and "process_item p env it br = (r, p1)"
  shows "case fst (analysis (p\<lparr>breaker := cb\<rparr>) env it br) of
      Inr res \<Rightarrow> breaker p1 = record_success cb \<and>
        bus p1 = publish (bus p) (db_event env) (db_point env) (vlm_event it res (wall env)) (wall env)
    | Inl e \<Rightarrow> bus p1 = bus p \<and> command_queue p1 = command_queue p \<and>
        (if is_exception e then r = Inr () \<and> breaker p1 = record_failure cb (monotonic_end env)
         else r = Inl e \<and> breaker p1 = cb)"
proof -
  obtain a p0 where a: "analysis (p\<lparr>breaker := cb\<rparr>) env it br = (a, p0)" by fastforce
  have "command_queue (after_failure p' env) = command_queue p'" for p'
    by (simp add: after_failure_def Let_def)
  with assms a analysis_fields [OF a] show ?thesis
    by (auto simp: process_item_def Let_def split: sum.splits prod.splits if_splits
        dest!: after_success_fields)
qed

theorem item_outcome_recorded_witness:
  "breaker (snd (process_item sample_pipeline sample_env sample_item (Some ''a street''))) =
     record_success (breaker sample_pipeline)"
proof -
  obtain r p1 where p: "process_item sample_pipeline sample_env sample_item (Some ''a street'') = (r, p1)"
    by fastforce
  have closed: "allow_request (breaker sample_pipeline) (monotonic sample_env) = (True, breaker sample_pipeline)"
    by (simp add: sample_pipeline_def new_pipeline_def new_breaker_def)
  have "fst (analysis sample_pipeline sample_env sample_item (Some ''a street'')) = Inr ''a street''"
    by (simp add: analysis_def with_history_def with_conversation_def sample_pipeline_def
        new_pipeline_def split: prod.splits option.splits)
  with item_outcome_recorded [OF closed p] show ?thesis by (simp add: p)
qed

text \<open>
  An item that the breaker refuses is dropped without asking the engine, but a round
  of at least two items first sends all of them to the engine as one batch, whatever the state
  of the breaker, and with the plain prompts, without history and conversation.
\<close>

theorem batch_bypasses_breaker:
  assumes "\<not> fst (allow_request (breaker p) (monotonic env))"
    and "p_engine p \<noteq> None" and "1 < n" and "n \<le> length (q_items (queue p))"
  shows "engine_calls (snd (process_item p env it br)) = engine_calls p \<and>
    fst (process_item p env it br) = Inr () \<and> bus (snd (process_item p env it br)) = bus p \<and>
    (\<exists>rest. engine_calls (snd (worker_round batch envs n p)) =
       engine_calls p @ [map item_prompt (take n (q_items (queue p)))] @ rest)"
proof -
  let ?its = "take n (q_items (queue p))"
  let ?p = "p\<lparr>queue := (queue p)\<lparr>q_items := drop n (q_items (queue p))\<rparr>\<rparr>"
  obtain b p2 where b: "batch_answer batch ?its ?p = (b, p2)" by fastforce
  have "engine_calls p2 = engine_calls p @ [map item_prompt ?its]"
    using b assms(2-4) by (auto simp: batch_answer_def Let_def comp_def split: sum.splits if_splits)
  moreover have "\<exists>ys. engine_calls (snd (process_items rs 0 (zip ?its envs) p2)) =
      engine_calls p2 @ ys" for rs by (rule engine_calls_prefix_items)
  ultimately have "\<exists>rest. engine_calls (snd (worker_round batch envs n p)) =
       engine_calls p @ [map item_prompt ?its] @ rest"
    by (cases b) (auto simp: worker_round_def Let_def b)
  with assms(1) show ?thesis
    by (auto simp: process_item_def Let_def split: prod.splits)
qed

theorem batch_bypasses_breaker_witness:
  "\<exists>rest. engine_calls (snd (worker_round (\<lambda>its. Inl Timeout_Error) [sample_env, sample_env] 2
     (sample_pipeline\<lparr>breaker := record_failure (new_breaker 1 30 1) 0\<rparr>))) =
     [''describe'', ''describe''] # rest"
proof -
  let ?p = "sample_pipeline\<lparr>breaker := record_failure (new_breaker 1 30 1) 0\<rparr>"
  have "\<not> fst (allow_request (breaker ?p) (monotonic sample_env))"
    by (simp add: record_failure_def new_breaker_def allow_request_def Let_def sample_env_def)
  moreover have "p_engine ?p \<noteq> None" "engine_calls ?p = []"
    "q_items (queue ?p) = [sample_item, sample_item]"
    by (simp_all add: sample_pipeline_def new_pipeline_def enqueue_def new_vlm_queue_def)
  ultimately show ?thesis
    using batch_bypasses_breaker [of ?p sample_env 2 sample_item None "\<lambda>its. Inl Timeout_Error"
        "[sample_env, sample_env]"] by (simp add: sample_item_def)
qed

text \<open>
  The commands that the guide derives from an answer are appended to the command
  queue in order, with consecutive ids from the counter on, and there are at most
  \<open>max_adjustments_per_result\<close> of them; each is one of the three kinds with a reason of
  at most 200 characters. When the
  protobuf module cannot be imported under its top-level name, no command is ever sent, and
  only the counter moves.
\<close>

theorem guidance_commands:
  assumes "command_queue p = Some cs" and "0 \<le> max_adjustments g"
    and "p1 = apply_vlm_guidance True num g text dev p"
  shows "command_queue (apply_vlm_guidance False num g text dev p) = command_queue p \<and>
    (\<exists>new. command_queue p1 = Some (cs @ new) \<and>
    map c_id new = map (\<lambda>i. command_counter p + 1 + int i) [0..<length new] \<and>
    command_counter p1 = command_counter p + int (length new) \<and>
    int (length new) \<le> max_adjustments g \<and>
    (\<forall>c \<in> set new. c_type c \<in> {0, 7, 8} \<and>
       (\<exists>reason. map_of (c_params c) ''reason'' = Some reason \<and> length reason \<le> 200)))"
proof -
  let ?r = "parse_vlm_result g text"
  let ?new = "if should_apply ?r
    then send_adjustments num dev (command_counter p) (adjustments ?r) else []"
  have none: "\<not> should_apply ?r \<Longrightarrow> adjustments ?r = []"
    by (simp add: parse_vlm_result_def Let_def)
  have len: "length ?new = length (adjustments ?r)"
    using none by simp
  have reason: "c_type c \<in> {0, 7, 8} \<and>
      (\<exists>reason. map_of (c_params c) ''reason'' = Some reason \<and> length reason \<le> 200)" if "c \<in> set ?new" for c
  proof -
    from that obtain a i where a: "a \<in> set (adjustments ?r)"
      and c: "c = command_of num (create_control_command a dev i)"
      by (auto split: if_splits dest: send_adjustments_set)
    have "adjustment_ok g a" using a in_map_filter parse_recommendation_ok
      by (fastforce simp: parse_vlm_result_def Let_def)
    then show ?thesis
      by (cases "adj_type a") (auto simp: c command_of_def create_control_command_def
          to_command_params_def Let_def adjustment_ok_def)
  qed
  have "length (adjustments ?r) \<le> length (slice_to (extract_recommendations text) (max_adjustments g))"
    by (simp add: parse_vlm_result_def Let_def)
      (meson length_filter_le length_map_filter le_trans)
  with length_slice_to_le [OF assms(2), of "extract_recommendations text"]
  have "int (length ?new) \<le> max_adjustments g" using len by linarith
  moreover have "map c_id ?new = map (\<lambda>i. command_counter p + 1 + int i) [0..<length ?new]"
    by (simp add: send_adjustments_ids)
  moreover have "command_queue p1 = Some (cs @ ?new)"
    "command_counter p1 = command_counter p + int (length ?new)"
    using assms(1,3) none by (auto simp: apply_vlm_guidance_def Let_def)
  moreover have "command_queue (apply_vlm_guidance False num g text dev p) = command_queue p"
    by (simp add: apply_vlm_guidance_def Let_def split: option.splits)
  ultimately show ?thesis using reason by blast
qed

theorem guidance_commands_witness:
  "\<exists>new. command_queue (apply_vlm_guidance True (\<lambda>_. ''0'') default_guide ''1. Lower the threshold'' ''cam''
     (sample_pipeline\<lparr>command_queue := Some []\<rparr>)) = Some new \<and> length new \<le> 3"
  using guidance_commands [of "sample_pipeline\<lparr>command_queue := Some []\<rparr>" "[]" default_guide _
      "\<lambda>_. ''0''" "''1. Lower the threshold''" "''cam''", OF _ _ refl]
  by (auto simp: default_guide_def)

end
