(* ===== verification/Orchestrator.thy ===== *)
theory Orchestrator
  imports Vlm_Pipeline
begin

text \<open>
  The coordinator, \<open>pipeline/central_orchestrator.py\<close>, with the gauges of
  \<open>observability/metrics.py\<close> that the edge's health reports set. The queues, the bus and the
  engine are shared objects: the command queue, the VLM queue, the bus and the engine live in the
  pipeline's state, and the processor only knows whether there is an engine.
\<close>

subsection \<open>State\<close>

record orchestrator =
  model_path :: string
  inference_mode :: string
  vlm_model_path :: "string option"
  orch_alerts :: bool
  proc :: processor
  vlm :: pipeline
  gauges :: "((string \<times> string) \<times> pyfloat) list"
  alerts_sent :: "(string \<times> (string \<times> string) list) list"

definition new_orchestrator ::
    "string \<Rightarrow> vlm_rule list option \<Rightarrow> store option \<Rightarrow> string \<Rightarrow> string option \<Rightarrow> breaker option \<Rightarrow> bool
       \<Rightarrow> bool \<Rightarrow> int option \<Rightarrow> analyzer option \<Rightarrow> rag option \<Rightarrow> anomaly_baseline option \<Rightarrow> guide option
       \<Rightarrow> orchestrator" where
  "new_orchestrator path rs st mode vpath cb alerts cloud batch_max b r a g =
     (let bs = new_event_bus st 100;
          rs1 = (case rs of None \<Rightarrow> [default_rule] | Some [] \<Rightarrow> [default_rule] | Some xs \<Rightarrow> xs);
          n = (case batch_max of None \<Rightarrow> 8 | Some k \<Rightarrow> k)
      in \<lparr>model_path = path, inference_mode = mode, vlm_model_path = vpath, orch_alerts = alerts,
          proc = new_processor rs1 b a alerts,
          vlm = set_command_queue (new_pipeline (new_vlm_queue 32) bs cb alerts cloud r g n) (Some []),
          gauges = [], alerts_sent = []\<rparr>)"

definition set_inference_engine :: "orchestrator \<Rightarrow> engine \<Rightarrow> orchestrator" where
  "set_inference_engine s e =
     s\<lparr>proc := (proc s)\<lparr>has_engine := True\<rparr>, vlm := (vlm s)\<lparr>p_engine := Some e\<rparr>\<rparr>"

subsection \<open>Life cycle\<close>

text \<open>
  \<open>initialize\<close>: the engine is set before it is loaded, and the worker is started after it;
  the parameters are those of \<open>load_model\<close>.
\<close>

definition initialize ::
    "bool \<Rightarrow> load_result \<Rightarrow> bool \<Rightarrow> load_result \<Rightarrow> orchestrator \<Rightarrow> (exn + unit) \<times> orchestrator" where
  "initialize path_exists llm vlm_exists vlm_result s =
     (let (r, e) = load_model (new_engine (inference_mode s) (vlm_model_path s))
                     path_exists llm vlm_exists vlm_result;
          s1 = set_inference_engine s e
      in case r of Inl x \<Rightarrow> (Inl x, s1) | Inr _ \<Rightarrow> (Inr (), s1\<lparr>vlm := start (vlm s1)\<rparr>))"

definition is_ready :: "orchestrator \<Rightarrow> bool" where
  "is_ready s \<longleftrightarrow> (case p_engine (vlm s) of None \<Rightarrow> False | Some e \<Rightarrow> loaded e)"

definition stop_all ::
    "(((string \<times> string) list) \<Rightarrow> exn + string list) round list \<Rightarrow> orchestrator \<Rightarrow> orchestrator" where
  "stop_all rounds s =
     (let s1 = s\<lparr>proc := (proc s)\<lparr>shutting_down := True\<rparr>, vlm := shutdown rounds (vlm s)\<rparr>
      in case p_engine (vlm s1) of
          None \<Rightarrow> s1
        | Some e \<Rightarrow> s1\<lparr>vlm := (vlm s1)\<lparr>p_engine := Some (unload_model e)\<rparr>\<rparr>)"

subsection \<open>Detections and commands\<close>

definition process_detection ::
    "event_query option \<Rightarrow> (nat \<Rightarrow> (nat \<Rightarrow> db_attempt) \<times> (nat \<Rightarrow> db_attempt)) \<Rightarrow> detection_result \<Rightarrow> real
       \<Rightarrow> orchestrator \<Rightarrow> (exn + unit) \<times> orchestrator" where
  "process_detection st db res now s =
     (case process st db (proc s) (queue (vlm s)) (bus (vlm s)) res now of
        Inl e \<Rightarrow> (Inl e, s\<lparr>proc := (proc s)\<lparr>event_count := Suc (event_count (proc s))\<rparr>\<rparr>)
      | Inr r \<Rightarrow> (Inr (), s\<lparr>proc := proc_after r,
          vlm := (vlm s)\<lparr>queue := queue_after r, bus := bus_after r\<rparr>,
          alerts_sent := alerts_sent s @ map (\<lambda>a. (a, [(''frame_id'', str_int (frame_id res))])) (alert_tasks r)\<rparr>))"

definition pending :: "orchestrator \<Rightarrow> command list" where
  "pending s = (case command_queue (vlm s) of None \<Rightarrow> [] | Some cs \<Rightarrow> cs)"

definition send_command :: "command \<Rightarrow> orchestrator \<Rightarrow> orchestrator" where
  "send_command c s = s\<lparr>vlm := (vlm s)\<lparr>command_queue := Some (pending s @ [c])\<rparr>\<rparr>"

text \<open>\<open>get_pending_command\<close> waits while there is no command.\<close>

definition get_pending_command :: "orchestrator \<Rightarrow> command option \<times> orchestrator" where
  "get_pending_command s =
     (case pending s of
        [] \<Rightarrow> (None, s)
      | c # cs \<Rightarrow> (Some c, s\<lparr>vlm := (vlm s)\<lparr>command_queue := Some cs\<rparr>\<rparr>))"

definition guide_step ::
    "bool \<Rightarrow> (param \<Rightarrow> string) \<Rightarrow> guide \<Rightarrow> string \<Rightarrow> string \<Rightarrow> orchestrator \<Rightarrow> orchestrator" where
  "guide_step pb num g result dev s = s\<lparr>vlm := apply_vlm_guidance pb num g result dev (vlm s)\<rparr>"

subsection \<open>Events of the edge\<close>

text \<open>The protocol's \<open>EdgeEvent.EventType\<close>, with its numbers on the wire.\<close>

datatype edge_event_type = Detection_Alert | System_Error | Model_Loaded | Health_Update

fun wire_number :: "edge_event_type \<Rightarrow> int" where
  "wire_number Detection_Alert = 0"
| "wire_number System_Error = 1"
| "wire_number Model_Loaded = 2"
| "wire_number Health_Update = 3"

text \<open>
  An event object: protobuf gives the type as a number and has no \<open>device_id\<close>; the handler also
  takes objects whose type is a text or an enumeration, and that have a device.
\<close>

datatype type_value = Type_Number int | Type_Text string

datatype event_type = No_Type | Plain type_value | With_Value type_value | With_Name string

record edge_event =
  edge_type :: event_type
  edge_device :: "string option"
  edge_metadata :: "(string, string) pydict"

definition type_val :: "event_type \<Rightarrow> type_value option" where
  "type_val t = (case t of No_Type \<Rightarrow> None | Plain v \<Rightarrow> Some v | With_Value v \<Rightarrow> Some v
     | With_Name n \<Rightarrow> Some (Type_Text n))"

definition safe_set ::
    "string \<Rightarrow> string \<Rightarrow> string option \<Rightarrow> ((string \<times> string) \<times> pyfloat) list
       \<Rightarrow> ((string \<times> string) \<times> pyfloat) list" where
  "safe_set gauge dev v gs =
     (case v of None \<Rightarrow> gs
      | Some t \<Rightarrow> (case py_float t of None \<Rightarrow> gs | Some x \<Rightarrow> AList.update (gauge, dev) x gs))"

definition gauge_fields :: "(string \<times> string) list" where
  "gauge_fields = [(''np_edge_frames_processed'', ''frames_processed''),
     (''np_edge_detections_total'', ''detections_total''),
     (''np_edge_inference_errors'', ''inference_errors''), (''np_edge_fps'', ''fps''),
     (''np_edge_inference_latency_avg_ms'', ''inference_latency_avg_ms'')]"

definition update_edge_metrics ::
    "string \<Rightarrow> (string, string) pydict \<Rightarrow> ((string \<times> string) \<times> pyfloat) list
       \<Rightarrow> ((string \<times> string) \<times> pyfloat) list" where
  "update_edge_metrics dev meta gs =
     (if dev = '''' then gs
      else fold (\<lambda>(gauge, field). safe_set gauge dev (map_of meta field)) gauge_fields gs)"

definition merged :: "(string, string) pydict \<Rightarrow> (string, string) pydict \<Rightarrow> (string, string) pydict" where
  "merged a b = fold (\<lambda>(k, v). AList.update k v) b a"

definition event_device :: "edge_event \<Rightarrow> string" where
  "event_device ev = (case edge_device ev of Some d \<Rightarrow> d
     | None \<Rightarrow> (case map_of (edge_metadata ev) ''device_id'' of None \<Rightarrow> '''' | Some d \<Rightarrow> d))"

definition handle_edge_event :: "edge_event \<Rightarrow> orchestrator \<Rightarrow> orchestrator" where
  "handle_edge_event ev s =
     (let dev = event_device ev; t = type_val (edge_type ev)
      in if t \<in> {Some (Type_Number 1), Some (Type_Text ''HEALTH_UPDATE''), Some (Type_Text ''health_update'')}
         then s\<lparr>gauges := update_edge_metrics dev (edge_metadata ev) (gauges s)\<rparr>
         else if t \<in> {Some (Type_Number 2), Some (Type_Text ''SYSTEM_ERROR''), Some (Type_Text ''system_error'')}
              \<and> orch_alerts s
         then s\<lparr>alerts_sent := alerts_sent s @
                 [(''edge_system_error'', merged [(''device_id'', dev)] (edge_metadata ev))]\<rparr>
         else s)"

definition protobuf_event :: "edge_event_type \<Rightarrow> (string, string) pydict \<Rightarrow> edge_event" where
  "protobuf_event t meta = \<lparr>edge_type = Plain (Type_Number (wire_number t)), edge_device = None,
     edge_metadata = meta\<rparr>"

subsection \<open>Delegation\<close>

definition get_recent_events :: "orchestrator \<Rightarrow> int \<Rightarrow> string \<Rightarrow> event list" where
  "get_recent_events s limit dev = get_recent (bus (vlm s)) limit dev"

definition orch_subscribe :: "orchestrator \<Rightarrow> nat \<times> orchestrator" where
  "orch_subscribe s = (let (q, b) = subscribe (bus (vlm s)) in (q, s\<lparr>vlm := (vlm s)\<lparr>bus := b\<rparr>\<rparr>))"

definition orch_unsubscribe :: "nat \<Rightarrow> orchestrator \<Rightarrow> orchestrator" where
  "orch_unsubscribe q s = s\<lparr>vlm := (vlm s)\<lparr>bus := unsubscribe (bus (vlm s)) q\<rparr>\<rparr>"

definition set_rules :: "vlm_rule list \<Rightarrow> orchestrator \<Rightarrow> orchestrator" where
  "set_rules rs s = s\<lparr>proc := set_vlm_rules (proc s) rs\<rparr>"

subsection \<open>Lemmas\<close>

datatype command_op = Send command | Guide string string | Get

text \<open>A run of the clients of the command queue: what was taken from it, and the final state.\<close>

fun command_run ::
    "bool \<Rightarrow> (param \<Rightarrow> string) \<Rightarrow> guide \<Rightarrow> command_op list \<Rightarrow> orchestrator
       \<Rightarrow> command list \<times> orchestrator" where
  "command_run pb num g [] s = ([], s)"
| "command_run pb num g (Send c # ops) s = command_run pb num g ops (send_command c s)"
| "command_run pb num g (Guide text dev # ops) s =
     command_run pb num g ops (guide_step pb num g text dev s)"
| "command_run pb num g (Get # ops) s =
     (let (c, s1) = get_pending_command s; (cs, s2) = command_run pb num g ops s1
      in (case c of None \<Rightarrow> cs | Some x \<Rightarrow> x # cs, s2))"

text \<open>What the operations put into the queue, in order; \<open>n\<close> is the counter of the ids.\<close>

definition derived :: "bool \<Rightarrow> guide \<Rightarrow> string \<Rightarrow> adjustment list" where
  "derived pb g text = (if pb then adjustments (parse_vlm_result g text) else [])"

definition ids_used :: "bool \<Rightarrow> guide \<Rightarrow> string \<Rightarrow> int" where
  "ids_used pb g text = (let as = adjustments (parse_vlm_result g text)
     in if pb then int (length as) else if as = [] then 0 else 1)"

fun commands_sent ::
    "bool \<Rightarrow> (param \<Rightarrow> string) \<Rightarrow> guide \<Rightarrow> int \<Rightarrow> command_op list \<Rightarrow> command list" where
  "commands_sent pb num g n [] = []"
| "commands_sent pb num g n (Send c # ops) = c # commands_sent pb num g n ops"
| "commands_sent pb num g n (Guide text dev # ops) =
     send_adjustments num dev n (derived pb g text) @
     commands_sent pb num g (n + ids_used pb g text) ops"
| "commands_sent pb num g n (Get # ops) = commands_sent pb num g n ops"

lemma should_apply_iff: "should_apply (parse_vlm_result g text) \<longleftrightarrow> adjustments (parse_vlm_result g text) \<noteq> []"
  by (simp add: parse_vlm_result_def Let_def)

lemma guide_step_fields:
  assumes "command_queue (vlm s) = Some cs"
  shows "command_queue (vlm (guide_step pb num g text dev s)) =
      Some (cs @ send_adjustments num dev (command_counter (vlm s)) (derived pb g text))"
    and "command_counter (vlm (guide_step pb num g text dev s)) = command_counter (vlm s) + ids_used pb g text"
  using assms
  by (auto simp: guide_step_def apply_vlm_guidance_def derived_def ids_used_def should_apply_iff Let_def)

lemma drop_covered:
  assumes "process_items results i xs p = (r, p1)"
    and "\<forall>x \<in> set xs. \<forall>p br. \<exists>p2. process_item p (snd x) (fst x) br = (Inr (), p2)"
  shows "r = Inr ()"
  using assms
proof (induction xs arbitrary: i p)
  case (Cons x xs)
  obtain it env where x: "x = (it, env)" by (cases x)
  with Cons.prems(2) obtain p2 where
    "process_item p env it (case results of None \<Rightarrow> None | Some rs \<Rightarrow> if i < length rs then Some (rs ! i) else None)
      = (Inr (), p2)" by fastforce
  with Cons.prems show ?case by (auto simp: x Let_def intro: Cons.IH)
qed simp

text \<open>An environment, and a round, in which nothing is cancelled.\<close>

definition env_uncancelled :: "environment \<Rightarrow> bool" where
  "env_uncancelled env \<longleftrightarrow> (\<forall>s. answer env s \<noteq> Inl Cancelled_Error) \<and>
     upload_error env \<noteq> Some Cancelled_Error \<and>
     (\<forall>q a b c d. history_query env = Some q \<longrightarrow> q a b c d \<noteq> Inl Cancelled_Error)"

definition round_uncancelled ::
    "(((string \<times> string) list) \<Rightarrow> exn + string list) round \<Rightarrow> bool" where
  "round_uncancelled rd \<longleftrightarrow> (\<forall>its. round_batch rd its \<noteq> Inl Cancelled_Error) \<and>
     (\<forall>env \<in> set (round_envs rd). env_uncancelled env)"

lemma not_exception_iff: "\<not> is_exception e \<longleftrightarrow> e = Cancelled_Error"
  by (cases e) simp_all

lemma retrieve_raises:
  "retrieve ct (Some q) g dev ns hours now = Inl e \<Longrightarrow> \<exists>a b c d. q a b c d = Inl e"
  by (auto simp: retrieve_def Let_def split: sum.splits)

lemma analysis_uncancelled:
  assumes "env_uncancelled env" and "analysis p env it br = (Inl e, p1)"
  shows "is_exception e"
proof (rule ccontr)
  assume "\<not> is_exception e"
  then have e: "e = Cancelled_Error" by (simp add: not_exception_iff)
  have "with_history p env it \<noteq> Inl Cancelled_Error"
  proof
    assume "with_history p env it = Inl Cancelled_Error"
    then obtain r where "retrieve (clock_text env) (history_query env) r (item_device_id it)
        (map class_name (item_detections it)) 0 (wall env) = Inl Cancelled_Error"
      by (auto simp: with_history_def split: option.splits if_splits sum.splits)
    note raised = this
    then show False
    proof (cases "history_query env")
      case None
      with raised show False by (simp add: retrieve_def)
    next
      case (Some q)
      with raised obtain a b c d where "q a b c d = Inl Cancelled_Error"
        using retrieve_raises by metis
      with Some assms(1) show False by (auto simp: env_uncancelled_def)
    qed
  qed
  with assms show False
    by (auto simp: analysis_def e env_uncancelled_def split_beta split: sum.splits option.splits if_splits)
qed

lemma process_item_uncancelled:
  assumes "env_uncancelled env"
  shows "\<exists>p2. process_item p env it br = (Inr (), p2)"
  using assms analysis_uncancelled [OF assms]
  by (fastforce simp: process_item_def after_success_def Let_def env_uncancelled_def
      split: prod.splits sum.splits if_splits option.splits exn.splits)

lemma worker_round_uncancelled:
  assumes "round_uncancelled rd" and "worker_round (round_batch rd) (round_envs rd) n p = (r, p1)"
  shows "r = Inr ()"
proof -
  have "\<forall>x \<in> set (zip its (round_envs rd)). \<forall>p br. \<exists>p2. process_item p (snd x) (fst x) br = (Inr (), p2)"
    for its using assms(1) process_item_uncancelled
    by (auto simp: round_uncancelled_def dest: set_zip_rightD)
  then have i: "process_items rs 0 (zip its (round_envs rd)) p2 = (r', p3) \<Longrightarrow> r' = Inr ()" for rs its p2 r' p3
    using drop_covered by metis
  have "fst (batch_answer (round_batch rd) its p2) \<noteq> Inl e" for its p2 e
    using assms(1) by (auto simp: batch_answer_def Let_def round_uncancelled_def not_exception_iff
        split: sum.splits)
  with assms(2) i show ?thesis
    by (auto simp: worker_round_def Let_def split: prod.splits sum.splits) (metis fst_conv)
qed

lemma drain_works_off:
  assumes "covers m (length (q_items (queue p))) rounds" and "\<forall>rd \<in> set rounds. round_uncancelled rd"
    and "unfinished (queue p) = int (length (q_items (queue p)))"
  shows "q_items (queue (drain rounds p)) = [] \<and> unfinished (queue (drain rounds p)) = 0"
  using assms
proof (induction rounds arbitrary: p)
  case (Cons rd rds)
  show ?case
  proof (cases "q_items (queue p) = []")
    case False
    obtain r p1 where r: "worker_round (round_batch rd) (round_envs rd) (round_size rd) p = (r, p1)"
      by fastforce
    then have "r = Inr ()" using Cons.prems(2) by (intro worker_round_uncancelled [of rd]) simp_all
    moreover have "length (round_envs rd) = round_size rd" "round_size rd \<le> length (q_items (queue p))"
      "covers m (length (q_items (queue p)) - round_size rd) rds"
      using Cons.prems(1) False by auto
    moreover note worker_round_ok [OF r [unfolded \<open>r = Inr ()\<close>] calculation(2,3)]
    ultimately show ?thesis
      using Cons.IH [of p1] Cons.prems(2,3) r False by (simp add: of_nat_diff)
  qed (use Cons.prems in simp)
qed simp

lemma shutting_down_rejects:
  "shutting_down p \<Longrightarrow> request_vlm p q res = Inr (q1, alerts) \<Longrightarrow> q1 = q \<and> alerts = []"
  by (auto simp: request_vlm_def split: option.splits if_splits sum.splits)

subsection \<open>Properties\<close>

text \<open>
  Claim C23. Whatever the interleaving of the clients that send commands, of the VLM worker that
  derives commands from answers, and of the streams that take them, commands leave the queue in
  the order in which they entered it, each exactly once, and none is lost.
\<close>

theorem commands_fifo:
  assumes "command_queue (vlm s) = Some cs" and "command_run pb num g ops s = (taken, s1)"
  shows "taken @ pending s1 = cs @ commands_sent pb num g (command_counter (vlm s)) ops"
  using assms
proof (induction ops arbitrary: s cs taken)
  case Nil
  then show ?case by (simp add: pending_def)
next
  case (Cons op ops)
  show ?case
  proof (cases op)
    case (Send c)
    with Cons.prems Cons.IH [of "send_command c s" "cs @ [c]" taken] show ?thesis
      by (simp add: send_command_def pending_def)
  next
    case (Guide t dev)
    note f = guide_step_fields [OF Cons.prems(1), of pb num g t dev]
    from Guide Cons.prems(2) Cons.IH [OF f(1)] show ?thesis by (simp add: f(2))
  next
    case Get
    show ?thesis
    proof (cases cs)
      case Nil
      with Get Cons.prems Cons.IH [of s "[]"] show ?thesis
        by (auto simp: get_pending_command_def pending_def split: prod.splits)
    next
      case (Cons c cs1)
      let ?s = "s\<lparr>vlm := (vlm s)\<lparr>command_queue := Some cs1\<rparr>\<rparr>"
      obtain t2 s2 where t2: "command_run pb num g ops ?s = (t2, s2)" by fastforce
      with Cons Get Cons.prems have "taken = c # t2" "s1 = s2"
        by (simp_all add: get_pending_command_def pending_def)
      with Cons.IH [of ?s cs1 t2] t2 Cons Get show ?thesis by simp
    qed
  qed
qed

definition ping :: command where
  "ping = \<lparr>c_type = 3, c_id = 1, c_params = []\<rparr>"

definition fresh :: orchestrator where
  "fresh = new_orchestrator ''/models/none'' None None ''llm'' None None True False None None None None None"

theorem commands_fifo_witness:
  "fst (command_run True (\<lambda>_. ''0'') default_guide [Send ping, Send (ping\<lparr>c_id := 2\<rparr>), Get, Get, Get] fresh) =
     [ping, ping\<lparr>c_id := 2\<rparr>]"
proof -
  let ?ops = "[Send ping, Send (ping\<lparr>c_id := 2\<rparr>), Get, Get, Get]"
  obtain ts s1 where t: "command_run True (\<lambda>_. ''0'') default_guide ?ops fresh = (ts, s1)" by fastforce
  have q: "command_queue (vlm fresh) = Some []"
    by (simp add: fresh_def new_orchestrator_def set_command_queue_def Let_def)
  from t have "pending s1 = []"
    by (auto simp: send_command_def get_pending_command_def pending_def q split: prod.splits)
  with commands_fifo [OF q t] t show ?thesis by simp
qed

text \<open>
  The handler of edge events uses other numbers than the protocol: it ignores a
  health report that arrives as a protobuf message, it takes a system error for a health report,
  so that no alert goes out, and it raises the alert for system errors when a model was loaded.
\<close>

theorem edge_event_numbers_differ:
  "handle_edge_event (protobuf_event Health_Update meta) s = s \<and>
   handle_edge_event (protobuf_event System_Error meta) s =
     s\<lparr>gauges := update_edge_metrics (event_device (protobuf_event System_Error meta)) meta (gauges s)\<rparr> \<and>
   map fst (alerts_sent (handle_edge_event (protobuf_event Model_Loaded meta) (s\<lparr>orch_alerts := True\<rparr>))) =
     map fst (alerts_sent s) @ [''edge_system_error'']"
  by (simp add: handle_edge_event_def protobuf_event_def type_val_def Let_def)

text \<open>
  After \<open>initialize\<close> the server is ready, and the worker runs, exactly when the model
  was loaded or a stub took its place. A failed load leaves an engine behind that is not ready:
  from then on matching detections are queued although no worker takes them.
\<close>

theorem ready_iff_initialized:
  assumes "initialize path_exists llm vlm_exists vlm_result s = (r, s1)"
    and "\<not> worker_running (vlm s)"
  shows "(is_ready s1 \<longleftrightarrow> r = Inr ()) \<and> (worker_running (vlm s1) \<longleftrightarrow> r = Inr ()) \<and>
    has_engine (proc s1) \<and> p_engine (vlm s1) \<noteq> None \<and>
    (\<not> path_exists \<longrightarrow> r = Inr ()) \<and> queue (vlm s1) = queue (vlm s) \<and> bus (vlm s1) = bus (vlm s)"
  using assms
  by (auto simp: initialize_def set_inference_engine_def load_model_def new_engine_def start_def
      is_ready_def Let_def split: if_splits load_result.splits prod.splits)

theorem ready_iff_initialized_witness:
  "\<exists>s1. initialize True (Load_Raises (Os_Error ''no weights'')) False Not_Installed fresh =
     (Inl (Other_Error ''LLM load failed: no weights''), s1) \<and> \<not> is_ready s1 \<and> has_engine (proc s1)"
proof -
  obtain r s1 where i: "initialize True (Load_Raises (Os_Error ''no weights'')) False Not_Installed fresh =
      (r, s1)" by fastforce
  have "r = Inl (Other_Error ''LLM load failed: no weights'')"
    using i by (simp add: initialize_def load_model_def new_engine_def fresh_def new_orchestrator_def
        model_load_error_def Let_def split: prod.splits)
  moreover have "\<not> worker_running (vlm fresh)"
    by (simp add: fresh_def new_orchestrator_def new_pipeline_def set_command_queue_def Let_def)
  ultimately show ?thesis using ready_iff_initialized [OF i] i by auto
qed



end
