(* ===== verification/Device_Session.thy ===== *)
theory Device_Session
  imports Prelude
begin

text \<open>
  The device sessions of \<open>communication/device_session.py\<close>: registration with a limit on the
  number of devices, heartbeats, frame counters, removal, and the periodic clean-up that
  expires or marks stale. The dictionary \<open>_sessions\<close> is ordered, since
  \<open>list_sessions\<close> shows its order. The lemmas give the capacity invariant, the behaviour of
  registration on every branch, and what the clean-up removes and keeps.
\<close>

subsection \<open>State and operations\<close>

datatype session_status = Connected | Stale | Disconnected

record session =
  device_id :: string
  device_name :: string
  firmware_version :: string
  capabilities :: "string list"
  connected_at :: real
  last_heartbeat :: real
  frames_received :: int
  session_status :: session_status
  ab_test_group :: string
  model_version :: string

record session_manager =
  sessions :: "(string, session) pydict"
  heartbeat_interval :: real
  expiry_timeout :: real
  max_devices :: int

definition new_session_manager :: "real \<Rightarrow> real \<Rightarrow> int \<Rightarrow> session_manager" where
  "new_session_manager interval expiry maxd =
     \<lparr>sessions = [], heartbeat_interval = interval, expiry_timeout = expiry, max_devices = maxd\<rparr>"

definition new_session :: "string \<Rightarrow> string \<Rightarrow> string \<Rightarrow> string list \<Rightarrow> real \<Rightarrow> session" where
  "new_session did name fw caps now =
     \<lparr>device_id = did, device_name = name, firmware_version = fw, capabilities = caps,
      connected_at = now, last_heartbeat = now, frames_received = 0, session_status = Connected,
      ab_test_group = '''', model_version = ''''\<rparr>"

text \<open>
  A known device keeps its session; an empty name, firmware or capability list leaves the old
  value (\<open>capabilities\<close> is \<open>None\<close> when the caller gives none).
\<close>

definition refresh :: "session \<Rightarrow> string \<Rightarrow> string \<Rightarrow> string list option \<Rightarrow> real \<Rightarrow> session" where
  "refresh s name fw caps now =
     (let s1 = s\<lparr>last_heartbeat := now, session_status := Connected\<rparr>;
          s2 = (if name \<noteq> '''' then s1\<lparr>device_name := name\<rparr> else s1);
          s3 = (if fw \<noteq> '''' then s2\<lparr>firmware_version := fw\<rparr> else s2)
      in case caps of
           Some (c # cs) \<Rightarrow> s3\<lparr>capabilities := c # cs\<rparr>
         | _ \<Rightarrow> s3)"

definition register ::
    "session_manager \<Rightarrow> string \<Rightarrow> string \<Rightarrow> string \<Rightarrow> string list option \<Rightarrow> real
       \<Rightarrow> bool \<times> session_manager" where
  "register m did name fw caps now =
     (case map_of (sessions m) did of
        Some s \<Rightarrow>
          (True, m\<lparr>sessions := AList.update did (refresh s name fw caps now) (sessions m)\<rparr>)
      | None \<Rightarrow>
          if int (length (sessions m)) \<ge> max_devices m then (False, m)
          else (True, m\<lparr>sessions := AList.update did
                  (new_session did name fw (case caps of None \<Rightarrow> [] | Some cs \<Rightarrow> cs) now)
                  (sessions m)\<rparr>))"

definition heartbeat :: "session_manager \<Rightarrow> string \<Rightarrow> real \<Rightarrow> session_manager" where
  "heartbeat m did now =
     (case map_of (sessions m) did of
        None \<Rightarrow> m
      | Some s \<Rightarrow> m\<lparr>sessions := AList.update did
            (s\<lparr>last_heartbeat := now, session_status := Connected\<rparr>) (sessions m)\<rparr>)"

definition increment_frames :: "session_manager \<Rightarrow> string \<Rightarrow> int \<Rightarrow> session_manager" where
  "increment_frames m did cnt =
     (case map_of (sessions m) did of
        None \<Rightarrow> m
      | Some s \<Rightarrow> m\<lparr>sessions := AList.update did
            (s\<lparr>frames_received := frames_received s + cnt\<rparr>) (sessions m)\<rparr>)"

definition unregister :: "session_manager \<Rightarrow> string \<Rightarrow> session_manager" where
  "unregister m did = m\<lparr>sessions := AList.delete did (sessions m)\<rparr>"

definition expired_at :: "session_manager \<Rightarrow> real \<Rightarrow> session \<Rightarrow> bool" where
  "expired_at m now s \<longleftrightarrow> now - last_heartbeat s > expiry_timeout m"

definition age_session :: "session_manager \<Rightarrow> real \<Rightarrow> session \<Rightarrow> session" where
  "age_session m now s =
     (if now - last_heartbeat s > heartbeat_interval m * 2
      then s\<lparr>session_status := Stale\<rparr> else s)"

text \<open>
  The loop over a snapshot of the items deletes each expired session and ages the others in
  place: one pass over the list.
\<close>

fun cleanup_loop ::
    "session_manager \<Rightarrow> real \<Rightarrow> (string, session) pydict \<Rightarrow> string list \<times> (string, session) pydict"
where
  "cleanup_loop m now [] = ([], [])"
| "cleanup_loop m now ((did, s) # rest) =
     (let (expired, kept) = cleanup_loop m now rest
      in if expired_at m now s then (did # expired, kept)
         else (expired, (did, age_session m now s) # kept))"

definition cleanup_expired :: "session_manager \<Rightarrow> real \<Rightarrow> string list \<times> session_manager" where
  "cleanup_expired m now =
     (let (expired, kept) = cleanup_loop m now (sessions m)
      in (expired, m\<lparr>sessions := kept\<rparr>))"

definition get_session :: "session_manager \<Rightarrow> string \<Rightarrow> session option" where
  "get_session m did = map_of (sessions m) did"

definition list_sessions :: "session_manager \<Rightarrow> session list" where
  "list_sessions m = map snd (sessions m)"

definition device_count :: "session_manager \<Rightarrow> int" where
  "device_count m = int (length (sessions m))"

datatype session_op =
    Register string string string "string list option" real
  | Heartbeat string real
  | Frames string int
  | Unregister string
  | Cleanup real

fun session_step :: "session_manager \<Rightarrow> session_op \<Rightarrow> session_manager" where
  "session_step m (Register did name fw caps now) = snd (register m did name fw caps now)"
| "session_step m (Heartbeat did now) = heartbeat m did now"
| "session_step m (Frames did cnt) = increment_frames m did cnt"
| "session_step m (Unregister did) = unregister m did"
| "session_step m (Cleanup now) = snd (cleanup_expired m now)"

lemmas session_defs = register_def heartbeat_def increment_frames_def unregister_def
  get_session_def list_sessions_def device_count_def

subsection \<open>The clean-up pass\<close>

lemma cleanup_loop_eq:
  "cleanup_loop m now d =
     (map fst (filter (\<lambda>p. expired_at m now (snd p)) d),
      map (\<lambda>p. (fst p, age_session m now (snd p))) (filter (\<lambda>p. \<not> expired_at m now (snd p)) d))"
  by (induction d) (auto split: prod.splits)

lemma cleanup_expired_eq:
  "cleanup_expired m now =
     (map fst (filter (\<lambda>p. expired_at m now (snd p)) (sessions m)),
      m\<lparr>sessions := map (\<lambda>p. (fst p, age_session m now (snd p)))
          (filter (\<lambda>p. \<not> expired_at m now (snd p)) (sessions m))\<rparr>)"
  by (simp add: cleanup_expired_def cleanup_loop_eq)

lemma age_session_id [simp]:
  "device_id (age_session m now s) = device_id s"
  "last_heartbeat (age_session m now s) = last_heartbeat s"
  "frames_received (age_session m now s) = frames_received s"
  by (simp_all add: age_session_def)

lemma map_of_map_filter:
  "distinct (map fst d) \<Longrightarrow>
     map_of (map (\<lambda>p. (fst p, f (snd p))) (filter (\<lambda>p. P (snd p)) d)) k =
       (case map_of d k of None \<Rightarrow> None | Some v \<Rightarrow> if P v then Some (f v) else None)"
proof (induction d)
  case Nil
  then show ?case by simp
next
  case (Cons p d)
  have "map_of d (fst p) = None" using Cons.prems by (simp add: map_of_eq_None_iff)
  then show ?case using Cons by (cases p) (auto split: option.splits)
qed

subsection \<open>The invariant\<close>

definition sessions_inv :: "session_manager \<Rightarrow> bool" where
  "sessions_inv m \<longleftrightarrow> dict_ok (sessions m) \<and>
     (\<forall>p \<in> set (sessions m). device_id (snd p) = fst p) \<and>
     int (length (sessions m)) \<le> max 0 (max_devices m)"

lemma sessions_inv_new: "sessions_inv (new_session_manager interval expiry maxd)"
  by (simp add: sessions_inv_def new_session_manager_def)

lemma device_id_refresh [simp]: "device_id (refresh s name fw caps now) = device_id s"
  by (simp add: refresh_def Let_def split: option.split list.split)

lemma device_id_new_session [simp]: "device_id (new_session did name fw caps now) = did"
  by (simp add: new_session_def)

lemma sessions_inv_update_old:
  assumes "sessions_inv m" and "map_of (sessions m) did = Some s" and "device_id s' = device_id s"
  shows "sessions_inv (m\<lparr>sessions := AList.update did s' (sessions m)\<rparr>)"
proof -
  have "device_id s' = did"
    using assms map_of_SomeD [OF assms(2)] by (fastforce simp: sessions_inv_def)
  then show ?thesis
    using assms length_update_old [of "sessions m" did s'] set_update_old_subset [of did s' "sessions m"]
    by (fastforce simp: sessions_inv_def)
qed

lemma sessions_inv_register: "sessions_inv m \<Longrightarrow> sessions_inv (snd (register m did name fw caps now))"
proof (cases "map_of (sessions m) did")
  case None
  assume inv: "sessions_inv m"
  let ?s = "new_session did name fw (case caps of None \<Rightarrow> [] | Some cs \<Rightarrow> cs) now"
  show ?thesis
  proof (cases "int (length (sessions m)) \<ge> max_devices m")
    case True
    with None inv show ?thesis by (simp add: register_def)
  next
    case False
    have "int (length (AList.update did ?s (sessions m))) \<le> max 0 (max_devices m)"
      using False by (simp add: length_update_new [OF None])
    then show ?thesis
      using False None inv set_update_old_subset [of did ?s "sessions m"]
      by (fastforce simp: register_def sessions_inv_def)
  qed
next
  case (Some s)
  assume "sessions_inv m"
  from sessions_inv_update_old [OF this Some] Some show ?thesis by (simp add: register_def)
qed

lemma sessions_inv_step:
  assumes "sessions_inv m"
  shows "sessions_inv (session_step m op)"
  using assms
proof (cases op)
  case (Register did name fw caps now)
  then show ?thesis using assms by (simp add: sessions_inv_register)
next
  case (Heartbeat did now)
  then show ?thesis
    using assms by (simp add: heartbeat_def sessions_inv_update_old split: option.split)
next
  case (Frames did cnt)
  then show ?thesis
    using assms by (simp add: increment_frames_def sessions_inv_update_old split: option.split)
next
  case (Unregister did)
  then show ?thesis
    using assms length_delete_le [of did "sessions m"] set_delete_subset [of did "sessions m"]
    by (auto simp: unregister_def sessions_inv_def simp del: length_delete_le)
next
  case (Cleanup now)
  let ?kept = "filter (\<lambda>p. \<not> expired_at m now (snd p)) (sessions m)"
  have "distinct (map fst ?kept)"
    using assms by (simp add: sessions_inv_def dict_ok_def distinct_map_filter)
  moreover have "int (length ?kept) \<le> max 0 (max_devices m)"
    using assms length_filter_le [of "\<lambda>p. \<not> expired_at m now (snd p)" "sessions m"]
    unfolding sessions_inv_def by linarith
  ultimately show ?thesis
    using assms Cleanup
    by (auto simp: cleanup_expired_eq sessions_inv_def dict_ok_def comp_def)
qed

interpretation session: kept_invariant session_step sessions_inv
  by unfold_locales (rule sessions_inv_step)

lemma session_step_config [simp]:
  "max_devices (session_step m op) = max_devices m"
  "expiry_timeout (session_step m op) = expiry_timeout m"
  "heartbeat_interval (session_step m op) = heartbeat_interval m"
  by (cases op; simp add: session_defs cleanup_expired_eq split: option.split)+

lemma session_run_config [simp]: "max_devices (foldl session_step m ops) = max_devices m"
  by (induction ops arbitrary: m) simp_all

subsection \<open>Registration and expiry\<close>

lemma register_known:
  "map_of (sessions m) did = Some s \<Longrightarrow>
     fst (register m did name fw caps now) \<and>
     map_of (sessions (snd (register m did name fw caps now))) did =
       Some (refresh s name fw caps now) \<and>
     map fst (sessions (snd (register m did name fw caps now))) = map fst (sessions m)"
  by (simp add: register_def map_fst_update)

lemma register_full:
  "map_of (sessions m) did = None \<Longrightarrow> max_devices m \<le> int (length (sessions m)) \<Longrightarrow>
     register m did name fw caps now = (False, m)"
  by (simp add: register_def)

lemma register_room:
  "map_of (sessions m) did = None \<Longrightarrow> int (length (sessions m)) < max_devices m \<Longrightarrow>
     fst (register m did name fw caps now) \<and>
     sessions (snd (register m did name fw caps now)) =
       sessions m @ [(did, new_session did name fw (case caps of None \<Rightarrow> [] | Some cs \<Rightarrow> cs) now)]"
  by (simp add: register_def update_new)

lemma register_other:
  "k \<noteq> did \<Longrightarrow>
     map_of (sessions (snd (register m did name fw caps now))) k = map_of (sessions m) k"
  by (simp add: register_def split: option.split)

lemma cleanup_lookup:
  "dict_ok (sessions m) \<Longrightarrow>
     map_of (sessions (snd (cleanup_expired m now))) k =
       (case map_of (sessions m) k of None \<Rightarrow> None
        | Some s \<Rightarrow> if expired_at m now s then None else Some (age_session m now s))"
  using map_of_map_filter [of "sessions m" "age_session m now" "\<lambda>s. \<not> expired_at m now s" k]
  by (auto simp: cleanup_expired_eq dict_ok_def split: option.splits)

lemma cleanup_names:
  "dict_ok (sessions m) \<Longrightarrow>
     did \<in> set (fst (cleanup_expired m now)) \<longleftrightarrow>
       (\<exists>s. map_of (sessions m) did = Some s \<and> expired_at m now s)"
  by (force simp: cleanup_expired_eq dict_ok_def)

subsection \<open>Properties\<close>

text \<open>
  Claim C8. Capacity: after any sequence of registrations, heartbeats, frame counts,
  removals and clean-ups, a manager built for \<open>maxd\<close> devices holds at most \<open>maxd\<close> sessions,
  each stored under its own device id, no id twice.
\<close>

theorem session_capacity:
  assumes "m = foldl session_step (new_session_manager interval expiry maxd) ops"
  shows "device_count m \<le> max 0 maxd \<and> distinct (map fst (sessions m)) \<and>
         map device_id (list_sessions m) = map fst (sessions m)"
proof -
  have "sessions_inv m"
    unfolding assms by (rule session.run_keeps) (rule sessions_inv_new)
  moreover have "max_devices m = maxd"
    by (simp add: assms new_session_manager_def)
  ultimately show ?thesis
    by (auto simp: sessions_inv_def dict_ok_def device_count_def list_sessions_def)
qed

theorem session_capacity_witness:
  "device_count (foldl session_step (new_session_manager 10 30 1)
     [Register ''a'' '''' '''' None 0, Register ''b'' '''' '''' None 1]) \<le> 1"
  using session_capacity [OF refl, of 10 30 1
      "[Register ''a'' '''' '''' None 0, Register ''b'' '''' '''' None 1]"] by simp

text \<open>
  Registration on every branch: a known device is always accepted and keeps its
  counters, connection time, place and any field the call leaves empty; an unknown device is
  appended with a fresh session when there is room, and refused without any change when the
  limit is reached. Other devices are never touched.
\<close>

theorem register_branches:
  "(case map_of (sessions m) did of
      Some s \<Rightarrow>
        fst (register m did name fw caps now) \<and>
        map fst (sessions (snd (register m did name fw caps now))) = map fst (sessions m) \<and>
        (\<exists>s'. get_session (snd (register m did name fw caps now)) did = Some s' \<and>
           last_heartbeat s' = now \<and> session_status s' = Connected \<and>
           connected_at s' = connected_at s \<and> frames_received s' = frames_received s \<and>
           device_name s' = (if name = '''' then device_name s else name) \<and>
           firmware_version s' = (if fw = '''' then firmware_version s else fw) \<and>
           capabilities s' = (case caps of Some (c # cs) \<Rightarrow> c # cs | _ \<Rightarrow> capabilities s))
    | None \<Rightarrow>
        if int (length (sessions m)) < max_devices m
        then fst (register m did name fw caps now) \<and>
             sessions (snd (register m did name fw caps now)) = sessions m @
               [(did, new_session did name fw (case caps of None \<Rightarrow> [] | Some cs \<Rightarrow> cs) now)]
        else register m did name fw caps now = (False, m)) \<and>
   (\<forall>k. k \<noteq> did \<longrightarrow>
      get_session (snd (register m did name fw caps now)) k = get_session m k)"
proof (cases "map_of (sessions m) did")
  case None
  then show ?thesis
    using register_full [OF None, of name fw caps now] register_room [OF None, of name fw caps now]
    by (simp add: get_session_def register_other)
next
  case (Some s)
  from register_known [OF Some, of name fw caps now] show ?thesis
    by (auto simp: Some get_session_def register_other refresh_def Let_def
        split: option.split list.split)
qed

theorem register_branches_witness:
  "register (snd (register (new_session_manager 10 30 1) ''a'' '''' '''' None 0))
     ''b'' '''' '''' None 1 =
   (False, snd (register (new_session_manager 10 30 1) ''a'' '''' '''' None 0))"
  using register_branches
    [of "snd (register (new_session_manager 10 30 1) ''a'' '''' '''' None 0)" "''b''"
        "''''" "''''" None 1]
  by (simp add: register_def new_session_manager_def)



text \<open>
  A device that keeps its heartbeat does not expire: after a heartbeat at time
  \<open>now\<close>, a clean-up no later than \<open>expiry_timeout\<close> after it keeps the session and its
  counters, and keeps it connected within two heartbeat intervals.
\<close>

theorem heartbeat_keeps_session:
  assumes "dict_ok (sessions m)" and "get_session m did = Some s"
    and "later - now \<le> expiry_timeout m"
  shows "\<exists>s'. get_session (snd (cleanup_expired (heartbeat m did now) later)) did = Some s' \<and>
            frames_received s' = frames_received s \<and>
            (later - now \<le> heartbeat_interval m * 2 \<longrightarrow> session_status s' = Connected)"
proof -
  have "dict_ok (sessions (heartbeat m did now))"
    using assms(1) by (simp add: heartbeat_def split: option.split)
  then show ?thesis
    using assms(2,3)
    by (simp add: get_session_def cleanup_lookup heartbeat_def expired_at_def age_session_def)
qed

theorem heartbeat_keeps_session_witness:
  "\<exists>s'. get_session (snd (cleanup_expired (heartbeat
      (snd (register (new_session_manager 10 30 4) ''a'' '''' '''' None 0)) ''a'' 100) 105)) ''a''
    = Some s' \<and> session_status s' = Connected"
proof -
  let ?m = "snd (register (new_session_manager 10 30 4) ''a'' '''' '''' None 0)"
  have m: "sessions ?m = [(''a'', new_session ''a'' '''' '''' [] 0)]"
    "expiry_timeout ?m = 30" "heartbeat_interval ?m = 10"
    by (simp_all add: register_def new_session_manager_def)
  then have "dict_ok (sessions ?m)" "get_session ?m ''a'' = Some (new_session ''a'' '''' '''' [] 0)"
    by (simp_all add: dict_ok_def get_session_def)
  from heartbeat_keeps_session [OF this, of 105 100] m show ?thesis by auto
qed

end
