(* ===== verification/Rate_Limiter.thy ===== *)
theory Rate_Limiter
  imports Prelude
begin

text \<open>
  The per-device token bucket of \<open>communication/rate_limiter.py\<close>, asked by the gRPC
  servicer for every detection message. Each device key has a bucket of at most \<open>burst\<close>
  tokens that refills at \<open>max_per_sec\<close> tokens per second. The lemmas give the bound on
  the tokens, the isolation of devices from each other, and the rate bound: in any interval a
  device is granted at most \<open>burst + rate * duration\<close> requests.
\<close>

subsection \<open>State and operations\<close>

record bucket =
  bucket_burst :: int
  refill_rate :: real
  tokens :: real
  last_refill :: real

definition new_bucket :: "int \<Rightarrow> real \<Rightarrow> real \<Rightarrow> bucket" where
  "new_bucket burst rate now =
     \<lparr>bucket_burst = burst, refill_rate = rate, tokens = real_of_int burst, last_refill = now\<rparr>"

definition consume :: "bucket \<Rightarrow> real \<Rightarrow> bool \<times> bucket" where
  "consume b now =
     (let elapsed = now - last_refill b;
          t = min (real_of_int (bucket_burst b)) (tokens b + elapsed * refill_rate b);
          b1 = b\<lparr>tokens := t, last_refill := now\<rparr>
      in if t \<ge> 1 then (True, b1\<lparr>tokens := t - 1\<rparr>) else (False, b1))"

record limiter =
  max_per_sec :: real
  burst :: int
  buckets :: "(string, bucket) pydict"

definition new_limiter :: "real \<Rightarrow> int \<Rightarrow> limiter" where
  "new_limiter rate brst = \<lparr>max_per_sec = rate, burst = brst, buckets = []\<rparr>"

definition limiter_key :: "string \<Rightarrow> string" where
  "limiter_key device_id = (if device_id = '''' then ''__global__'' else device_id)"

text \<open>
  \<open>now\<close> is the clock both when a bucket is created and when it is consumed from; the two
  readings of the code follow each other under the lock.
\<close>

definition allow :: "limiter \<Rightarrow> string \<Rightarrow> real \<Rightarrow> bool \<times> limiter" where
  "allow l device_id now =
     (let key = limiter_key device_id;
          bs = (if map_of (buckets l) key = None
                then AList.update key (new_bucket (burst l) (max_per_sec l) now) (buckets l)
                else buckets l);
          (ok, b1) = consume (the (map_of bs key)) now
      in (ok, l\<lparr>buckets := AList.update key b1 bs\<rparr>))"

definition update_limits :: "limiter \<Rightarrow> real \<Rightarrow> int \<Rightarrow> limiter" where
  "update_limits l rate brst = l\<lparr>max_per_sec := rate, burst := brst, buckets := []\<rparr>"

lemmas consume_defs = consume_def Let_def

subsection \<open>One bucket\<close>

definition bucket_ok :: "bucket \<Rightarrow> bool" where
  "bucket_ok b \<longleftrightarrow> 0 \<le> bucket_burst b \<and> 0 \<le> refill_rate b \<and>
     0 \<le> tokens b \<and> tokens b \<le> real_of_int (bucket_burst b)"

lemma bucket_ok_new: "0 \<le> brst \<Longrightarrow> 0 \<le> rate \<Longrightarrow> bucket_ok (new_bucket brst rate now)"
  by (simp add: bucket_ok_def new_bucket_def)

lemma consume_config [simp]:
  "bucket_burst (snd (consume b now)) = bucket_burst b"
  "refill_rate (snd (consume b now)) = refill_rate b"
  "last_refill (snd (consume b now)) = now"
  by (simp_all add: consume_defs)

lemma bucket_ok_consume:
  assumes "bucket_ok b" and "last_refill b \<le> now"
  shows "bucket_ok (snd (consume b now))"
proof -
  have "0 \<le> (now - last_refill b) * refill_rate b"
    using assms by (simp add: bucket_ok_def)
  then show ?thesis
    using assms by (auto simp: bucket_ok_def consume_defs min_def)
qed

interpretation bucket: guarded_invariant
  "\<lambda>b now. snd (consume b now)" bucket_ok "\<lambda>b now. last_refill b \<le> now"
  by unfold_locales (rule bucket_ok_consume)

text \<open>What a grant costs: the tokens after a request pay for the grant out of the refill.\<close>

lemma consume_cost:
  "tokens (snd (consume b now)) + (if fst (consume b now) then 1 else 0)
     \<le> tokens b + (now - last_refill b) * refill_rate b"
  by (auto simp: consume_defs min_def)

fun consume_all :: "bucket \<Rightarrow> real list \<Rightarrow> nat \<times> bucket" where
  "consume_all b [] = (0, b)"
| "consume_all b (t # ts) =
     (let (ok, b1) = consume b t; (n, b2) = consume_all b1 ts
      in ((if ok then Suc n else n), b2))"

lemma consume_all_Cons [simp]:
  "fst (consume_all b (t # ts)) =
     (if fst (consume b t) then Suc (fst (consume_all (snd (consume b t)) ts))
      else fst (consume_all (snd (consume b t)) ts))"
  "snd (consume_all b (t # ts)) = snd (consume_all (snd (consume b t)) ts)"
  by (simp_all split: prod.splits)

declare consume_all.simps(2) [simp del]

lemma consume_all_cost:
  "tokens (snd (consume_all b ts)) + real (fst (consume_all b ts))
     \<le> tokens b + (last_refill (snd (consume_all b ts)) - last_refill b) * refill_rate b"
proof (induction ts arbitrary: b)
  case Nil
  then show ?case by simp
next
  case (Cons t ts)
  let ?b1 = "snd (consume b t)"
  have "tokens (snd (consume_all ?b1 ts)) + real (fst (consume_all ?b1 ts))
      \<le> tokens ?b1 + (last_refill (snd (consume_all ?b1 ts)) - t) * refill_rate b"
    using Cons.IH [of ?b1] by simp
  then show ?case
    using consume_cost [of b t] by (simp add: algebra_simps split: if_splits)
qed

lemma guarded_times: "bucket.guarded_run b ts \<longleftrightarrow> sorted (last_refill b # ts)"
  by (induction ts arbitrary: b) auto

lemma foldl_consume_all: "foldl (\<lambda>b now. snd (consume b now)) b ts = snd (consume_all b ts)"
  by (induction ts arbitrary: b) simp_all

lemma last_refill_consume_all: "last_refill (snd (consume_all b ts)) = last (last_refill b # ts)"
  by (induction ts arbitrary: b) simp_all

lemma consume_all_bound:
  assumes "bucket_ok b" and "sorted (last_refill b # ts)"
  shows "real (fst (consume_all b ts))
           \<le> real_of_int (bucket_burst b) + (last (last_refill b # ts) - last_refill b) * refill_rate b"
proof -
  have "bucket_ok (foldl (\<lambda>b now. snd (consume b now)) b ts)"
    by (rule bucket.guarded_run_keeps) (use assms in \<open>simp_all only: guarded_times\<close>)
  then have "0 \<le> tokens (snd (consume_all b ts))"
    by (simp add: foldl_consume_all bucket_ok_def)
  then show ?thesis
    using consume_all_cost [of b ts] assms(1)
    by (simp add: last_refill_consume_all bucket_ok_def split del: if_split)
qed

subsection \<open>The limiter: requests of several devices\<close>

fun allow_requests :: "limiter \<Rightarrow> (string \<times> real) list \<Rightarrow> bool list \<times> limiter" where
  "allow_requests l [] = ([], l)"
| "allow_requests l ((d, t) # rs) =
     (let (ok, l1) = allow l d t; (oks, l2) = allow_requests l1 rs in (ok # oks, l2))"

lemma allow_requests_Cons [simp]:
  "fst (allow_requests l ((d, t) # rs)) =
     fst (allow l d t) # fst (allow_requests (snd (allow l d t)) rs)"
  "snd (allow_requests l ((d, t) # rs)) = snd (allow_requests (snd (allow l d t)) rs)"
  by (simp_all split: prod.splits)

declare allow_requests.simps(2) [simp del]

definition granted :: "string \<Rightarrow> (string \<times> real) list \<Rightarrow> bool list \<Rightarrow> nat" where
  "granted key rs oks =
     length (filter (\<lambda>(r, ok). ok \<and> limiter_key (fst r) = key) (zip rs oks))"

definition times_of :: "string \<Rightarrow> (string \<times> real) list \<Rightarrow> real list" where
  "times_of key rs = map snd (filter (\<lambda>r. limiter_key (fst r) = key) rs)"

lemma granted_Cons:
  "granted key ((d, t) # rs) (ok # oks) =
     (if ok \<and> limiter_key d = key then Suc (granted key rs oks) else granted key rs oks)"
  by (simp add: granted_def)

lemma times_of_simps [simp]:
  "times_of key [] = []"
  "times_of key ((d, t) # rs) = (if limiter_key d = key then t # times_of key rs else times_of key rs)"
  by (simp_all add: times_of_def)

lemma allow_config [simp]:
  "max_per_sec (snd (allow l d now)) = max_per_sec l" "burst (snd (allow l d now)) = burst l"
  by (simp_all add: allow_def Let_def split: prod.splits)

lemma allow_other:
  "limiter_key d \<noteq> key \<Longrightarrow> map_of (buckets (snd (allow l d now))) key = map_of (buckets l) key"
  by (auto simp: allow_def Let_def split: prod.splits)

lemma allow_existing:
  "map_of (buckets l) (limiter_key d) = Some b \<Longrightarrow>
     fst (allow l d now) = fst (consume b now) \<and>
     map_of (buckets (snd (allow l d now))) (limiter_key d) = Some (snd (consume b now))"
  by (auto simp: allow_def Let_def split: prod.splits)

lemma allow_first:
  "map_of (buckets l) (limiter_key d) = None \<Longrightarrow>
     fst (allow l d now) = fst (consume (new_bucket (burst l) (max_per_sec l) now) now) \<and>
     map_of (buckets (snd (allow l d now))) (limiter_key d) =
       Some (snd (consume (new_bucket (burst l) (max_per_sec l) now) now))"
  by (auto simp: allow_def Let_def split: prod.splits)

text \<open>
  Isolation: what a device is granted is what its own bucket grants to its own requests,
  whatever the other devices send in between.
\<close>

lemma granted_existing:
  assumes "map_of (buckets l) key = Some b"
  shows "granted key rs (fst (allow_requests l rs)) = fst (consume_all b (times_of key rs))"
  using assms
proof (induction rs arbitrary: l b)
  case Nil
  then show ?case by (simp add: granted_def)
next
  case (Cons r rs)
  obtain d t where r: "r = (d, t)" by fastforce
  let ?l1 = "snd (allow l d t)"
  show ?case
  proof (cases "limiter_key d = key")
    case True
    then have *: "fst (allow l d t) = fst (consume b t)"
      "map_of (buckets ?l1) key = Some (snd (consume b t))"
      using Cons.prems allow_existing [of l d b t] by auto
    show ?thesis
      using Cons.IH [OF *(2)] *(1) True
      by (simp add: r granted_Cons)
  next
    case False
    then have "map_of (buckets ?l1) key = Some b"
      using Cons.prems by (simp add: allow_other)
    from Cons.IH [OF this] False show ?thesis
      by (simp add: r granted_Cons)
  qed
qed

lemma granted_fresh:
  assumes "map_of (buckets l) key = None"
  shows "granted key rs (fst (allow_requests l rs)) =
           (case times_of key rs of [] \<Rightarrow> 0
            | t # ts \<Rightarrow> fst (consume_all (new_bucket (burst l) (max_per_sec l) t) (t # ts)))"
  using assms
proof (induction rs arbitrary: l)
  case Nil
  then show ?case by (simp add: granted_def)
next
  case (Cons r rs)
  obtain d t where r: "r = (d, t)" by fastforce
  let ?l1 = "snd (allow l d t)"
  let ?b = "new_bucket (burst l) (max_per_sec l) t"
  show ?case
  proof (cases "limiter_key d = key")
    case True
    then have *: "fst (allow l d t) = fst (consume ?b t)"
      "map_of (buckets ?l1) key = Some (snd (consume ?b t))"
      using Cons.prems allow_first [of l d t] by auto
    show ?thesis
      using granted_existing [OF *(2), of rs] *(1) True
      by (simp add: r granted_Cons)
  next
    case False
    then have "map_of (buckets ?l1) key = None"
      using Cons.prems by (simp add: allow_other)
    from Cons.IH [OF this] False show ?thesis
      by (simp add: r granted_Cons split: list.split)
  qed
qed

text \<open>A device that has no bucket yet is granted the burst and what is refilled in its time.\<close>

lemma granted_bound:
  assumes "0 \<le> burst l" and "0 \<le> max_per_sec l" and "map_of (buckets l) key = None"
    and "sorted (times_of key rs)"
    and "\<forall>t \<in> set (times_of key rs). t0 \<le> t \<and> t \<le> t1" and "t0 \<le> t1"
  shows "real (granted key rs (fst (allow_requests l rs)))
           \<le> real_of_int (burst l) + max_per_sec l * (t1 - t0)"
proof (cases "times_of key rs")
  case Nil
  then show ?thesis using assms granted_fresh [of l key rs] by simp
next
  case (Cons t ts)
  then have "sorted (t # t # ts)" using assms(4) by simp
  then have "real (fst (consume_all (new_bucket (burst l) (max_per_sec l) t) (t # ts)))
      \<le> real_of_int (burst l) + (last (t # ts) - t) * max_per_sec l"
    using consume_all_bound [OF bucket_ok_new [OF assms(1,2)], of t "t # ts"]
    by (simp add: new_bucket_def)
  also have "last (t # ts) - t \<le> t1 - t0"
    using assms(5) Cons last_in_set [of "t # ts"] by fastforce
  then have "(last (t # ts) - t) * max_per_sec l \<le> (t1 - t0) * max_per_sec l"
    using assms(2) by (rule mult_right_mono)
  finally show ?thesis
    using granted_fresh [OF assms(3), of rs] by (simp add: Cons mult.commute)
qed

subsection \<open>Properties\<close>



text \<open>
  Devices are isolated: the answers to the requests of one device, from a limiter in
  any state, are those its own bucket gives to the same requests alone.
\<close>

theorem rate_limit_isolation:
  assumes "map_of (buckets l) key = Some b"
  shows "granted key rs (fst (allow_requests l rs)) =
           granted key (filter (\<lambda>r. limiter_key (fst r) = key) rs)
             (fst (allow_requests l (filter (\<lambda>r. limiter_key (fst r) = key) rs)))"
  using granted_existing [OF assms] by (simp add: times_of_def)

theorem rate_limit_isolation_witness:
  "granted ''a'' [(''b'', 1), (''a'', 2)]
     (fst (allow_requests (snd (allow (new_limiter 1 1) ''a'' 0)) [(''b'', 1), (''a'', 2)])) =
   granted ''a'' [(''a'', 2)]
     (fst (allow_requests (snd (allow (new_limiter 1 1) ''a'' 0)) [(''a'', 2)]))"
proof -
  have "map_of (buckets (snd (allow (new_limiter 1 1) ''a'' 0))) ''a'' =
      Some (snd (consume (new_bucket 1 1 0) 0))"
    using allow_first [of "new_limiter 1 1" "''a''" 0]
    by (simp add: new_limiter_def limiter_key_def)
  from rate_limit_isolation [OF this, of "[(''b'', 1), (''a'', 2)]"] show ?thesis
    by (simp add: limiter_key_def)
qed

end
