(* ===== verification/Model_Registry.thy ===== *)
theory Model_Registry
  imports Py_Text
begin

text \<open>
  The model registry of \<open>model_management/model_registry.py\<close> and the gRPC actions of
  \<open>communication/model_actions.py\<close> that drive it. The registry keeps one record per model
  id, a limit of deployed models per device, and a history of actions. The lemmas give the
  capacity invariant and where it fails, the rollback laws and the response to each action.
\<close>

subsection \<open>State and operations\<close>

datatype model_status = Pending | Deployed | Failed | Undeployed

fun status_value :: "model_status \<Rightarrow> string" where
  "status_value Pending = ''pending''"
| "status_value Deployed = ''deployed''"
| "status_value Failed = ''failed''"
| "status_value Undeployed = ''undeployed''"

record model_record =
  model_id :: string
  model_path :: string
  model_type :: string
  version :: string
  metadata :: "(string, string) pydict"
  model_status :: model_status
  deployed_at :: real
  target_device_id :: string
  npu_core :: int
  previous_version :: "string option"

datatype history_entry =
    Deploy_Entry string string real
  | Undeploy_Entry string real
  | Rollback_Entry string string string real

record registry =
  models :: "(string, model_record) pydict"
  max_models_per_device :: int
  history :: "history_entry list"

definition new_registry :: "int \<Rightarrow> registry" where
  "new_registry limit = \<lparr>models = [], max_models_per_device = limit, history = []\<rparr>"

definition deployed_on :: "registry \<Rightarrow> string \<Rightarrow> model_record list" where
  "deployed_on r dev =
     filter (\<lambda>m. target_device_id m = dev \<and> model_status m = Deployed) (map snd (models r))"

definition deploy ::
    "registry \<Rightarrow> string \<Rightarrow> string \<Rightarrow> string \<Rightarrow> string \<Rightarrow> string \<Rightarrow> int
       \<Rightarrow> (string, string) pydict \<Rightarrow> real \<Rightarrow> bool \<times> registry" where
  "deploy r mid path mtype ver dev core meta now =
     (if (case map_of (models r) mid of None \<Rightarrow> False | Some m \<Rightarrow> model_status m = Deployed)
      then (False, r)
      else if int (length (deployed_on r dev)) \<ge> max_models_per_device r then (False, r)
      else
        let rec0 = \<lparr>model_id = mid, model_path = path, model_type = mtype, version = ver,
                metadata = meta, model_status = Deployed, deployed_at = now,
                target_device_id = dev, npu_core = core, previous_version = None\<rparr>;
            rec1 = (case map_of (models r) mid of None \<Rightarrow> rec0
                    | Some old \<Rightarrow> rec0\<lparr>previous_version := Some (version old)\<rparr>)
        in (True, r\<lparr>models := AList.update mid rec1 (models r),
                   history := history r @ [Deploy_Entry mid ver now]\<rparr>))"

definition undeploy :: "registry \<Rightarrow> string \<Rightarrow> real \<Rightarrow> bool \<times> registry" where
  "undeploy r mid now =
     (case map_of (models r) mid of
        None \<Rightarrow> (False, r)
      | Some m \<Rightarrow>
          (True, r\<lparr>models := AList.update mid (m\<lparr>model_status := Undeployed\<rparr>) (models r),
                  history := history r @ [Undeploy_Entry mid now]\<rparr>))"

text \<open>An empty previous version counts as none, as \<open>not record.previous_version\<close> does.\<close>

definition rollback :: "registry \<Rightarrow> string \<Rightarrow> real \<Rightarrow> bool \<times> registry" where
  "rollback r mid now =
     (case map_of (models r) mid of
        None \<Rightarrow> (False, r)
      | Some m \<Rightarrow>
          (case previous_version m of
             None \<Rightarrow> (False, r)
           | Some prev \<Rightarrow>
               if prev = '''' then (False, r)
               else (True, r\<lparr>models := AList.update mid
                        (m\<lparr>version := prev, previous_version := Some (version m),
                           deployed_at := now, model_status := Deployed\<rparr>) (models r),
                      history := history r @ [Rollback_Entry mid (version m) prev now]\<rparr>)))"

definition get_model :: "registry \<Rightarrow> string \<Rightarrow> model_record option" where
  "get_model r mid = map_of (models r) mid"

definition list_models :: "registry \<Rightarrow> string \<Rightarrow> model_status option \<Rightarrow> model_record list" where
  "list_models r dev st =
     (let ms = map snd (models r);
          ms1 = (if dev \<noteq> '''' then filter (\<lambda>m. target_device_id m = dev) ms else ms)
      in case st of None \<Rightarrow> ms1 | Some s \<Rightarrow> filter (\<lambda>m. model_status m = s) ms1)"

definition model_count :: "registry \<Rightarrow> string \<Rightarrow> nat" where
  "model_count r dev =
     (if dev \<noteq> ''''
      then length (filter (\<lambda>m. target_device_id m = dev \<and> model_status m = Deployed)
                     (map snd (models r)))
      else length (filter (\<lambda>m. model_status m = Deployed) (map snd (models r))))"

datatype registry_op =
    Do_Deploy string string string string string int "(string, string) pydict" real
  | Do_Undeploy string real
  | Do_Rollback string real

fun registry_step :: "registry \<Rightarrow> registry_op \<Rightarrow> registry" where
  "registry_step r (Do_Deploy mid path mtype ver dev core meta now) =
     snd (deploy r mid path mtype ver dev core meta now)"
| "registry_step r (Do_Undeploy mid now) = snd (undeploy r mid now)"
| "registry_step r (Do_Rollback mid now) = snd (rollback r mid now)"

lemmas registry_defs = deploy_def undeploy_def rollback_def get_model_def Let_def

subsection \<open>gRPC actions\<close>

text \<open>
  A request carries the action number of the protocol; \<open>pb\<close> is the generated protobuf
  module, from which the code takes the numbers of the five actions.
\<close>

record pb_actions =
  pb_DEPLOY :: int
  pb_UNDEPLOY :: int
  pb_LIST :: int
  pb_ROLLBACK :: int
  pb_STATUS :: int

record model_info =
  info_id :: string
  info_path :: string
  info_type :: string
  info_version :: string
  info_metadata :: "(string, string) pydict"

record manage_request =
  req_action :: int
  req_model :: model_info
  req_device :: string
  req_core :: int

record manage_response =
  success :: bool
  message :: string
  infos :: "model_info list"

definition info_of :: "model_record \<Rightarrow> model_info" where
  "info_of m = \<lparr>info_id = model_id m, info_path = model_path m, info_type = model_type m,
     info_version = version m, info_metadata = metadata m\<rparr>"

definition reply :: "bool \<Rightarrow> string \<Rightarrow> string \<Rightarrow> manage_response" where
  "reply ok yes no = \<lparr>success = ok, message = (if ok then yes else no), infos = []\<rparr>"

definition action_deploy :: "registry \<Rightarrow> manage_request \<Rightarrow> real \<Rightarrow> manage_response \<times> registry" where
  "action_deploy r q now =
     (let m = req_model q;
          (ok, r1) = deploy r (info_id m) (info_path m) (info_type m) (info_version m)
                       (req_device q) (req_core q) (info_metadata m) now
      in (reply ok ''Deployed'' ''Deploy failed'', r1))"

definition action_undeploy :: "registry \<Rightarrow> manage_request \<Rightarrow> real \<Rightarrow> manage_response \<times> registry" where
  "action_undeploy r q now =
     (let (ok, r1) = undeploy r (info_id (req_model q)) now
      in (reply ok ''Undeployed'' ''Undeploy failed'', r1))"

definition action_list :: "registry \<Rightarrow> manage_request \<Rightarrow> manage_response" where
  "action_list r q =
     (let ms = list_models r (req_device q) None
      in \<lparr>success = True, message = dec (length ms) @ '' models'', infos = map info_of ms\<rparr>)"

definition action_rollback :: "registry \<Rightarrow> manage_request \<Rightarrow> real \<Rightarrow> manage_response \<times> registry" where
  "action_rollback r q now =
     (let (ok, r1) = rollback r (info_id (req_model q)) now
      in (reply ok ''Rolled back'' ''Rollback failed'', r1))"

definition action_status :: "registry \<Rightarrow> manage_request \<Rightarrow> manage_response" where
  "action_status r q =
     (case get_model r (info_id (req_model q)) of
        None \<Rightarrow> \<lparr>success = False, message = ''Model not found'', infos = []\<rparr>
      | Some m \<Rightarrow>
          \<lparr>success = True, message = status_value (model_status m),
           infos = [(info_of m)\<lparr>info_metadata :=
              AList.update ''status'' (status_value (model_status m)) (metadata m)\<rparr>]\<rparr>)"

text \<open>
  The dictionary of handlers is built in the order deploy, undeploy, list, rollback, status;
  with distinct numbers the look-up is this cascade.
\<close>

definition handle_model_action ::
    "pb_actions \<Rightarrow> registry \<Rightarrow> manage_request \<Rightarrow> real \<Rightarrow> manage_response \<times> registry" where
  "handle_model_action pb r q now =
     (if req_action q = pb_STATUS pb then (action_status r q, r)
      else if req_action q = pb_ROLLBACK pb then action_rollback r q now
      else if req_action q = pb_LIST pb then (action_list r q, r)
      else if req_action q = pb_UNDEPLOY pb then action_undeploy r q now
      else if req_action q = pb_DEPLOY pb then action_deploy r q now
      else (\<lparr>success = False, message = ''Unknown action: '' @ str_int (req_action q), infos = []\<rparr>, r))"

subsection \<open>The capacity invariant\<close>

definition ids_ok :: "(string, model_record) pydict \<Rightarrow> bool" where
  "ids_ok d \<longleftrightarrow> (\<forall>p \<in> set d. model_id (snd p) = fst p)"

definition registry_inv :: "registry \<Rightarrow> bool" where
  "registry_inv r \<longleftrightarrow> dict_ok (models r) \<and>
     ids_ok (models r) \<and>
     (\<forall>dev. int (length (deployed_on r dev)) \<le> max 0 (max_models_per_device r))"

text \<open>Deployed records of a device after one record of the dictionary is replaced.\<close>

definition is_on :: "string \<Rightarrow> model_record \<Rightarrow> bool" where
  "is_on dev m \<longleftrightarrow> target_device_id m = dev \<and> model_status m = Deployed"

lemma deployed_on_eq: "deployed_on r dev = filter (is_on dev) (map snd (models r))"
  by (simp add: deployed_on_def is_on_def cong: filter_cong)

lemma length_filter_update_new:
  "map_of d k = None \<Longrightarrow>
     length (filter P (map snd (AList.update k v d))) =
       length (filter P (map snd d)) + (if P v then 1 else 0)"
  by (simp add: update_new)

lemma length_filter_update_old:
  "distinct (map fst d) \<Longrightarrow> map_of d k = Some w \<Longrightarrow>
     length (filter P (map snd (AList.update k v d))) + (if P w then 1 else 0) =
       length (filter P (map snd d)) + (if P v then 1 else 0)"
proof (induction d)
  case Nil
  then show ?case by simp
next
  case (Cons p d)
  then show ?case by (cases p) (auto split: if_splits)
qed

lemma registry_inv_new: "registry_inv (new_registry limit)"
  by (simp add: registry_inv_def new_registry_def deployed_on_def ids_ok_def)

lemma ids_ok_update [simp]: "ids_ok d \<Longrightarrow> model_id m = k \<Longrightarrow> ids_ok (AList.update k m d)"
  unfolding ids_ok_def by (rule update_values) auto

lemma ids_ok_lookup: "ids_ok d \<Longrightarrow> map_of d k = Some m \<Longrightarrow> model_id m = k"
  by (fastforce simp: ids_ok_def dest: map_of_SomeD)

lemma registry_inv_undeploy: "registry_inv r \<Longrightarrow> registry_inv (snd (undeploy r mid now))"
proof (cases "map_of (models r) mid")
  case None
  then show "registry_inv r \<Longrightarrow> ?thesis" by (simp add: undeploy_def)
next
  case (Some m)
  assume inv: "registry_inv r"
  let ?m = "m\<lparr>model_status := Undeployed\<rparr>"
  have "length (filter (is_on dev) (map snd (AList.update mid ?m (models r))))
      \<le> length (deployed_on r dev)" for dev
    using length_filter_update_old [OF _ Some, of "is_on dev" ?m] inv
    by (simp add: registry_inv_def dict_ok_def deployed_on_eq is_on_def split: if_splits)
  then have "int (length (filter (is_on dev) (map snd (AList.update mid ?m (models r)))))
      \<le> max 0 (max_models_per_device r)" for dev
    using inv unfolding registry_inv_def by (meson of_nat_mono order_trans)
  then show ?thesis
    using inv Some ids_ok_lookup [OF _ Some]
    by (simp add: undeploy_def registry_inv_def deployed_on_eq)
qed

lemma registry_inv_deploy:
  assumes inv: "registry_inv r"
  shows "registry_inv (snd (deploy r mid path mtype ver dev core meta now))"
proof (cases "fst (deploy r mid path mtype ver dev core meta now)")
  case False
  with inv show ?thesis by (simp add: deploy_def Let_def split: if_splits option.splits)
next
  case True
  let ?r1 = "snd (deploy r mid path mtype ver dev core meta now)"
  obtain m where m: "models ?r1 = AList.update mid m (models r)" "model_id m = mid"
    "target_device_id m = dev"
    using True by (auto simp: deploy_def Let_def split: if_splits option.splits)
  have room: "int (length (deployed_on r dev)) < max_models_per_device r"
    using True by (auto simp: deploy_def split: if_splits)
  have "int (length (filter (is_on d) (map snd (AList.update mid m (models r)))))
      \<le> max 0 (max_models_per_device r)" for d
  proof (cases "map_of (models r) mid")
    case None
    then show ?thesis
      using inv room m(3) length_filter_update_new [OF None, of "is_on d" m]
      by (cases "d = dev") (auto simp: registry_inv_def deployed_on_eq is_on_def)
  next
    case (Some old)
    then have "\<not> is_on d old"
      using True by (auto simp: deploy_def is_on_def split: if_splits)
    then show ?thesis
      using inv room m(3) length_filter_update_old [OF _ Some, of "is_on d" m]
      by (cases "d = dev") (auto simp: registry_inv_def dict_ok_def deployed_on_eq is_on_def)
  qed
  moreover have "max_models_per_device ?r1 = max_models_per_device r"
    by (simp add: deploy_def Let_def split: option.split)
  ultimately show ?thesis
    using inv by (simp add: registry_inv_def deployed_on_eq m)
qed

text \<open>
  A rollback keeps the invariant when it changes the version of a model that is deployed
  already; it does not look at the limit, so reviving an undeployed model may break it.
\<close>

definition rollback_in_place :: "registry \<Rightarrow> registry_op \<Rightarrow> bool" where
  "rollback_in_place r op \<longleftrightarrow>
     (case op of
        Do_Rollback mid now \<Rightarrow>
          (case map_of (models r) mid of None \<Rightarrow> True | Some m \<Rightarrow> model_status m = Deployed)
      | _ \<Rightarrow> True)"

lemma registry_inv_rollback:
  assumes inv: "registry_inv r" and ok: "rollback_in_place r (Do_Rollback mid now)"
  shows "registry_inv (snd (rollback r mid now))"
proof (cases "fst (rollback r mid now)")
  case False
  with inv show ?thesis by (simp add: rollback_def split: if_splits option.splits)
next
  case True
  then obtain m prev where m: "map_of (models r) mid = Some m" "previous_version m = Some prev"
    and prev: "prev \<noteq> ''''"
    by (auto simp: rollback_def split: option.splits if_splits)
  let ?m = "m\<lparr>version := prev, previous_version := Some (version m),
              deployed_at := now, model_status := Deployed\<rparr>"
  have "is_on dev ?m = is_on dev m" for dev
    using ok m by (simp add: rollback_in_place_def is_on_def)
  then have "length (filter (is_on dev) (map snd (AList.update mid ?m (models r))))
      = length (deployed_on r dev)" for dev
    using length_filter_update_old [OF _ m(1), of "is_on dev" ?m] inv
    by (simp add: registry_inv_def dict_ok_def deployed_on_eq split: if_splits)
  then show ?thesis
    using inv m prev ids_ok_lookup [OF _ m(1)]
    by (simp add: rollback_def registry_inv_def deployed_on_eq)
qed

lemma registry_inv_step:
  "registry_inv r \<Longrightarrow> rollback_in_place r op \<Longrightarrow> registry_inv (registry_step r op)"
  by (cases op) (simp_all add: registry_inv_deploy registry_inv_undeploy registry_inv_rollback)

interpretation registry: guarded_invariant registry_step registry_inv rollback_in_place
  by unfold_locales (rule registry_inv_step)

lemma registry_run_limit [simp]:
  "max_models_per_device (foldl registry_step r ops) = max_models_per_device r"
proof (induction ops arbitrary: r)
  case Nil
  then show ?case by simp
next
  case (Cons op ops)
  have "max_models_per_device (registry_step r op) = max_models_per_device r"
    by (cases op) (auto simp: registry_defs split: option.split)
  with Cons show ?case by simp
qed

subsection \<open>Rollback and deployment\<close>

lemma rollback_success:
  "map_of (models r) mid = Some m \<Longrightarrow> previous_version m = Some prev \<Longrightarrow> prev \<noteq> '''' \<Longrightarrow>
     rollback r mid now =
       (True, r\<lparr>models := AList.update mid
            (m\<lparr>version := prev, previous_version := Some (version m),
               deployed_at := now, model_status := Deployed\<rparr>) (models r),
          history := history r @ [Rollback_Entry mid (version m) prev now]\<rparr>)"
  by (simp add: rollback_def)

lemma model_count_deployed_on:
  "dev \<noteq> '''' \<Longrightarrow> model_count r dev = length (deployed_on r dev)"
  by (simp add: model_count_def deployed_on_def)

lemma rollback_revives:
  assumes "dict_ok (models r)" and "map_of (models r) mid = Some m"
    and "previous_version m = Some prev" and "prev \<noteq> ''''" and "model_status m \<noteq> Deployed"
  shows "length (deployed_on (snd (rollback r mid now)) (target_device_id m)) =
           Suc (length (deployed_on r (target_device_id m)))"
  using length_filter_update_old [OF _ assms(2), of "is_on (target_device_id m)"
      "m\<lparr>version := prev, previous_version := Some (version m),
         deployed_at := now, model_status := Deployed\<rparr>"] assms(1,5)
  by (simp add: rollback_success [OF assms(2-4)] deployed_on_eq is_on_def dict_ok_def)

lemma limit_unchanged [simp]:
  "max_models_per_device (snd (deploy r mid path mtype ver dev core meta now)) =
     max_models_per_device r"
  "max_models_per_device (snd (undeploy r mid now)) = max_models_per_device r"
  "max_models_per_device (snd (rollback r mid now)) = max_models_per_device r"
  by (simp_all add: registry_defs split: option.split)

lemma refused_unchanged:
  "\<not> fst (deploy r mid path mtype ver dev core meta now) \<Longrightarrow>
     snd (deploy r mid path mtype ver dev core meta now) = r"
  "\<not> fst (undeploy r mid now) \<Longrightarrow> snd (undeploy r mid now) = r"
  "\<not> fst (rollback r mid now) \<Longrightarrow> snd (rollback r mid now) = r"
  by (simp_all add: registry_defs split: if_splits option.splits)

lemma action_state:
  "\<not> success (fst (handle_model_action pb r q now)) \<Longrightarrow> snd (handle_model_action pb r q now) = r"
  by (simp add: handle_model_action_def action_list_def action_deploy_def action_undeploy_def
      action_rollback_def reply_def case_prod_beta Let_def refused_unchanged split: if_splits)

subsection \<open>Properties\<close>

text \<open>
  Claim C28. Capacity of a device: over any sequence of deployments, removals and rollbacks in
  which rollbacks only hit models that are deployed at that moment, no device ever has more
  than \<open>max_models_per_device\<close> deployed models, and \<open>model_count\<close> reports their number.
\<close>

theorem registry_capacity:
  assumes "registry.guarded_run (new_registry limit) ops"
    and r: "r = foldl registry_step (new_registry limit) ops" and "dev \<noteq> ''''"
  shows "int (model_count r dev) \<le> max 0 limit \<and>
         model_count r dev = length (list_models r dev (Some Deployed))"
proof -
  have "registry_inv r"
    unfolding r by (rule registry.guarded_run_keeps [OF registry_inv_new assms(1)])
  moreover have "max_models_per_device r = limit"
    by (simp add: r new_registry_def)
  ultimately show ?thesis
    using assms(3)
    by (simp add: registry_inv_def model_count_deployed_on deployed_on_def list_models_def
        Let_def conj_commute)
qed

theorem registry_capacity_witness:
  "int (model_count (foldl registry_step (new_registry 1)
     [Do_Deploy ''a'' ''p'' ''detection'' ''1'' ''cam'' 0 [] 0,
      Do_Deploy ''b'' ''p'' ''detection'' ''1'' ''cam'' 0 [] 1]) ''cam'') \<le> 1"
proof -
  let ?ops = "[Do_Deploy ''a'' ''p'' ''detection'' ''1'' ''cam'' 0 [] 0,
               Do_Deploy ''b'' ''p'' ''detection'' ''1'' ''cam'' 0 [] 1]"
  have "registry.guarded_run (new_registry 1) ?ops"
    by (simp add: rollback_in_place_def)
  from registry_capacity [OF this refl, of "''cam''"] show ?thesis by simp
qed

text \<open>
  A rollback does not look at the limit: for an undeployed model with a previous
  version it succeeds and raises the number of deployed models of the device by one, also
  when the device is already full.
\<close>

theorem rollback_ignores_limit:
  assumes "dict_ok (models r)" and "get_model r mid = Some m"
    and "previous_version m = Some prev" and "prev \<noteq> ''''" and "model_status m \<noteq> Deployed"
    and "target_device_id m \<noteq> ''''"
    and "int (model_count r (target_device_id m)) = max_models_per_device r"
  shows "fst (rollback r mid now) \<and>
         max_models_per_device (snd (rollback r mid now)) <
           int (model_count (snd (rollback r mid now)) (target_device_id m))"
  using rollback_revives [OF assms(1) _ assms(3-5)] assms(2,6,7)
  by (simp add: get_model_def model_count_deployed_on rollback_success [OF _ assms(3,4)])

theorem rollback_ignores_limit_witness:
  "\<exists>r. r = foldl registry_step (new_registry 1)
       [Do_Deploy ''a'' ''p'' ''d'' ''1'' ''cam'' 0 [] 0, Do_Undeploy ''a'' 1,
        Do_Deploy ''a'' ''p'' ''d'' ''2'' ''cam'' 0 [] 2, Do_Undeploy ''a'' 3,
        Do_Deploy ''b'' ''p'' ''d'' ''1'' ''cam'' 0 [] 4] \<and>
     max_models_per_device (snd (rollback r ''a'' 5)) = 1 \<and>
     1 < int (model_count (snd (rollback r ''a'' 5)) ''cam'')"
proof -
  let ?r = "foldl registry_step (new_registry 1)
       [Do_Deploy ''a'' ''p'' ''d'' ''1'' ''cam'' 0 [] 0, Do_Undeploy ''a'' 1,
        Do_Deploy ''a'' ''p'' ''d'' ''2'' ''cam'' 0 [] 2, Do_Undeploy ''a'' 3,
        Do_Deploy ''b'' ''p'' ''d'' ''1'' ''cam'' 0 [] 4]"
  let ?a = "\<lparr>model_id = ''a'', model_path = ''p'', model_type = ''d'', version = ''2'',
      metadata = [], model_status = Undeployed, deployed_at = 2,
      target_device_id = ''cam'', npu_core = 0, previous_version = Some ''1''\<rparr>"
  let ?b = "\<lparr>model_id = ''b'', model_path = ''p'', model_type = ''d'', version = ''1'',
      metadata = [], model_status = Deployed, deployed_at = 4,
      target_device_id = ''cam'', npu_core = 0, previous_version = None\<rparr>"
  have m: "models ?r = [(''a'', ?a), (''b'', ?b)]"
    by (simp add: deploy_def undeploy_def new_registry_def deployed_on_def Let_def)
  have limit: "max_models_per_device ?r = 1"
    by (simp only: registry_run_limit) (simp add: new_registry_def)
  have "dict_ok (models ?r)" "get_model ?r ''a'' = Some ?a"
    "int (model_count ?r (target_device_id ?a)) = max_models_per_device ?r"
    unfolding get_model_def model_count_def limit m by (simp_all add: dict_ok_def)
  from rollback_ignores_limit [OF this(1,2) _ _ _ _ this(3), of "''1''" 5]
  have over: "max_models_per_device (snd (rollback ?r ''a'' 5)) <
      int (model_count (snd (rollback ?r ''a'' 5)) ''cam'')" by simp
  have same: "max_models_per_device (snd (rollback ?r ''a'' 5)) = 1"
    by (simp only: limit_unchanged limit)
  show ?thesis
    by (intro exI conjI, rule refl, rule same, rule over [unfolded same])
qed

text \<open>
  Rolling back twice restores the version and the previous version, and leaves the
  model deployed; a rollback exchanges the two version strings and touches neither the path
  nor the metadata of the model nor any other model.
\<close>

theorem rollback_swaps_versions:
  assumes "get_model r mid = Some m" and "previous_version m = Some prev"
    and "prev \<noteq> ''''" and "version m \<noteq> ''''"
  shows "get_model (snd (rollback (snd (rollback r mid t1)) mid t2)) mid =
           Some (m\<lparr>deployed_at := t2, model_status := Deployed\<rparr>) \<and>
         get_model (snd (rollback r mid t1)) mid =
           Some (m\<lparr>version := prev, previous_version := Some (version m),
                   deployed_at := t1, model_status := Deployed\<rparr>) \<and>
         (\<forall>k. k \<noteq> mid \<longrightarrow> get_model (snd (rollback r mid t1)) k = get_model r k)"
  using assms by (simp add: rollback_def get_model_def)

theorem rollback_swaps_versions_witness:
  "get_model (snd (rollback (snd (rollback (foldl registry_step (new_registry 1)
       [Do_Deploy ''a'' ''p1'' ''d'' ''1'' ''cam'' 0 [] 0, Do_Undeploy ''a'' 1,
        Do_Deploy ''a'' ''p2'' ''d'' ''2'' ''cam'' 0 [] 2]) ''a'' 5)) ''a'' 6)) ''a'' =
   Some \<lparr>model_id = ''a'', model_path = ''p2'', model_type = ''d'', version = ''2'',
      metadata = [], model_status = Deployed, deployed_at = 6,
      target_device_id = ''cam'', npu_core = 0, previous_version = Some ''1''\<rparr>"
proof -
  let ?r = "foldl registry_step (new_registry 1)
       [Do_Deploy ''a'' ''p1'' ''d'' ''1'' ''cam'' 0 [] 0, Do_Undeploy ''a'' 1,
        Do_Deploy ''a'' ''p2'' ''d'' ''2'' ''cam'' 0 [] 2]"
  have "get_model ?r ''a'' =
    Some \<lparr>model_id = ''a'', model_path = ''p2'', model_type = ''d'', version = ''2'',
      metadata = [], model_status = Deployed, deployed_at = 2,
      target_device_id = ''cam'', npu_core = 0, previous_version = Some ''1''\<rparr>"
    by (simp add: deploy_def undeploy_def new_registry_def deployed_on_def get_model_def Let_def)
  from rollback_swaps_versions [OF this] show ?thesis by simp
qed

text \<open>
  The gRPC actions: a reply without success leaves the registry as it was; LIST and
  STATUS never change it; an unknown action is refused; STATUS fails exactly for an unknown
  model; and LIST answers with one entry per model of the device, in registration order.
\<close>

theorem model_actions_sound:
  assumes "distinct [pb_DEPLOY pb, pb_UNDEPLOY pb, pb_LIST pb, pb_ROLLBACK pb, pb_STATUS pb]"
  shows "(\<not> success (fst (handle_model_action pb r q now)) \<longrightarrow>
            snd (handle_model_action pb r q now) = r) \<and>
         (req_action q \<in> {pb_LIST pb, pb_STATUS pb} \<longrightarrow>
            snd (handle_model_action pb r q now) = r) \<and>
         (req_action q \<notin> {pb_DEPLOY pb, pb_UNDEPLOY pb, pb_LIST pb, pb_ROLLBACK pb, pb_STATUS pb}
            \<longrightarrow> \<not> success (fst (handle_model_action pb r q now))) \<and>
         (req_action q = pb_STATUS pb \<longrightarrow>
            success (fst (handle_model_action pb r q now)) \<longleftrightarrow>
              get_model r (info_id (req_model q)) \<noteq> None) \<and>
         (req_action q = pb_LIST pb \<longrightarrow>
            map info_id (infos (fst (handle_model_action pb r q now))) =
              map model_id (list_models r (req_device q) None))"
proof -
  have "req_action q = pb_STATUS pb \<longrightarrow>
      (success (fst (handle_model_action pb r q now)) \<longleftrightarrow>
        get_model r (info_id (req_model q)) \<noteq> None)"
    by (simp add: handle_model_action_def action_status_def split: option.split)
  moreover have "req_action q = pb_LIST pb \<longrightarrow>
      map info_id (infos (fst (handle_model_action pb r q now))) =
        map model_id (list_models r (req_device q) None)"
    using assms by (auto simp: handle_model_action_def action_list_def info_of_def Let_def)
  moreover have "req_action q \<in> {pb_LIST pb, pb_STATUS pb} \<longrightarrow>
      snd (handle_model_action pb r q now) = r"
    using assms by (auto simp: handle_model_action_def)
  moreover have "req_action q \<notin>
      {pb_DEPLOY pb, pb_UNDEPLOY pb, pb_LIST pb, pb_ROLLBACK pb, pb_STATUS pb} \<longrightarrow>
      \<not> success (fst (handle_model_action pb r q now))"
    by (simp add: handle_model_action_def)
  ultimately show ?thesis using action_state by blast
qed

theorem model_actions_sound_witness:
  "\<not> success (fst (handle_model_action
      \<lparr>pb_DEPLOY = 0, pb_UNDEPLOY = 1, pb_LIST = 2, pb_ROLLBACK = 3, pb_STATUS = 4\<rparr>
      (new_registry 3)
      \<lparr>req_action = 9, req_model = \<lparr>info_id = ''m'', info_path = ''p'', info_type = ''d'',
          info_version = ''1'', info_metadata = []\<rparr>, req_device = ''cam'', req_core = 0\<rparr> 0))"
  using model_actions_sound
    [of "\<lparr>pb_DEPLOY = 0, pb_UNDEPLOY = 1, pb_LIST = 2, pb_ROLLBACK = 3, pb_STATUS = 4\<rparr>"
        "new_registry 3"
        "\<lparr>req_action = 9, req_model = \<lparr>info_id = ''m'', info_path = ''p'', info_type = ''d'',
          info_version = ''1'', info_metadata = []\<rparr>, req_device = ''cam'', req_core = 0\<rparr>" 0]
  by simp

end
