(* ===== verification/Grpc_Server.thy ===== *)
theory Grpc_Server
  imports Orchestrator Device_Session Rate_Limiter Model_Registry Ab_Test
begin

text \<open>
  The service that the edge devices call, \<open>communication/grpc_server.py\<close>: every method of the
  servicer, over the coordinator, the sessions, the rate limiter, the model registry and the A/B
  tests. A stream of detections is the list of its messages with what happens around each of
  them (the clock, read once per message, and the database), and how the stream ends.
  \<open>context.abort\<close> raises an exception, as gRPC documents; which one is a parameter. The set-up of
  the listening server and its TLS credentials is left out.
\<close>

subsection \<open>State and messages\<close>

record server =
  orch :: orchestrator
  session_mgr :: "session_manager option"
  limits :: "limiter option"
  registered_models :: "registry option"
  timeseries_on :: bool
  ab_tests :: "ab_manager option"

record message_env =
  msg_time :: real
  msg_history :: "event_query option"
  msg_writes :: "nat \<Rightarrow> (nat \<Rightarrow> db_attempt) \<times> (nat \<Rightarrow> db_attempt)"

record stream_response =
  sr_success :: bool
  sr_message :: string
  sr_frames :: int

record stream_state =
  s_server :: server
  s_device :: string
  s_frames :: int
  s_aborted :: "(string \<times> string) option"

subsection \<open>Streams of detections\<close>

definition in_unit :: "pyfloat \<Rightarrow> bool" where
  "in_unit x \<longleftrightarrow> Fin 0 \<le> x \<and> x \<le> Fin 1"

definition coordinates_of :: "detection \<Rightarrow> (string \<times> pyfloat) list" where
  "coordinates_of d = [(''x_min'', x_min d), (''y_min'', y_min d), (''x_max'', x_max d), (''y_max'', y_max d)]"

text \<open>The first thing wrong with a message; \<open>num\<close> prints a float.\<close>

definition box_error :: "(pyfloat \<Rightarrow> string) \<Rightarrow> detection \<Rightarrow> string option" where
  "box_error num d =
     (if \<not> in_unit (Detection_Store.confidence d)
      then Some (''confidence out of range [0,1]: '' @ num (Detection_Store.confidence d))
      else map_option (\<lambda>(name, x). name @ '' out of range [0,1]: '' @ num x)
             (List.find (\<lambda>(name, x). \<not> in_unit x) (coordinates_of d)))"

definition validate_detection :: "(pyfloat \<Rightarrow> string) \<Rightarrow> detection_result \<Rightarrow> string option" where
  "validate_detection num res =
     (if Detection_Processor.device_id res = '''' then Some ''device_id must not be empty''
      else case List.find (\<lambda>d. box_error num d \<noteq> None) (boxes res) of
          None \<Rightarrow> None | Some d \<Rightarrow> box_error num d)"

definition with_sessions :: "(session_manager \<Rightarrow> session_manager) \<Rightarrow> server \<Rightarrow> server" where
  "with_sessions f sv = sv\<lparr>session_mgr := map_option f (session_mgr sv)\<rparr>"

definition check_rate :: "server \<Rightarrow> string \<Rightarrow> real \<Rightarrow> bool \<times> server" where
  "check_rate sv dev now =
     (case limits sv of
        None \<Rightarrow> (True, sv)
      | Some l \<Rightarrow> let (ok, l1) = allow l dev now in (ok, sv\<lparr>limits := Some l1\<rparr>))"

definition receive ::
    "exn \<Rightarrow> detection_result \<times> message_env \<Rightarrow> stream_state \<Rightarrow> (exn + unit) \<times> stream_state" where
  "receive abort_exn m st =
     (let (res, env) = m;
          first = (s_device st = '''' \<and> Detection_Processor.device_id res \<noteq> '''');
          dev = (if first then Detection_Processor.device_id res else s_device st);
          sv1 = (if first
                 then with_sessions (\<lambda>sm. snd (register sm dev '''' '''' None (msg_time env))) (s_server st)
                 else s_server st);
          (ok, sv2) = check_rate sv1 dev (msg_time env);
          st1 = st\<lparr>s_server := sv2, s_device := dev\<rparr>
      in if \<not> ok
         then (Inl abort_exn, st1\<lparr>s_aborted := Some (''RESOURCE_EXHAUSTED'', ''Rate limit exceeded'')\<rparr>)
         else if validate_detection (\<lambda>_. '''') res \<noteq> None then (Inr (), st1)
         else case process_detection (msg_history env) (msg_writes env) res (msg_time env) (orch sv2) of
             (Inl e, o1) \<Rightarrow> (Inl e, st1\<lparr>s_server := sv2\<lparr>orch := o1\<rparr>\<rparr>)
           | (Inr _, o1) \<Rightarrow>
               let sv3 = sv2\<lparr>orch := o1\<rparr>;
                   sv4 = (if dev = '''' then sv3
                          else with_sessions (\<lambda>sm. increment_frames (heartbeat sm dev (msg_time env)) dev 1) sv3)
               in (Inr (), st1\<lparr>s_server := sv4, s_frames := s_frames st + 1\<rparr>))"

fun receive_all ::
    "exn \<Rightarrow> (detection_result \<times> message_env) list \<Rightarrow> stream_state \<Rightarrow> (exn + unit) \<times> stream_state" where
  "receive_all ae [] st = (Inr (), st)"
| "receive_all ae (m # ms) st =
     (case receive ae m st of
        (Inl e, st1) \<Rightarrow> (Inl e, st1)
      | (Inr _, st1) \<Rightarrow> receive_all ae ms st1)"

record stream_result =
  st_reply :: "exn + stream_response"
  st_status :: "(string \<times> string) option"
  st_server :: server

text \<open>
  \<open>ending\<close> is the exception with which the iterator of messages ends the stream, if any. The
  session is unregistered in the \<open>finally\<close> block.
\<close>

definition stream_detection_results ::
    "exn \<Rightarrow> (detection_result \<times> message_env) list \<Rightarrow> exn option \<Rightarrow> server \<Rightarrow> stream_result" where
  "stream_detection_results ae ms ending sv =
     (let (r, st) = receive_all ae ms \<lparr>s_server = sv, s_device = '''', s_frames = 0, s_aborted = None\<rparr>;
          r1 = (case r of Inl e \<Rightarrow> Some e | Inr _ \<Rightarrow> ending);
          sv1 = (if s_device st = '''' then s_server st
                 else with_sessions (\<lambda>sm. unregister sm (s_device st)) (s_server st))
      in \<lparr>st_reply = (case r1 of
             None \<Rightarrow> Inr \<lparr>sr_success = True, sr_message = ''Processed '' @ str_int (s_frames st) @ '' frames'',
                        sr_frames = s_frames st\<rparr>
           | Some e \<Rightarrow> if is_exception e
               then Inr \<lparr>sr_success = False, sr_message = exn_text e, sr_frames = s_frames st\<rparr>
               else Inl e),
          st_status = s_aborted st, st_server = sv1\<rparr>)"

subsection \<open>The other methods\<close>

record command_response =
  cr_success :: bool
  cr_message :: string
  cr_id :: int

definition send_control_command :: "command \<Rightarrow> server \<Rightarrow> command_response \<times> server" where
  "send_control_command c sv =
     (\<lparr>cr_success = True, cr_message = ''Command queued'', cr_id = c_id c\<rparr>,
      sv\<lparr>orch := send_command c (orch sv)\<rparr>)"

record registration =
  reg_device :: string
  reg_name :: string
  reg_firmware :: string
  reg_capabilities :: "string list"

record registration_response =
  rr_success :: bool
  rr_message :: string
  rr_id :: string

text \<open>
  \<open>u1\<close> and \<open>u2\<close> are the random numbers that the two calls of the A/B test manager may draw;
  the session that \<open>get_session\<close> returns is the one in the dictionary.
\<close>

definition register_device ::
    "registration \<Rightarrow> real \<Rightarrow> real \<Rightarrow> real \<Rightarrow> server \<Rightarrow> registration_response \<times> server" where
  "register_device q now u1 u2 sv =
     (let yes = \<lparr>rr_success = True, rr_message = ''Registered'', rr_id = reg_device q\<rparr>
      in case session_mgr sv of
          None \<Rightarrow> (yes, sv)
        | Some sm \<Rightarrow>
            let (ok, sm1) = register sm (reg_device q) (reg_name q) (reg_firmware q)
                              (Some (reg_capabilities q)) now;
                sv1 = sv\<lparr>session_mgr := Some sm1\<rparr>
            in if \<not> ok
               then (\<lparr>rr_success = False, rr_message = ''Max devices reached'', rr_id = reg_device q\<rparr>, sv1)
               else case ab_tests sv1 of
                   None \<Rightarrow> (yes, sv1)
                 | Some ab \<Rightarrow>
                     let (g, ab1) = assign_group ab (reg_device q) u1
                     in case get_session sm1 (reg_device q) of
                         None \<Rightarrow> (yes, sv1\<lparr>ab_tests := Some ab1\<rparr>)
                       | Some s \<Rightarrow>
                           let (v, ab2) = get_variant ab1 (reg_device q) u2;
                               s1 = s\<lparr>ab_test_group := group_value g, model_version := v\<rparr>
                           in (yes, sv1\<lparr>ab_tests := Some ab2,
                                 session_mgr := Some (sm1\<lparr>sessions :=
                                   AList.update (reg_device q) s1 (sessions sm1)\<rparr>)\<rparr>))"

definition manage_model ::
    "pb_actions \<Rightarrow> manage_request \<Rightarrow> real \<Rightarrow> server \<Rightarrow> manage_response \<times> server" where
  "manage_model pb q now sv =
     (case registered_models sv of
        None \<Rightarrow> (\<lparr>success = False, message = ''Model management not enabled'', infos = []\<rparr>, sv)
      | Some r \<Rightarrow> let (resp, r1) = handle_model_action pb r q now
                  in (resp, sv\<lparr>registered_models := Some r1\<rparr>))"

record series_request =
  series_metric :: string
  series_device :: string
  series_start :: real
  series_end :: real
  series_aggregation :: string
  series_bucket :: int

record series_response =
  series_success :: bool
  series_message :: string
  series_points :: "(real \<times> real) list"

definition query_series ::
    "(nat \<Rightarrow> db_attempt) \<Rightarrow> real \<Rightarrow> series_request \<Rightarrow> server \<Rightarrow> exn + series_response" where
  "query_series attempts now q sv =
     (case (if timeseries_on sv then detection_store (bus (vlm (orch sv))) else None) of
        None \<Rightarrow> Inr \<lparr>series_success = False, series_message = ''Time series not available'', series_points = []\<rparr>
      | Some s \<Rightarrow>
          case query_timeseries s attempts now (series_metric q) (series_device q) (series_start q)
                 (if 0 < series_end q then series_end q else 0)
                 (if series_aggregation q = '''' then ''avg'' else series_aggregation q)
                 (series_bucket q) 1000 of
            Inl e \<Rightarrow> Inl e
          | Inr rows \<Rightarrow> Inr \<lparr>series_success = True,
              series_message = str_int (int (length rows)) @ '' points'', series_points = rows\<rparr>)"

datatype serving = Serving | Not_Serving

definition health_check :: "string \<Rightarrow> server \<Rightarrow> serving \<times> string" where
  "health_check ver sv = (if is_ready (orch sv) then Serving else Not_Serving, ver)"

subsection \<open>The event stream\<close>

text \<open>
  One stream interleaves the events it reads with its polls for a command, each of which waits
  for a second; a poll that finds no command yields nothing.
\<close>

record central_event =
  ce_type :: string
  ce_timestamp :: int
  ce_payload :: string
  ce_command :: command

datatype stream_op = Edge edge_event | Poll

fun event_step :: "stream_op \<Rightarrow> server \<Rightarrow> central_event list \<times> server" where
  "event_step (Edge ev) sv = ([], sv\<lparr>orch := handle_edge_event ev (orch sv)\<rparr>)"
| "event_step Poll sv =
     (let (c, o1) = get_pending_command (orch sv)
      in (case c of None \<Rightarrow> []
          | Some cmd \<Rightarrow> [\<lparr>ce_type = ''CONTROL_COMMAND'', ce_timestamp = 0,
              ce_payload = ''command_id='' @ str_int (c_id cmd), ce_command = cmd\<rparr>],
          sv\<lparr>orch := o1\<rparr>))"

subsection \<open>Lemmas on streams\<close>

lemma process_detection_total:
  "\<exists>s1. process_detection st db res now s = (Inr (), s1) \<and>
     event_count (proc s1) = Suc (event_count (proc s))"
proof -
  obtain q1 al where "request_vlm ((proc s)\<lparr>event_count := Suc (event_count (proc s))\<rparr>)
      (queue (vlm s)) res = Inr (q1, al)" using request_vlm_never_raises by blast
  then show ?thesis by (simp add: process_detection_def process_def Let_def)
qed

definition accepted :: "(detection_result \<times> message_env) list \<Rightarrow> nat" where
  "accepted ms = length (filter (\<lambda>m. validate_detection (\<lambda>_. '''') (fst m) = None) ms)"

lemma accepted_simps [simp]:
  "accepted [] = 0"
  "accepted (m # ms) = (if validate_detection (\<lambda>_. '''') (fst m) = None then Suc (accepted ms) else accepted ms)"
  by (simp_all add: accepted_def)

lemma with_sessions_fields [simp]:
  "orch (with_sessions f sv) = orch sv" "limits (with_sessions f sv) = limits sv"
  "session_mgr (with_sessions f sv) = map_option f (session_mgr sv)"
  "ab_tests (with_sessions f sv) = ab_tests sv"
  by (simp_all add: with_sessions_def)

lemma check_rate_fields [simp]:
  "orch (snd (check_rate sv dev now)) = orch sv"
  "session_mgr (snd (check_rate sv dev now)) = session_mgr sv"
  "ab_tests (snd (check_rate sv dev now)) = ab_tests sv"
  "limits (snd (check_rate sv dev now)) = map_option (\<lambda>l. snd (allow l dev now)) (limits sv)"
  "fst (check_rate sv dev now) = (case limits sv of None \<Rightarrow> True | Some l \<Rightarrow> fst (allow l dev now))"
  by (simp_all add: check_rate_def split: option.splits prod.splits)

definition refused :: "string \<times> string" where
  "refused = (''RESOURCE_EXHAUSTED'', ''Rate limit exceeded'')"

text \<open>The device of a stream after one more message, and what \<open>receive\<close> does in each case.\<close>

definition stream_device :: "stream_state \<Rightarrow> detection_result \<Rightarrow> string" where
  "stream_device st res = (if s_device st = '''' then Detection_Processor.device_id res else s_device st)"

definition granted_message :: "stream_state \<Rightarrow> detection_result \<times> message_env \<Rightarrow> bool" where
  "granted_message st m = (case limits (s_server st) of None \<Rightarrow> True
     | Some l \<Rightarrow> fst (allow l (stream_device st (fst m)) (msg_time (snd m))))"

abbreviation events_of :: "stream_state \<Rightarrow> nat" where
  "events_of st \<equiv> event_count (proc (orch (s_server st)))"

lemma receive_cases:
  assumes "receive ae (res, env) st = (r, st1)"
  shows "s_device st1 = stream_device st res"
    and "limits (s_server st1) = map_option (\<lambda>l. snd (allow l (stream_device st res) (msg_time env))) (limits (s_server st))"
    and "\<not> granted_message st (res, env) \<Longrightarrow> r = Inl ae \<and> s_aborted st1 = Some refused \<and>
      s_frames st1 = s_frames st \<and> events_of st1 = events_of st"
    and "granted_message st (res, env) \<Longrightarrow> r = Inr () \<and> s_aborted st1 = s_aborted st \<and>
      (if validate_detection (\<lambda>_. '''') res = None
       then s_frames st1 = s_frames st + 1 \<and> events_of st1 = Suc (events_of st)
       else s_frames st1 = s_frames st \<and> events_of st1 = events_of st)"
proof -
  let ?first = "s_device st = '''' \<and> Detection_Processor.device_id res \<noteq> ''''"
  let ?dev = "stream_device st res"
  let ?sv1 = "if ?first then with_sessions (\<lambda>sm. snd (register sm ?dev '''' '''' None (msg_time env))) (s_server st)
      else s_server st"
  obtain ok sv2 where c: "check_rate ?sv1 ?dev (msg_time env) = (ok, sv2)" by fastforce
  have sv2: "orch sv2 = orch (s_server st)" "limits sv2 =
      map_option (\<lambda>l. snd (allow l ?dev (msg_time env))) (limits (s_server st))"
    and ok: "ok = granted_message st (res, env)"
    using check_rate_fields [of ?sv1 ?dev "msg_time env"] unfolding c
    by (simp_all add: granted_message_def split: option.split)
  obtain s1 where p: "process_detection (msg_history env) (msg_writes env) res (msg_time env) (orch sv2) =
      (Inr (), s1)" and n: "event_count (proc s1) = Suc (event_count (proc (orch (s_server st))))"
    using process_detection_total [of "msg_history env" "msg_writes env" res "msg_time env" "orch sv2"]
    by (auto simp: sv2)
  have dev: "(if ?first then Detection_Processor.device_id res else s_device st) = ?dev"
    by (auto simp: stream_device_def)
  note unfolded = assms [unfolded receive_def Let_def prod.case dev, unfolded c prod.case]
  show "s_device st1 = ?dev" using unfolded p by (auto split: if_splits)
  show "limits (s_server st1) = map_option (\<lambda>l. snd (allow l ?dev (msg_time env))) (limits (s_server st))"
    using unfolded p sv2 by (auto split: if_splits)
  show "r = Inl ae \<and> s_aborted st1 = Some refused \<and> s_frames st1 = s_frames st \<and> events_of st1 = events_of st"
    if "\<not> granted_message st (res, env)" using unfolded that ok sv2 by (auto simp: refused_def)
  show "r = Inr () \<and> s_aborted st1 = s_aborted st \<and>
      (if validate_detection (\<lambda>_. '''') res = None
       then s_frames st1 = s_frames st + 1 \<and> events_of st1 = Suc (events_of st)
       else s_frames st1 = s_frames st \<and> events_of st1 = events_of st)"
    if "granted_message st (res, env)" using unfolded that ok sv2 p n by (auto split: if_splits)
qed

lemma receive_all_accounts:
  assumes "receive_all ae ms st = (r, st1)"
  shows "s_frames st1 - s_frames st = int (events_of st1) - int (events_of st)"
    and "r = Inr () \<Longrightarrow> s_frames st1 = s_frames st + int (accepted ms) \<and> s_aborted st1 = s_aborted st"
    and "r \<noteq> Inr () \<Longrightarrow> r = Inl ae \<and> s_aborted st1 = Some refused \<and>
      limits (s_server st) \<noteq> None \<and> s_frames st1 \<le> s_frames st + int (accepted ms)"
proof -
  have "s_frames st1 - s_frames st = int (events_of st1) - int (events_of st) \<and>
    (r = Inr () \<longrightarrow> s_frames st1 = s_frames st + int (accepted ms) \<and> s_aborted st1 = s_aborted st) \<and>
    (r \<noteq> Inr () \<longrightarrow> r = Inl ae \<and> s_aborted st1 = Some refused \<and>
      limits (s_server st) \<noteq> None \<and> s_frames st1 \<le> s_frames st + int (accepted ms))"
    using assms
  proof (induction ms arbitrary: st)
    case (Cons m ms)
    obtain res env where m: "m = (res, env)" by fastforce
    obtain r2 st2 where r2: "receive ae (res, env) st = (r2, st2)" by fastforce
    note cases = receive_cases [OF r2]
    show ?case
    proof (cases "granted_message st (res, env)")
      case True
      with cases(4) have "receive_all ae ms st2 = (r, st1)" using Cons.prems r2 by (simp add: m)
      from Cons.IH [OF this] cases(2) cases(4) [OF True] show ?thesis
        by (auto simp: m split: if_splits)
    next
      case False
      with cases(3) have "r = Inl ae" "st1 = st2" using Cons.prems r2 by (simp_all add: m)
      moreover have "limits (s_server st) \<noteq> None" using False by (auto simp: granted_message_def split: option.splits)
      ultimately show ?thesis using cases(3) [OF False] by simp
    qed
  qed simp
  then show "s_frames st1 - s_frames st = int (events_of st1) - int (events_of st)"
    "r = Inr () \<Longrightarrow> s_frames st1 = s_frames st + int (accepted ms) \<and> s_aborted st1 = s_aborted st"
    "r \<noteq> Inr () \<Longrightarrow> r = Inl ae \<and> s_aborted st1 = Some refused \<and>
      limits (s_server st) \<noteq> None \<and> s_frames st1 \<le> s_frames st + int (accepted ms)" by auto
qed

text \<open>Every processed frame was granted by the bucket of the device that the stream has then.\<close>

lemma frames_granted:
  assumes "receive_all ae ms st = (r, st1)" and "limits (s_server st) = Some l"
    and "s_device st = dev" and "dev \<noteq> ''''"
  shows "s_frames st1 - s_frames st \<le> int (granted (limiter_key dev)
    (map (\<lambda>m. (dev, msg_time (snd m))) ms) (fst (allow_requests l (map (\<lambda>m. (dev, msg_time (snd m))) ms))))"
  using assms
proof (induction ms arbitrary: st l)
  case (Cons m ms)
  obtain res env where m: "m = (res, env)" by fastforce
  obtain r2 st2 where r2: "receive ae (res, env) st = (r2, st2)" by fastforce
  note cases = receive_cases [OF r2]
  have dev: "stream_device st res = dev" using Cons.prems by (simp add: stream_device_def)
  have g: "granted_message st (res, env) \<longleftrightarrow> fst (allow l dev (msg_time env))"
    using Cons.prems dev by (simp add: granted_message_def)
  show ?case
  proof (cases "granted_message st (res, env)")
    case True
    with cases(4) have "receive_all ae ms st2 = (r, st1)" using Cons.prems r2 by (simp add: m)
    with Cons.IH [of st2 "snd (allow l dev (msg_time env))"] cases(1,2) cases(4) [OF True] g True
      Cons.prems dev show ?thesis
      by (auto simp: m granted_Cons split: if_splits)
  next
    case False
    with cases(3) [OF False] show ?thesis using Cons.prems r2 by (simp add: m)
  qed
qed (simp add: granted_def)

lemma rate_limited_frames:
  assumes "receive_all ae ms st = (r, st1)" and "limits (s_server st) = Some l"
    and "s_device st = dev" and "dev \<noteq> ''''"
    and "0 \<le> burst l" and "0 \<le> max_per_sec l" and "map_of (buckets l) (limiter_key dev) = None"
    and "sorted (map (\<lambda>m. msg_time (snd m)) ms)" and "\<forall>m \<in> set ms. t0 \<le> msg_time (snd m) \<and> msg_time (snd m) \<le> t1"
    and "t0 \<le> t1"
  shows "real_of_int (s_frames st1 - s_frames st) \<le> real_of_int (burst l) + max_per_sec l * (t1 - t0)"
proof -
  let ?rs = "map (\<lambda>m. (dev, msg_time (snd m))) ms"
  have times: "times_of (limiter_key dev) ?rs = map (\<lambda>m. msg_time (snd m)) ms"
    by (simp add: times_of_def comp_def)
  have "real_of_int (s_frames st1 - s_frames st) \<le>
      real (granted (limiter_key dev) ?rs (fst (allow_requests l ?rs)))"
    using frames_granted [OF assms(1-4)] by linarith
  also have "\<dots> \<le> real_of_int (burst l) + max_per_sec l * (t1 - t0)"
    by (rule granted_bound) (use assms times in auto)
  finally show ?thesis .
qed

text \<open>
  What a message does to the sessions is a sequence of operations of the session manager on the
  device of the stream.
\<close>

definition only_device :: "string \<Rightarrow> session_op list \<Rightarrow> bool" where
  "only_device dev ops \<longleftrightarrow> (\<forall>op \<in> set ops.
     (\<exists>name fw caps now. op = Register dev name fw caps now) \<or> (\<exists>now. op = Heartbeat dev now) \<or>
     (\<exists>n. op = Frames dev n))"

lemma only_device_others:
  "only_device dev ops \<Longrightarrow> d \<noteq> dev \<Longrightarrow>
     map_of (sessions (foldl session_step sm ops)) d = map_of (sessions sm) d"
proof (induction ops arbitrary: sm)
  case (Cons op ops)
  then have "map_of (sessions (session_step sm op)) d = map_of (sessions sm) d"
    by (auto simp: only_device_def register_other heartbeat_def increment_frames_def split: option.splits)
  with Cons show ?case by (simp add: only_device_def)
qed simp

lemma receive_sessions:
  assumes "receive ae (res, env) st = (r, st1)"
  shows "\<exists>ops. only_device (stream_device st res) ops \<and>
    session_mgr (s_server st1) = map_option (\<lambda>sm. foldl session_step sm ops) (session_mgr (s_server st))"
proof -
  let ?first = "s_device st = '''' \<and> Detection_Processor.device_id res \<noteq> ''''"
  let ?dev = "stream_device st res"
  let ?ops1 = "if ?first then [Register ?dev '''' '''' None (msg_time env)] else []"
  let ?ops2 = "[Heartbeat ?dev (msg_time env), Frames ?dev 1]"
  let ?sv1 = "if ?first then with_sessions (\<lambda>sm. snd (register sm ?dev '''' '''' None (msg_time env))) (s_server st)
      else s_server st"
  obtain ok sv2 where c: "check_rate ?sv1 ?dev (msg_time env) = (ok, sv2)" by fastforce
  have sv2: "session_mgr sv2 = map_option (\<lambda>sm. foldl session_step sm ?ops1) (session_mgr (s_server st))"
    using check_rate_fields(2) [of ?sv1 ?dev "msg_time env"] unfolding c
    by (cases "session_mgr (s_server st)") simp_all
  have dev: "(if ?first then Detection_Processor.device_id res else s_device st) = ?dev"
    by (auto simp: stream_device_def)
  note unfolded = assms [unfolded receive_def Let_def prod.case dev, unfolded c prod.case]
  have "session_mgr (s_server st1) = session_mgr sv2 \<or>
      session_mgr (s_server st1) = map_option (\<lambda>sm. foldl session_step sm ?ops2) (session_mgr sv2)"
    using unfolded by (auto split: if_splits prod.splits sum.splits)
  moreover have "only_device ?dev ?ops1" "only_device ?dev (?ops1 @ ?ops2)" by (auto simp: only_device_def)
  ultimately show ?thesis
    unfolding sv2 option.map_comp comp_def foldl_append [symmetric] by blast
qed

lemma receive_all_sessions:
  assumes "receive_all ae ms st = (r, st1)" and "s_device st = dev" and "dev \<noteq> ''''"
  shows "s_device st1 = dev \<and> (\<exists>ops. only_device dev ops \<and>
    session_mgr (s_server st1) = map_option (\<lambda>sm. foldl session_step sm ops) (session_mgr (s_server st)))"
  using assms
proof (induction ms arbitrary: st)
  case Nil
  then show ?case
    by (auto simp: only_device_def option.map_ident intro!: exI [of _ "[]"])
next
  case (Cons m ms)
  obtain res env where m: "m = (res, env)" by fastforce
  obtain r2 st2 where r2: "receive ae (res, env) st = (r2, st2)" by fastforce
  have dev: "stream_device st res = dev" using Cons.prems by (simp add: stream_device_def)
  obtain ops1 where ops1: "only_device dev ops1"
    "session_mgr (s_server st2) = map_option (\<lambda>sm. foldl session_step sm ops1) (session_mgr (s_server st))"
    using receive_sessions [OF r2] dev by auto
  show ?case
  proof (cases "r2 = Inr ()")
    case True
    with Cons.prems r2 have "receive_all ae ms st2 = (r, st1)" by (simp add: m)
    from Cons.IH [OF this] receive_cases(1) [OF r2] dev Cons.prems(3) obtain ops2 where
      "s_device st1 = dev" "only_device dev ops2"
      "session_mgr (s_server st1) = map_option (\<lambda>sm. foldl session_step sm ops2) (session_mgr (s_server st2))"
      by auto
    with ops1 show ?thesis
      by (intro conjI exI [of _ "ops1 @ ops2"]) (auto simp: only_device_def option.map_comp comp_def)
  next
    case False
    with Cons.prems r2 have "st1 = st2" by (auto simp: m split: sum.splits)
    with ops1 receive_cases(1) [OF r2] dev show ?thesis by auto
  qed
qed

subsection \<open>Properties\<close>

text \<open>
  Claim C6. A stream that is not cut off by the rate limit processes exactly its valid messages,
  whatever the session manager answers to the registration of its device, and the reply
  counts them; an exception that ends the stream becomes a reply without success, a cancellation
  none. A refused message ends the stream with RESOURCE_EXHAUSTED, and what was processed
  before it is still counted.
\<close>

theorem stream_reply_counts:
  assumes "R = stream_detection_results ae ms ending sv" and "is_exception ae"
    and "n = int (event_count (proc (orch (st_server R)))) - int (event_count (proc (orch sv)))"
  shows "n \<le> int (accepted ms) \<and>
    (case st_status R of
      None \<Rightarrow> n = int (accepted ms) \<and> st_reply R = (case ending of
          None \<Rightarrow> Inr \<lparr>sr_success = True, sr_message = ''Processed '' @ str_int n @ '' frames'', sr_frames = n\<rparr>
        | Some e \<Rightarrow> if is_exception e
            then Inr \<lparr>sr_success = False, sr_message = exn_text e, sr_frames = n\<rparr> else Inl e)
    | Some s \<Rightarrow> s = refused \<and> limits sv \<noteq> None \<and>
        st_reply R = Inr \<lparr>sr_success = False, sr_message = exn_text ae, sr_frames = n\<rparr>)"
proof -
  let ?st = "\<lparr>s_server = sv, s_device = '''', s_frames = 0, s_aborted = None\<rparr>"
  obtain r st where r: "receive_all ae ms ?st = (r, st)" by fastforce
  note acc = receive_all_accounts [OF r]
  have n: "n = s_frames st" using assms(1,3) r acc(1)
    by (simp add: stream_detection_results_def Let_def)
  show ?thesis
  proof (cases "r = Inr ()")
    case True
    with acc(2) n assms(1) r show ?thesis
      by (simp add: stream_detection_results_def Let_def split: option.split)
  next
    case False
    from acc(3) [OF this] n assms(1,2) r show ?thesis
      by (simp add: stream_detection_results_def Let_def)
  qed
qed

definition calm :: "real \<Rightarrow> message_env" where
  "calm t = \<lparr>msg_time = t, msg_history = None, msg_writes = (\<lambda>_. (busy_commit, busy_commit))\<rparr>"

definition test_server :: "limiter option \<Rightarrow> server" where
  "test_server l = \<lparr>orch = fresh, session_mgr = Some (new_session_manager 30 90 0), limits = l,
     registered_models = None, timeseries_on = True, ab_tests = None\<rparr>"

theorem stream_reply_counts_witness:
  "st_reply (stream_detection_results (Other_Error ''aborted'')
     [(sample_result, calm 1), (sample_result\<lparr>Detection_Processor.device_id := ''''\<rparr>, calm 2)] None
     (test_server None)) =
   Inr \<lparr>sr_success = True, sr_message = ''Processed 1 frames'', sr_frames = 1\<rparr>"
proof -
  let ?ms = "[(sample_result, calm 1), (sample_result\<lparr>Detection_Processor.device_id := ''''\<rparr>, calm 2)]"
  let ?R = "stream_detection_results (Other_Error ''aborted'') ?ms None (test_server None)"
  have "accepted ?ms = 1"
    by (simp add: validate_detection_def sample_result_def box_error_def in_unit_def coordinates_of_def person_def)
  moreover have "str_int 1 = ''1''" by (simp add: str_int_def dec.simps [of "Suc 0"] digit_def)
  moreover have "limits (test_server None) = None" by (simp add: test_server_def)
  ultimately show ?thesis
    using stream_reply_counts [of ?R "Other_Error ''aborted''" ?ms None "test_server None", OF refl _ refl]
    by (auto split: option.splits)
qed



text \<open>
  Claim C29. A stream takes the session of its device with it, however it ends: afterwards the
  device has no session, even when it had registered before with its name, capabilities and
  A/B group; the sessions of other devices are as before.
\<close>

theorem stream_ends_session:
  assumes "R = stream_detection_results ae ((res, env) # ms) ending sv"
    and "Detection_Processor.device_id res = dev" and "dev \<noteq> ''''" and "session_mgr sv = Some sm"
  shows "\<exists>sm1. session_mgr (st_server R) = Some sm1 \<and>
    map_of (sessions sm1) = (map_of (sessions sm))(dev := None)"
proof -
  let ?st0 = "\<lparr>s_server = sv, s_device = '''', s_frames = 0, s_aborted = None\<rparr>"
  obtain r st where r: "receive_all ae ((res, env) # ms) ?st0 = (r, st)" by fastforce
  obtain r2 st2 where r2: "receive ae (res, env) ?st0 = (r2, st2)" by fastforce
  have dev2: "s_device st2 = dev" using receive_cases(1) [OF r2] assms(2) by (simp add: stream_device_def)
  obtain ops1 where ops1: "only_device dev ops1" "session_mgr (s_server st2) = Some (foldl session_step sm ops1)"
    using receive_sessions [OF r2] assms(2,4) by (auto simp: stream_device_def)
  obtain ops2 where ops2: "only_device dev ops2"
    "session_mgr (s_server st) = Some (foldl session_step (foldl session_step sm ops1) ops2)" and "s_device st = dev"
  proof (cases "r2 = Inr ()")
    case True
    with r r2 have "receive_all ae ms st2 = (r, st)" by simp
    from receive_all_sessions [OF this dev2 assms(3)] ops1(2) that show thesis by auto
  next
    case False
    with r r2 have "st = st2" by (auto split: sum.splits)
    with that [of "[]"] ops1 dev2 show thesis by (simp add: only_device_def)
  qed
  then have "session_mgr (st_server R) =
      Some (unregister (foldl session_step sm (ops1 @ ops2)) dev)"
    using assms(1,3) r by (simp add: stream_detection_results_def Let_def)
  moreover have "only_device dev (ops1 @ ops2)" using ops1(1) ops2(1) by (auto simp: only_device_def)
  note other = only_device_others [OF this, of _ sm]
  have "map_of (sessions (unregister (foldl session_step sm (ops1 @ ops2)) dev)) =
      (map_of (sessions sm))(dev := None)"
    by (rule ext) (use other in \<open>auto simp: unregister_def map_of_delete\<close>)
  ultimately show ?thesis by blast
qed

theorem stream_ends_session_witness:
  "\<exists>sm1. session_mgr (st_server (stream_detection_results (Other_Error ''aborted'') [(sample_result, calm 1)]
      None (test_server None))) = Some sm1 \<and> map_of (sessions sm1) = Map.empty"
proof -
  have "Detection_Processor.device_id sample_result = ''cam''"
    "session_mgr (test_server None) = Some (new_session_manager 30 90 0)"
    by (simp_all add: sample_result_def test_server_def)
  from stream_ends_session [OF refl this(1) _ this(2), of "Other_Error ''aborted''" "calm 1" "[]" None]
  show ?thesis by (simp add: new_session_manager_def)
qed

text \<open>
  Claim C32. Registering a device succeeds exactly when it is known or there is room, and then
  it has a session; with an A/B test running, the session carries the group that the test
  assigned to the device and the model of that group, and no other device changes.
\<close>

theorem register_device_outcome:
  assumes "register_device q now u1 u2 sv = (resp, sv1)" and "session_mgr sv = Some sm"
  shows "(rr_success resp \<longleftrightarrow> map_of (sessions sm) (reg_device q) \<noteq> None \<or>
      int (length (sessions sm)) < max_devices sm) \<and>
    (\<exists>sm1. session_mgr sv1 = Some sm1 \<and>
      (\<forall>d. d \<noteq> reg_device q \<longrightarrow> map_of (sessions sm1) d = map_of (sessions sm) d) \<and>
      (\<not> rr_success resp \<longrightarrow> sv1 = sv) \<and>
      (rr_success resp \<longrightarrow> (\<exists>s. get_session sm1 (reg_device q) = Some s \<and>
        (\<forall>ab. ab_tests sv = Some ab \<longrightarrow> (\<exists>ab1 g. ab_tests sv1 = Some ab1 \<and>
           get_group ab1 (reg_device q) = Some g \<and> ab_test_group s = group_value g \<and>
           model_version s = (if g = Control then control_name ab else treatment_name ab))))))"
proof -
  obtain ok sm1 where reg: "register sm (reg_device q) (reg_name q) (reg_firmware q)
      (Some (reg_capabilities q)) now = (ok, sm1)" by fastforce
  have ok: "ok \<longleftrightarrow> map_of (sessions sm) (reg_device q) \<noteq> None \<or> int (length (sessions sm)) < max_devices sm"
    and s: "ok \<Longrightarrow> \<exists>s. map_of (sessions sm1) (reg_device q) = Some s" and none: "\<not> ok \<Longrightarrow> sm1 = sm"
    using reg by (auto simp: register_def split: option.splits if_splits)
  have other: "d \<noteq> reg_device q \<Longrightarrow> map_of (sessions sm1) d = map_of (sessions sm) d" for d
    using register_other [of d "reg_device q" sm] reg by (metis snd_conv)
  have upd: "sv\<lparr>session_mgr := Some sm\<rparr> = sv" using assms(2) by simp
  show ?thesis
  proof (cases ok)
    case False
    with assms reg none upd ok show ?thesis by (auto simp: register_device_def Let_def)
  next
    case True
    then obtain s where s: "map_of (sessions sm1) (reg_device q) = Some s" using s by auto
    show ?thesis
    proof (cases "ab_tests sv")
      case None
      with True s ok assms reg other show ?thesis
        by (auto simp: register_device_def get_session_def Let_def)
    next
      case (Some ab)
      obtain g ab1 where g: "assign_group ab (reg_device q) u1 = (g, ab1)" by fastforce
      then have g1: "map_of (device_groups ab1) (reg_device q) = Some g"
        "control_name ab1 = control_name ab" "treatment_name ab1 = treatment_name ab"
        by (auto simp: assign_group_def Let_def split: option.splits)
      then have "get_variant ab1 (reg_device q) u2 =
          (if g = Control then control_name ab else treatment_name ab, ab1)"
        by (simp add: get_variant_def assign_group_def)
      with True s ok assms reg g g1 Some other show ?thesis
        by (auto simp: register_device_def get_session_def get_group_def Let_def)
    qed
  qed
qed

definition a_device :: registration where
  "a_device = \<lparr>reg_device = ''cam'', reg_name = ''Door'', reg_firmware = ''1.0'', reg_capabilities = []\<rparr>"

theorem register_device_outcome_witness:
  "\<not> rr_success (fst (register_device a_device 5 0 0 (test_server None)))"
proof -
  obtain resp sv1 where r: "register_device a_device 5 0 0 (test_server None) = (resp, sv1)" by fastforce
  have "session_mgr (test_server None) = Some (new_session_manager 30 90 0)" by (simp add: test_server_def)
  from register_device_outcome [OF r this] r show ?thesis by (simp add: new_session_manager_def)
qed

end
