(* ===== verification/System.thy ===== *)
theory System
  imports Grpc_Server
begin

text \<open>
  The whole central server as one state machine: the messages of any number of concurrent
  streams, the other calls of the service, the VLM worker's rounds, the dashboard's listeners
  and the clean-up of sessions, in any order. A message is processed without an await that
  waits, so a step per message is the interleaving the code allows. The invariant says that
  the components stay within their bounds together, whatever the clients do.
\<close>

subsection \<open>Steps\<close>

datatype system_op =
    Message exn "detection_result \<times> message_env" string int
  | Close string
  | Command command
  | Registration registration real real real
  | Manage pb_actions manage_request real
  | Event_Stream stream_op
  | Round "(((string \<times> string) list) \<Rightarrow> exn + string list) round"
  | Listen
  | Unlisten nat
  | Clean real

definition with_orch :: "(orchestrator \<Rightarrow> orchestrator) \<Rightarrow> server \<Rightarrow> server" where
  "with_orch f sv = sv\<lparr>orch := f (orch sv)\<rparr>"

fun system_step :: "server \<Rightarrow> system_op \<Rightarrow> server" where
  "system_step sv (Message ae m dev n) =
     s_server (snd (receive ae m \<lparr>s_server = sv, s_device = dev, s_frames = n, s_aborted = None\<rparr>))"
| "system_step sv (Close dev) = with_sessions (\<lambda>sm. unregister sm dev) sv"
| "system_step sv (Command c) = snd (send_control_command c sv)"
| "system_step sv (Registration q now u1 u2) = snd (register_device q now u1 u2 sv)"
| "system_step sv (Manage pb q now) = snd (manage_model pb q now sv)"
| "system_step sv (Event_Stream op) = snd (event_step op sv)"
| "system_step sv (Round rd) = with_orch (\<lambda>s. s\<lparr>vlm :=
     snd (worker_round (round_batch rd) (round_envs rd) (round_size rd) (vlm s))\<rparr>) sv"
| "system_step sv Listen = with_orch (\<lambda>s. snd (orch_subscribe s)) sv"
| "system_step sv (Unlisten q) = with_orch (orch_unsubscribe q) sv"
| "system_step sv (Clean now) = with_sessions (\<lambda>sm. snd (cleanup_expired sm now)) sv"

subsection \<open>The invariant\<close>

definition vlm_ok :: "pipeline \<Rightarrow> bool" where
  "vlm_ok p \<longleftrightarrow> (0 < q_max (queue p) \<longrightarrow> length (q_items (queue p)) \<le> q_max (queue p)) \<and> queues_ok (bus p)"

definition system_inv :: "server \<Rightarrow> bool" where
  "system_inv sv \<longleftrightarrow> (\<forall>sm. session_mgr sv = Some sm \<longrightarrow> sessions_inv sm) \<and>
     (\<forall>ab. ab_tests sv = Some ab \<longrightarrow> ab_inv ab) \<and> vlm_ok (vlm (orch sv))"

lemma queues_ok_publish: "queues_ok b \<Longrightarrow> queues_ok (publish b a1 a2 ev now)"
  using bus.step_keeps [of b "Publish ev now a1 a2"] by simp

lemma queues_ok_publish_all: "queues_ok b \<Longrightarrow> queues_ok (publish_all b db i evs now)"
  by (induction b db i evs now rule: publish_all.induct) (simp_all add: queues_ok_publish)

lemma process_item_ok:
  assumes "process_item p env it br = (r, p1)" and "vlm_ok p"
  shows "vlm_ok p1"
proof -
  have "queues_ok (bus p1)"
    using assms queues_ok_publish
    by (auto simp: process_item_def vlm_ok_def Let_def split: if_splits prod.splits sum.splits
        dest!: analysis_fields after_success_fields)
  with process_item_queue [OF assms(1)] assms(2) show ?thesis by (simp add: vlm_ok_def)
qed

lemma process_items_ok: "vlm_ok p \<Longrightarrow> vlm_ok (snd (process_items results i xs p))"
proof (induction xs arbitrary: i p)
  case (Cons x xs)
  obtain it env where x: "x = (it, env)" by (cases x)
  obtain r p2 where r: "process_item p env it
      (case results of None \<Rightarrow> None | Some rs \<Rightarrow> if i < length rs then Some (rs ! i) else None) = (r, p2)"
    by fastforce
  with process_item_ok [OF r Cons.prems] Cons.IH [of p2 "Suc i"] show ?case
    by (auto simp: x Let_def split: sum.splits)
qed simp

lemma worker_round_vlm_ok:
  assumes "vlm_ok p"
  shows "vlm_ok (snd (worker_round batch envs n p))"
proof -
  let ?p = "p\<lparr>queue := (queue p)\<lparr>q_items := drop n (q_items (queue p))\<rparr>\<rparr>"
  obtain b p2 where b: "batch_answer batch (take n (q_items (queue p))) ?p = (b, p2)" by fastforce
  then have "queue p2 = queue ?p" "bus p2 = bus ?p"
    by (auto simp: batch_answer_def Let_def split: if_splits sum.splits)
  then have "vlm_ok p2" using assms by (auto simp: vlm_ok_def)
  then show ?thesis using b process_items_ok [of p2]
    by (auto simp: worker_round_def Let_def split: sum.splits)
qed

lemma process_detection_ok:
  assumes "process_detection st db res now s = (r, s1)" and "vlm_ok (vlm s)"
  shows "vlm_ok (vlm s1)"
proof -
  have q: "request_vlm p q res = Inr (q1, al) \<Longrightarrow> q1 = q \<or> (\<not> queue_full q \<and> (\<exists>it. q1 = enqueue q it))" for p q q1 al
    by (auto simp: request_vlm_def split: option.splits if_splits sum.splits)
  have "queues_ok (publish_all (bus (vlm s)) db 0 evs now)" for evs
    using assms(2) by (simp add: vlm_ok_def queues_ok_publish_all)
  with assms show ?thesis
    by (auto simp: process_detection_def process_def Let_def vlm_ok_def enqueue_def queue_full_def
        split: sum.splits prod.splits dest!: q)
qed

lemma receive_ok:
  assumes "receive ae (res, env) st = (r, st1)" and "vlm_ok (vlm (orch (s_server st)))"
  shows "vlm_ok (vlm (orch (s_server st1))) \<and> ab_tests (s_server st1) = ab_tests (s_server st)"
proof -
  have c: "orch sv2 = orch sv \<and> ab_tests sv2 = ab_tests sv" if "check_rate sv dev now = (ok, sv2)" for sv dev now ok sv2
    using check_rate_fields(1,3) [of sv dev now] that by simp
  show ?thesis
    using assms process_detection_ok
    by (auto simp: receive_def Let_def split: if_splits prod.splits sum.splits dest!: c)
qed

lemma register_device_sessions:
  assumes "sessions_inv sm" and "session_mgr sv = Some sm" and "session_mgr (snd (register_device q now u1 u2 sv)) = Some sm1"
  shows "sessions_inv sm1"
proof -
  obtain ok sm2 where reg: "register sm (reg_device q) (reg_name q) (reg_firmware q)
      (Some (reg_capabilities q)) now = (ok, sm2)" by fastforce
  have "sessions_inv sm2" using sessions_inv_register [OF assms(1)] reg by (metis snd_conv)
  then have "sessions_inv (sm2\<lparr>sessions := AList.update (reg_device q)
      (s\<lparr>ab_test_group := g, model_version := v\<rparr>) (sessions sm2)\<rparr>)"
    if "map_of (sessions sm2) (reg_device q) = Some s" for s g v
    using sessions_inv_update_old [OF _ that] by simp
  with \<open>sessions_inv sm2\<close> assms(2,3) reg show ?thesis
    by (auto simp: register_device_def get_session_def Let_def split: if_splits option.splits prod.splits)
qed

lemma register_device_ab:
  assumes "\<forall>ab. ab_tests sv = Some ab \<longrightarrow> ab_inv ab" and "ab_tests (snd (register_device q now u1 u2 sv)) = Some ab1"
  shows "ab_inv ab1"
proof -
  have a: "ab_inv ab \<Longrightarrow> ab_inv (snd (assign_group ab d u))" for ab d u
    by (simp add: assign_group_def ab_inv_def Let_def split: option.split)
  have "ab_inv ab \<Longrightarrow> ab_inv (snd (get_variant ab d u))" for ab d u
    using a [of ab d u] by (simp add: get_variant_def split_beta)
  with assms a show ?thesis
    by (auto simp: register_device_def Let_def split: if_splits option.splits prod.splits) (metis snd_conv)+
qed

lemma register_device_orch: "orch (snd (register_device q now u1 u2 sv)) = orch sv"
  by (auto simp: register_device_def Let_def split: option.split prod.splits)

lemma handle_edge_event_vlm [simp]: "vlm (handle_edge_event ev s) = vlm s"
  by (simp add: handle_edge_event_def Let_def)

lemma get_pending_command_vlm:
  "queue (vlm (snd (get_pending_command s))) = queue (vlm s)"
  "bus (vlm (snd (get_pending_command s))) = bus (vlm s)"
  by (simp_all add: get_pending_command_def split: list.split)

lemma system_inv_step: "system_inv sv \<Longrightarrow> system_inv (system_step sv op)"
proof (cases op)
  case (Message ae m dev n)
  assume inv: "system_inv sv"
  let ?st = "\<lparr>s_server = sv, s_device = dev, s_frames = n, s_aborted = None\<rparr>"
  obtain res env where m: "m = (res, env)" by fastforce
  obtain r st1 where r: "receive ae (res, env) ?st = (r, st1)" by fastforce
  obtain ops where "session_mgr (s_server st1) = map_option (\<lambda>sm. foldl session_step sm ops) (session_mgr sv)"
    using receive_sessions [OF r] by auto
  with receive_ok [OF r] r inv show ?thesis
    by (auto simp: Message m system_inv_def session.run_keeps)
next
  case (Close dev)
  then show "system_inv sv \<Longrightarrow> ?thesis"
    using sessions_inv_step [of _ "Unregister dev"] by (auto simp: system_inv_def)
next
  case (Command c)
  then show "system_inv sv \<Longrightarrow> ?thesis"
    by (simp add: system_inv_def send_control_command_def send_command_def vlm_ok_def)
next
  case (Registration q now u1 u2)
  assume inv: "system_inv sv"
  have "session_mgr sv = None \<Longrightarrow> session_mgr (snd (register_device q now u1 u2 sv)) = None"
    by (simp add: register_device_def Let_def)
  then have "\<forall>sm1. session_mgr (snd (register_device q now u1 u2 sv)) = Some sm1 \<longrightarrow> sessions_inv sm1"
    using register_device_sessions [of _ sv q now u1 u2] inv
    by (cases "session_mgr sv") (auto simp: system_inv_def)
  moreover have "\<forall>ab1. ab_tests (snd (register_device q now u1 u2 sv)) = Some ab1 \<longrightarrow> ab_inv ab1"
    using inv register_device_ab unfolding system_inv_def by blast
  moreover have "vlm_ok (vlm (orch (snd (register_device q now u1 u2 sv))))"
    using inv by (simp only: register_device_orch system_inv_def)
  ultimately show ?thesis unfolding Registration system_step.simps system_inv_def by blast
next
  case (Manage pb q now)
  then show "system_inv sv \<Longrightarrow> ?thesis"
    by (auto simp: system_inv_def manage_model_def split: option.splits prod.splits)
next
  case (Event_Stream e)
  then show "system_inv sv \<Longrightarrow> ?thesis"
    using get_pending_command_vlm [of "orch sv"]
    by (cases e) (auto simp: system_inv_def vlm_ok_def split: prod.splits)
next
  case (Round rd)
  then show "system_inv sv \<Longrightarrow> ?thesis"
    by (simp add: system_inv_def with_orch_def worker_round_vlm_ok)
next
  case Listen
  then show "system_inv sv \<Longrightarrow> ?thesis"
    using queues_ok_step [of "bus (vlm (orch sv))" Subscribe]
    by (auto simp: system_inv_def with_orch_def orch_subscribe_def vlm_ok_def split_beta Let_def)
next
  case (Unlisten q)
  then show "system_inv sv \<Longrightarrow> ?thesis"
    using queues_ok_step [of "bus (vlm (orch sv))" "Unsubscribe q"]
    by (auto simp: system_inv_def with_orch_def orch_unsubscribe_def vlm_ok_def)
next
  case (Clean now)
  then show "system_inv sv \<Longrightarrow> ?thesis"
    using sessions_inv_step [of _ "Cleanup now"] by (auto simp: system_inv_def)
qed

interpretation system: kept_invariant system_step system_inv
  by unfold_locales (rule system_inv_step)

lemma sessions_config:
  assumes "session_mgr sv = Some sm"
  shows "\<exists>sm1. session_mgr (system_step sv op) = Some sm1 \<and> max_devices sm1 = max_devices sm"
proof (cases op)
  case (Message ae m dev n)
  obtain res env where m: "m = (res, env)" by fastforce
  obtain r st1 where r: "receive ae (res, env)
      \<lparr>s_server = sv, s_device = dev, s_frames = n, s_aborted = None\<rparr> = (r, st1)" by fastforce
  with receive_sessions [OF r] assms show ?thesis by (auto simp: Message m)
next
  case (Event_Stream e)
  then show ?thesis using assms by (cases e) (simp_all add: split_beta)
next
  case (Registration q now u1 u2)
  then show ?thesis using assms
    by (auto simp: register_device_def register_def Let_def split: option.splits if_splits prod.splits)
qed (use assms in \<open>auto simp: unregister_def send_control_command_def manage_model_def with_orch_def
    cleanup_expired_eq split_beta split: option.splits\<close>)

lemma sessions_config_run:
  assumes "session_mgr sv = Some sm"
  shows "\<exists>sm1. session_mgr (foldl system_step sv ops) = Some sm1 \<and> max_devices sm1 = max_devices sm"
  using assms
proof (induction ops arbitrary: sv sm)
  case (Cons op ops)
  then obtain sm1 where "session_mgr (system_step sv op) = Some sm1" "max_devices sm1 = max_devices sm"
    using sessions_config by blast
  with Cons.IH [of "system_step sv op" sm1] show ?case by simp
qed simp

subsection \<open>Properties\<close>

text \<open>
  Claim C3. The components keep their bounds together: from a server whose session manager
  and bus are as \<open>main\<close> builds them, after any interleaving of messages, calls, worker rounds,
  listeners and clean-ups, there are at most \<open>max_devices\<close> sessions, no device twice, at most
  as many queued requests as the queue's size, and at most 50 events in a listener's queue.
\<close>

theorem system_within_bounds:
  assumes "system_inv sv" and "session_mgr sv = Some sm" and "sv1 = foldl system_step sv ops"
  shows "\<exists>sm1. session_mgr sv1 = Some sm1 \<and> max_devices sm1 = max_devices sm \<and>
    device_count sm1 \<le> max 0 (max_devices sm) \<and> distinct (map fst (sessions sm1)) \<and>
    (0 < q_max (queue (vlm (orch sv1))) \<longrightarrow>
       length (q_items (queue (vlm (orch sv1)))) \<le> q_max (queue (vlm (orch sv1)))) \<and>
    (\<forall>l \<in> set (listeners (bus (vlm (orch sv1)))). length (items l) \<le> queue_size)"
proof -
  have "system_inv sv1" unfolding assms(3) using assms(1) by (rule system.run_keeps)
  moreover obtain sm1 where "session_mgr sv1 = Some sm1" "max_devices sm1 = max_devices sm"
    using sessions_config_run [OF assms(2)] assms(3) by blast
  ultimately show ?thesis
    by (auto simp: system_inv_def sessions_inv_def dict_ok_def device_count_def vlm_ok_def queues_ok_def)
qed

lemma system_inv_new:
  "system_inv \<lparr>orch = new_orchestrator path rs st mode vp cb al cl bm b r a g,
     session_mgr = Some (new_session_manager interval expiry maxd), limits = l,
     registered_models = reg, timeseries_on = ts, ab_tests = None\<rparr>"
  by (simp add: system_inv_def sessions_inv_new new_orchestrator_def set_command_queue_def new_pipeline_def
      new_vlm_queue_def vlm_ok_def new_event_bus_def queues_ok_def Let_def)

theorem system_within_bounds_witness:
  "\<exists>sm1. session_mgr (foldl system_step (test_server None)
     [Registration a_device 1 0 0, Message (Other_Error '''') (sample_result, calm 2) '''' 0, Listen, Clean 9])
     = Some sm1 \<and> device_count sm1 \<le> 0"
proof -
  have sv: "system_inv (test_server None)" "session_mgr (test_server None) = Some (new_session_manager 30 90 0)"
    using system_inv_new by (simp_all add: test_server_def fresh_def)
  show ?thesis
    using system_within_bounds [OF sv refl] unfolding new_session_manager_def
    by (simp only: session_manager.simps) (metis max.idem)
qed

end
