(* ===== verification/Worker_Steps.thy ===== *)
theory Worker_Steps
  imports System
begin

text \<open>
  The VLM worker (\<open>_worker\<close> and \<open>_process_item\<close> of \<open>pipeline/vlm_pipeline.py\<close>) at the
  granularity of its awaits, beside the other tasks of the server. \<open>Vlm_Pipeline\<close> takes a round of
  the worker as one step; here the worker is suspended at each \<open>await\<close>, and between two of its
  steps any message, call, listener or clean-up of \<open>System\<close> may happen, and so may the shutdown of
  \<open>central_orchestrator.py\<close>. Between two items of a batch the model lets other tasks run even where the
  code does not wait, which only adds interleavings.
\<close>

subsection \<open>Where the worker is suspended\<close>

text \<open>
  \<open>Items rest\<close> stands before the next item of a batch, each with the result that the batch
  inference gave for it; \<open>Stopped left\<close> is the cancelled worker with the items it had taken and never
  marked as done.
\<close>

datatype await =
    Fetching
  | Collecting "vlm_item list"
  | Infer "vlm_item list"
  | Items "(vlm_item \<times> string option) list"
  | Analyze vlm_item string "(vlm_item \<times> string option) list"
  | Upload vlm_item string "(vlm_item \<times> string option) list"
  | Stopped "vlm_item list"

definition with_results :: "string list \<Rightarrow> vlm_item list \<Rightarrow> (vlm_item \<times> string option) list" where
  "with_results rs b = map (\<lambda>(i, it). (it, if i < length rs then Some (rs ! i) else None)) (enumerate 0 b)"

definition without_results :: "vlm_item list \<Rightarrow> (vlm_item \<times> string option) list" where
  "without_results b = map (\<lambda>it. (it, None)) b"

text \<open>The code between an answer and the next await: the books and the event, then the upload.\<close>

definition success_books :: "pipeline \<Rightarrow> environment \<Rightarrow> vlm_item \<Rightarrow> string \<Rightarrow> pipeline" where
  "success_books p env it result =
     (let p1 = record_turns p it result
      in p1\<lparr>breaker := record_success (breaker p1),
            bus := publish (bus p1) (db_event env) (db_point env) (vlm_event it result (wall env)) (wall env)\<rparr>)"

definition guided :: "pipeline \<Rightarrow> environment \<Rightarrow> vlm_item \<Rightarrow> string \<Rightarrow> pipeline" where
  "guided p env it result =
     (case config_guide p of
        None \<Rightarrow> p
      | Some g \<Rightarrow> if item_device_id it = '''' then p
          else apply_vlm_guidance (pb_importable env) (number_text env) g result (item_device_id it) p)"

definition conclude ::
    "pipeline \<Rightarrow> environment \<Rightarrow> vlm_item \<Rightarrow> string \<Rightarrow> (vlm_item \<times> string option) list \<Rightarrow> pipeline \<times> await" where
  "conclude p env it result rest =
     (let p1 = success_books p env it result
      in if cloud_on p1 \<and> item_frame_data it \<noteq> '''' then (p1, Upload it result rest)
         else (task_done (guided p1 env it result), Items rest))"

text \<open>
  One rule for each way to go from an await to the next. The deadline of a batch may pass at any
  time, as may the timeouts of the engine.
\<close>

inductive worker_step :: "pipeline \<Rightarrow> await \<Rightarrow> pipeline \<Rightarrow> await \<Rightarrow> bool" where
  take_first: "q_items (queue p) = it # its \<Longrightarrow>
    worker_step p Fetching (p\<lparr>queue := (queue p)\<lparr>q_items := its\<rparr>\<rparr>) (Collecting [it])"
| take_next: "q_items (queue p) = it # its \<Longrightarrow> int (length b) < batch_max_size p \<Longrightarrow>
    worker_step p (Collecting b) (p\<lparr>queue := (queue p)\<lparr>q_items := its\<rparr>\<rparr>) (Collecting (b @ [it]))"
| one_by_one: "p_engine p = None \<or> length b \<le> 1 \<Longrightarrow> worker_step p (Collecting b) p (Items (without_results b))"
| ask_batch: "p_engine p \<noteq> None \<Longrightarrow> 1 < length b \<Longrightarrow>
    worker_step p (Collecting b) (p\<lparr>engine_calls := engine_calls p @ [map item_prompt b]\<rparr>) (Infer b)"
| batch_answered: "worker_step p (Infer b) p (Items (with_results rs b))"
| batch_failed: "worker_step p (Infer b) p (Items (without_results b))"
| refused: "allow_request (breaker p) now = (False, cb) \<Longrightarrow>
    worker_step p (Items ((it, br) # rest)) (task_done (p\<lparr>breaker := cb\<rparr>)) (Items rest)"
| asked: "allow_request (breaker p) (monotonic env) = (True, cb) \<Longrightarrow> with_history (p\<lparr>breaker := cb\<rparr>) env it = Inr prompt1 \<Longrightarrow>
    with_conversation (p\<lparr>breaker := cb\<rparr>) (item_device_id it) prompt1 = (prompt2, p1) \<Longrightarrow> p_engine p1 \<noteq> None \<Longrightarrow>
    worker_step p (Items ((it, None) # rest)) (p1\<lparr>engine_calls := engine_calls p1 @ [[prompt2]]\<rparr>) (Analyze it prompt2 rest)"
| no_engine: "allow_request (breaker p) (monotonic env) = (True, cb) \<Longrightarrow> with_history (p\<lparr>breaker := cb\<rparr>) env it = Inr prompt1 \<Longrightarrow>
    with_conversation (p\<lparr>breaker := cb\<rparr>) (item_device_id it) prompt1 = (prompt2, p1) \<Longrightarrow> p_engine p1 = None \<Longrightarrow>
    worker_step p (Items ((it, None) # rest)) (task_done (after_failure p1 env)) (Items rest)"
| given: "allow_request (breaker p) (monotonic env) = (True, cb) \<Longrightarrow> with_history (p\<lparr>breaker := cb\<rparr>) env it = Inr prompt1 \<Longrightarrow>
    with_conversation (p\<lparr>breaker := cb\<rparr>) (item_device_id it) prompt1 = (prompt2, p1) \<Longrightarrow>
    conclude p1 env it result rest = (p2, t) \<Longrightarrow> worker_step p (Items ((it, Some result) # rest)) p2 t"
| answered: "answer env prompt = Inr result \<Longrightarrow> conclude p env it result rest = (p1, t) \<Longrightarrow>
    worker_step p (Analyze it prompt rest) p1 t"
| failed: "answer env prompt = Inl e \<Longrightarrow> is_exception e \<Longrightarrow>
    worker_step p (Analyze it prompt rest) (task_done (after_failure p env)) (Items rest)"
| stored: "worker_step p (Upload it result rest)
    (task_done (guided (p\<lparr>uploaded := uploaded p @ [item_frame_id it]\<rparr>) env it result)) (Items rest)"
| not_stored: "worker_step p (Upload it result rest) (task_done (guided p env it result)) (Items rest)"
| round_over: "worker_step p (Items []) p Fetching"

inductive_cases worker_stepE:
  "worker_step p Fetching p1 t" "worker_step p (Collecting b) p1 t" "worker_step p (Infer b) p1 t"
  "worker_step p (Items rest) p1 t" "worker_step p (Analyze it s rest) p1 t"
  "worker_step p (Upload it r rest) p1 t" "worker_step p (Stopped left) p1 t"

subsection \<open>The other tasks and the shutdown\<close>

text \<open>
  A cancellation arrives where the worker waits. In the collection loop it ends the loop, in the batch
  inference it leaves \<open>_worker\<close>; inside an item the \<open>finally\<close> block marks this item as done.
\<close>

fun waits :: "await \<Rightarrow> bool" where
  "waits (Items _) = False"
| "waits _ = True"

fun cancelled :: "pipeline \<Rightarrow> await \<Rightarrow> pipeline \<times> await" where
  "cancelled p Fetching = (p, Stopped [])"
| "cancelled p (Collecting b) = (p, Stopped b)"
| "cancelled p (Infer b) = (p, Stopped b)"
| "cancelled p (Items rest) = (p, Stopped (map fst rest))"
| "cancelled p (Analyze it s rest) = (task_done p, Stopped (map fst rest))"
| "cancelled p (Upload it r rest) = (task_done p, Stopped (map fst rest))"
| "cancelled p (Stopped left) = (p, Stopped left)"

text \<open>The end of \<open>shutdown\<close>: the worker is cancelled and awaited, the model unloaded.\<close>

definition close_down :: "pipeline \<Rightarrow> await \<Rightarrow> pipeline \<times> await" where
  "close_down p t = (let (p1, t1) = cancelled p t
     in (p1\<lparr>worker_running := False, p_engine := map_option unload_model (p_engine p1)\<rparr>, t1))"

text \<open>\<open>Ended drained\<close> says whether \<open>join\<close> had returned when the worker was cancelled.\<close>

datatype phase = Running | Joining | Ended bool

record run_state =
  srv :: server
  task :: await
  phase :: phase

abbreviation pipe :: "run_state \<Rightarrow> pipeline" where
  "pipe s \<equiv> vlm (orch (srv s))"

definition set_pipe :: "pipeline \<Rightarrow> run_state \<Rightarrow> run_state" where
  "set_pipe p s = s\<lparr>srv := with_orch (\<lambda>o1. o1\<lparr>vlm := p\<rparr>) (srv s)\<rparr>"

definition shut_flag :: "run_state \<Rightarrow> run_state" where
  "shut_flag s = s\<lparr>srv := with_orch (\<lambda>o1. o1\<lparr>proc := (proc o1)\<lparr>shutting_down := True\<rparr>\<rparr>) (srv s)\<rparr>"

definition close :: "bool \<Rightarrow> run_state \<Rightarrow> run_state" where
  "close drained s = (let (p, t) = close_down (pipe s) (task s) in (set_pipe p s)\<lparr>task := t, phase := Ended drained\<rparr>)"

fun is_round :: "system_op \<Rightarrow> bool" where
  "is_round (Round _) = True"
| "is_round _ = False"

inductive live_step :: "run_state \<Rightarrow> run_state \<Rightarrow> bool" where
  worker: "worker_step (pipe s) (task s) p t \<Longrightarrow> live_step s ((set_pipe p s)\<lparr>task := t\<rparr>)"
| other: "\<not> is_round op \<Longrightarrow> live_step s (s\<lparr>srv := system_step (srv s) op\<rparr>)"
| shutdown_idle: "phase s = Running \<Longrightarrow> q_items (queue (pipe s)) = [] \<Longrightarrow> waits (task s) \<Longrightarrow>
    live_step s (close False (shut_flag s))"
| shutdown_busy: "phase s = Running \<Longrightarrow> q_items (queue (pipe s)) \<noteq> [] \<Longrightarrow>
    live_step s ((shut_flag s)\<lparr>phase := Joining\<rparr>)"
| joined: "phase s = Joining \<Longrightarrow> unfinished (queue (pipe s)) = 0 \<Longrightarrow> waits (task s) \<Longrightarrow> live_step s (close True s)"
| join_timeout: "phase s = Joining \<Longrightarrow> waits (task s) \<Longrightarrow> live_step s (close False s)"

inductive_cases live_stepE: "live_step s s1"

text \<open>The server with a worker that has just been started, and what it can reach.\<close>

inductive reachable :: "run_state \<Rightarrow> run_state \<Rightarrow> bool" for s0 where
  here: "reachable s0 s0"
| next_step: "reachable s0 s \<Longrightarrow> live_step s s1 \<Longrightarrow> reachable s0 s1"

subsection \<open>What a step of the worker keeps\<close>

primrec in_hand :: "await \<Rightarrow> nat" where
  "in_hand Fetching = 0"
| "in_hand (Collecting b) = length b"
| "in_hand (Infer b) = length b"
| "in_hand (Items rest) = length rest"
| "in_hand (Analyze it s rest) = Suc (length rest)"
| "in_hand (Upload it r rest) = Suc (length rest)"
| "in_hand (Stopped left) = length left"

lemma length_with_results [simp]: "length (with_results rs b) = length b" "length (without_results b) = length b"
  by (simp_all add: with_results_def without_results_def)

lemma batch_max_kept [simp]:
  "batch_max_size (task_done p) = batch_max_size p"
  "batch_max_size (record_turns p it s) = batch_max_size p"
  "batch_max_size (apply_vlm_guidance pb num g s dev p) = batch_max_size p"
  "batch_max_size (after_failure p env) = batch_max_size p"
  "batch_max_size (snd (with_conversation p dev s)) = batch_max_size p"
  by (simp_all add: task_done_def record_turns_def apply_vlm_guidance_def after_failure_def with_conversation_def Let_def
      split: option.splits prod.splits)

lemma guided_fields [simp]:
  "queue (guided p env it r) = queue p" "bus (guided p env it r) = bus p" "breaker (guided p env it r) = breaker p"
  "batch_max_size (guided p env it r) = batch_max_size p"
  by (simp_all add: guided_def split: option.split)

lemma success_books_fields [simp]:
  "queue (success_books p env it r) = queue p"
  "breaker (success_books p env it r) = record_success (breaker p)"
  "bus (success_books p env it r) = publish (bus p) (db_event env) (db_point env) (vlm_event it r (wall env)) (wall env)"
  "batch_max_size (success_books p env it r) = batch_max_size p"
  by (simp_all add: success_books_def Let_def)

lemma conversation_queue:
  assumes "with_conversation p dev s = (s1, p1)"
  shows "queue p1 = queue p \<and> bus p1 = bus p \<and> breaker p1 = breaker p \<and> batch_max_size p1 = batch_max_size p"
  using with_conversation_fields(1-3) [of p dev s] batch_max_kept(5) [of p dev s] by (simp_all add: assms)

text \<open>The count of unfinished tasks less what is queued and what the worker holds.\<close>

definition balance :: "pipeline \<Rightarrow> await \<Rightarrow> int" where
  "balance p t = unfinished (queue p) - int (length (q_items (queue p))) - int (in_hand t)"

lemma conclude_keeps:
  assumes "conclude p env it r rest = (p1, t)"
  shows "in_hand t + length (q_items (queue p1)) \<le> Suc (length rest) + length (q_items (queue p))"
    and "balance p1 t = unfinished (queue p) - int (length (q_items (queue p))) - int (Suc (length rest))"
    and "q_max (queue p1) = q_max (queue p)" "q_items (queue p1) = q_items (queue p)"
    and "batch_max_size p1 = batch_max_size p" "breaker p1 = record_success (breaker p)"
    and "bus p1 = publish (bus p) (db_event env) (db_point env) (vlm_event it r (wall env)) (wall env)"
    and "t = Upload it r rest \<or> t = Items rest"
  using assms by (auto simp: conclude_def balance_def Let_def split: if_splits)

lemma worker_step_balance:
  assumes "worker_step p t p1 t1"
  shows "balance p1 t1 = balance p t"
  using assms
  by cases (auto simp: balance_def conclude_keeps(2) [unfolded balance_def] dest!: conversation_queue)

lemma worker_step_vlm_ok:
  assumes "worker_step p t p1 t1" and "vlm_ok p"
  shows "vlm_ok p1"
  using assms
  by cases (auto simp: vlm_ok_def queues_ok_publish conclude_keeps(3,4,7) dest!: conversation_queue)

lemma worker_step_batch:
  assumes "worker_step p t p1 t1" and "int (in_hand t) \<le> max 1 (batch_max_size p)"
  shows "int (in_hand t1) \<le> max 1 (batch_max_size p1)"
  using assms
  by cases (auto simp: conclude_keeps(5) dest!: conversation_queue dest: conclude_keeps(8))

subsection \<open>What the other tasks do to the worker's objects\<close>

text \<open>
  They put requests into the queue, which only a server that is not shutting down accepts, and
  leave the breaker, the engine and the batch size alone.
\<close>

definition only_enqueued :: "orchestrator \<Rightarrow> orchestrator \<Rightarrow> bool" where
  "only_enqueued o1 o2 \<longleftrightarrow>
     (\<exists>new. q_items (queue (vlm o2)) = q_items (queue (vlm o1)) @ new \<and>
        unfinished (queue (vlm o2)) = unfinished (queue (vlm o1)) + int (length new) \<and>
        (shutting_down (proc o1) \<longrightarrow> new = [])) \<and>
     shutting_down (proc o2) = shutting_down (proc o1) \<and> breaker (vlm o2) = breaker (vlm o1) \<and>
     batch_max_size (vlm o2) = batch_max_size (vlm o1) \<and> p_engine (vlm o2) = p_engine (vlm o1)"

lemma only_enqueued_refl [simp]: "only_enqueued o1 o1"
  by (simp add: only_enqueued_def)

lemma only_enqueued_same:
  assumes "queue (vlm o2) = queue (vlm o1)" and "proc o2 = proc o1" and "breaker (vlm o2) = breaker (vlm o1)"
    and "batch_max_size (vlm o2) = batch_max_size (vlm o1)" and "p_engine (vlm o2) = p_engine (vlm o1)"
  shows "only_enqueued o1 o2"
  using assms by (simp add: only_enqueued_def)

lemma detection_only_enqueues:
  assumes "process_detection st db res now o1 = (r, o2)"
  shows "only_enqueued o1 o2"
proof -
  have q: "request_vlm p q res = Inr (q1, al) \<Longrightarrow>
      q1 = q \<or> (\<not> shutting_down p \<and> (\<exists>it. q1 = enqueue q it))" for p q q1 al
    by (auto simp: request_vlm_def split: option.splits if_splits sum.splits)
  show ?thesis
    using assms
    by (auto simp: process_detection_def process_def only_enqueued_def Let_def enqueue_def
        split: sum.splits prod.splits dest!: q)
qed

lemma receive_only_enqueues:
  assumes "receive ae (res, env) st = (r, st1)"
  shows "only_enqueued (orch (s_server st)) (orch (s_server st1))"
proof -
  have c: "check_rate sv dev now = (ok, sv2) \<Longrightarrow> orch sv2 = orch sv" for sv dev now ok sv2
    using check_rate_fields(1) [of sv dev now] by simp
  show ?thesis
    using assms detection_only_enqueues
    by (auto simp: receive_def Let_def split: if_splits prod.splits sum.splits dest!: c)
qed

lemma pending_only_enqueues: "only_enqueued o1 (snd (get_pending_command o1))"
  by (rule only_enqueued_same) (simp_all add: get_pending_command_def split: list.split)

lemma edge_event_only_enqueues: "only_enqueued o1 (handle_edge_event ev o1)"
  by (rule only_enqueued_same) (simp_all add: handle_edge_event_def Let_def)

lemma other_only_enqueues:
  assumes "\<not> is_round op"
  shows "only_enqueued (orch sv) (orch (system_step sv op))"
proof (cases op)
  case (Message ae m dev n)
  obtain res env where m: "m = (res, env)" by fastforce
  obtain r st1 where r: "receive ae (res, env)
      \<lparr>s_server = sv, s_device = dev, s_frames = n, s_aborted = None\<rparr> = (r, st1)" by fastforce
  with receive_only_enqueues [OF r] show ?thesis by (simp add: Message m)
next
  case (Registration q now u1 u2)
  then show ?thesis by (simp add: register_device_orch)
next
  case (Event_Stream e)
  then show ?thesis using pending_only_enqueues edge_event_only_enqueues
    by (cases e) (auto simp: with_orch_def split_beta)
next
  case (Round rd)
  with assms show ?thesis by simp
qed (auto simp: with_orch_def orch_subscribe_def orch_unsubscribe_def send_control_command_def manage_model_def
    send_command_def split_beta intro!: only_enqueued_same split: option.splits prod.splits)

subsection \<open>The invariant\<close>

fun stopped :: "await \<Rightarrow> bool" where
  "stopped (Stopped _) = True"
| "stopped _ = False"

fun probing :: "await \<Rightarrow> bool" where
  "probing (Analyze _ _ _) = True"
| "probing t = stopped t"

definition closing :: "run_state \<Rightarrow> bool" where
  "closing s \<longleftrightarrow> shutting_down (proc (orch (srv s)))"

definition phase_ok :: "run_state \<Rightarrow> bool" where
  "phase_ok s \<longleftrightarrow> (case phase s of
      Running \<Rightarrow> \<not> stopped (task s)
    | Joining \<Rightarrow> \<not> stopped (task s) \<and> closing s
    | Ended drained \<Rightarrow> stopped (task s) \<and> closing s \<and>
        (drained \<longrightarrow> task s = Stopped [] \<and> unfinished (queue (pipe s)) = 0))"

definition run_inv :: "run_state \<Rightarrow> bool" where
  "run_inv s \<longleftrightarrow> system_inv (srv s) \<and> balance (pipe s) (task s) = 0 \<and>
     int (in_hand (task s)) \<le> max 1 (batch_max_size (pipe s)) \<and>
     (state (breaker (pipe s)) = Half_Open \<longrightarrow> probing (task s)) \<and> phase_ok s"

lemmas run_inv_defs = run_inv_def phase_ok_def closing_def

lemma worker_step_half_open:
  assumes "worker_step p t p1 t1" and "state (breaker p) = Half_Open \<longrightarrow> probing t"
    and "state (breaker p1) = Half_Open"
  shows "probing t1"
proof -
  have s: "state (record_success b) \<noteq> Half_Open" for b
    by (simp add: record_success_def Let_def)
  have f1: "state (record_failure b now) \<noteq> Half_Open" for b now
    by (cases "state b") (auto simp: record_failure_def Let_def)
  have a: "allow_request b now = (False, cb) \<Longrightarrow> cb = b" for b now cb
    by (auto simp: allow_request_def split: if_splits)
  show ?thesis
    using assms
    by cases (auto simp: conclude_keeps(6) s f1 dest: a dest!: conversation_queue)
qed

lemma worker_step_running: "worker_step p t p1 t1 \<Longrightarrow> \<not> stopped t \<and> \<not> stopped t1"
  by (cases rule: worker_step.cases) (auto dest: conclude_keeps(8))

lemma set_pipe_fields [simp]:
  "pipe (set_pipe p s) = p" "proc (orch (srv (set_pipe p s))) = proc (orch (srv s))"
  "task (set_pipe p s) = task s" "phase (set_pipe p s) = phase s"
  "session_mgr (srv (set_pipe p s)) = session_mgr (srv s)" "ab_tests (srv (set_pipe p s)) = ab_tests (srv s)"
  by (simp_all add: set_pipe_def with_orch_def)

lemma shut_flag_fields [simp]:
  "pipe (shut_flag s) = pipe s" "shutting_down (proc (orch (srv (shut_flag s))))"
  "task (shut_flag s) = task s" "phase (shut_flag s) = phase s"
  "session_mgr (srv (shut_flag s)) = session_mgr (srv s)" "ab_tests (srv (shut_flag s)) = ab_tests (srv s)"
  by (simp_all add: shut_flag_def with_orch_def)

lemma cancelled_cases:
  assumes "cancelled p t = (p1, t1)"
  shows "balance p1 t1 = balance p t" "stopped t1" "breaker p1 = breaker p" "bus p1 = bus p" "in_hand t1 \<le> in_hand t"
    and "q_items (queue p1) = q_items (queue p)" "q_max (queue p1) = q_max (queue p)" "batch_max_size p1 = batch_max_size p"
  using assms by (cases t; auto simp: balance_def)+

lemma close_inv:
  assumes inv: "run_inv s" and c: "closing s" and d: "drained \<longrightarrow> unfinished (queue (pipe s)) = 0"
  shows "run_inv (close drained s)"
proof -
  obtain p t where p: "cancelled (pipe s) (task s) = (p, t)" by fastforce
  note k = cancelled_cases [OF p]
  have drained: "t = Stopped [] \<and> unfinished (queue p) = 0" if drained
  proof -
    have "in_hand (task s) = 0" using inv d that by (simp add: run_inv_def balance_def)
    then show ?thesis using p d that inv
      by (cases "task s") (auto simp: run_inv_def phase_ok_def split: phase.splits)
  qed
  have v: "vlm_ok (p\<lparr>worker_running := False, p_engine := e\<rparr>)" for e
    using inv k by (auto simp: run_inv_def system_inv_def vlm_ok_def)
  have "probing t" using k(2) by (cases t) simp_all
  with inv c k drained v show ?thesis
    unfolding run_inv_def phase_ok_def closing_def close_def close_down_def Let_def p prod.case
    by (auto simp: system_inv_def balance_def)
qed

lemma worker_inv:
  assumes inv: "run_inv s" and w: "worker_step (pipe s) (task s) p t"
  shows "run_inv ((set_pipe p s)\<lparr>task := t\<rparr>)"
proof -
  have "\<not> stopped (task s)" "\<not> stopped t" using worker_step_running [OF w] by simp_all
  then have "phase_ok ((set_pipe p s)\<lparr>task := t\<rparr>)"
    using inv by (auto simp: run_inv_defs split: phase.splits)
  with inv worker_step_balance [OF w] worker_step_vlm_ok [OF w] worker_step_batch [OF w] worker_step_half_open [OF w]
  show ?thesis by (auto simp: run_inv_def system_inv_def)
qed

lemma other_inv:
  assumes inv: "run_inv s" and "\<not> is_round op"
  shows "run_inv (s\<lparr>srv := system_step (srv s) op\<rparr>)"
proof -
  note o = other_only_enqueues [OF assms(2), of "srv s"]
  have "system_inv (system_step (srv s) op)"
    using inv by (simp add: run_inv_def system.step_keeps)
  moreover have "balance (vlm (orch (system_step (srv s) op))) (task s) = balance (pipe s) (task s)"
    using o by (auto simp: only_enqueued_def balance_def)
  ultimately show ?thesis
    using inv o by (auto simp: run_inv_defs only_enqueued_def split: phase.splits)
qed

lemma live_step_inv: "live_step s s1 \<Longrightarrow> run_inv s \<Longrightarrow> run_inv s1"
proof (induction rule: live_step.induct)
  case (shutdown_idle s)
  then have "run_inv (shut_flag s)"
    by (auto simp: run_inv_defs system_inv_def)
  then show ?case by (rule close_inv) (simp_all add: closing_def)
next
  case (shutdown_busy s)
  then show ?case by (auto simp: run_inv_defs system_inv_def)
next
  case (joined s)
  then show ?case by (intro close_inv) (auto simp: run_inv_defs)
next
  case (join_timeout s)
  then show ?case by (intro close_inv) (auto simp: run_inv_defs)
qed (simp_all add: worker_inv other_inv)

lemma reachable_inv: "reachable s0 s \<Longrightarrow> run_inv s0 \<Longrightarrow> run_inv s"
  by (induction rule: reachable.induct) (auto intro: live_step_inv)

text \<open>\<open>started\<close>: the worker has just been started; every queued task is unfinished, the breaker not half open.\<close>

definition started :: "run_state \<Rightarrow> bool" where
  "started s \<longleftrightarrow> system_inv (srv s) \<and> task s = Fetching \<and> phase s = Running \<and>
     unfinished (queue (pipe s)) = int (length (q_items (queue (pipe s)))) \<and> state (breaker (pipe s)) \<noteq> Half_Open"

lemma started_inv: "started s \<Longrightarrow> run_inv s"
  by (simp add: started_def run_inv_def balance_def phase_ok_def)


subsection \<open>A round without interference\<close>

definition worker_run :: "pipeline \<times> await \<Rightarrow> pipeline \<times> await \<Rightarrow> bool" where
  "worker_run = (\<lambda>(p, t) (p1, t1). worker_step p t p1 t1)\<^sup>*\<^sup>*"

lemma run_refl [simp]: "worker_run x x"
  by (simp add: worker_run_def)

lemma run_step: "worker_step p t p1 t1 \<Longrightarrow> worker_run (p1, t1) x \<Longrightarrow> worker_run (p, t) x"
  unfolding worker_run_def by (rule converse_rtranclp_into_rtranclp [where b = "(p1, t1)"]) simp_all

lemma run_trans: "worker_run x y \<Longrightarrow> worker_run y z \<Longrightarrow> worker_run x z"
  unfolding worker_run_def by (rule rtranclp_trans)

lemma run_one: "worker_step p t p1 t1 \<Longrightarrow> worker_run (p, t) (p1, t1)"
  by (erule run_step) simp

lemma cancellation_case: "(case e of Cancelled_Error \<Rightarrow> a | _ \<Rightarrow> b) = (if e = Cancelled_Error then a else b)"
  by (cases e) simp_all

lemma after_success_eq:
  "after_success p env it result = (let p1 = success_books p env it result
     in if cloud_on p1 \<and> item_frame_data it \<noteq> '''' then
          (case upload_error env of
             None \<Rightarrow> (Inr (), guided (p1\<lparr>uploaded := uploaded p1 @ [item_frame_id it]\<rparr>) env it result)
           | Some e \<Rightarrow> if e = Cancelled_Error then (Inl Cancelled_Error, p1) else (Inr (), guided p1 env it result))
        else (Inr (), guided p1 env it result))"
  by (auto simp: after_success_def success_books_def guided_def cancellation_case Let_def split: option.split)

lemma run_conclude:
  assumes "after_success p env it result = (Inr (), p2)"
    and "\<And>p1 t. conclude p env it result rest = (p1, t) \<Longrightarrow> worker_step q u p1 t"
  shows "worker_run (q, u) (task_done p2, Items rest)"
proof -
  let ?b = "success_books p env it result"
  show ?thesis
  proof (cases "cloud_on ?b \<and> item_frame_data it \<noteq> ''''")
    case True
    then have "worker_step q u ?b (Upload it result rest)"
      by (intro assms(2)) (simp add: conclude_def Let_def)
    moreover have "worker_step ?b (Upload it result rest) (task_done p2) (Items rest)"
      using assms(1) True stored [of ?b it result rest env] not_stored [of ?b it result rest env]
      by (simp add: after_success_eq Let_def split: option.splits if_splits)
    ultimately show ?thesis by (blast intro: run_step run_one)
  next
    case False
    with assms(1) have "p2 = guided ?b env it result" by (simp add: after_success_eq Let_def)
    with False show ?thesis by (auto simp: conclude_def Let_def intro!: run_one assms(2))
  qed
qed

lemma with_history_raises: "with_history p env it = Inl e \<Longrightarrow> \<not> is_exception e"
  by (auto simp: with_history_def split: option.splits if_splits sum.splits)

lemma run_item:
  assumes "process_item p env it br = (Inr (), p3)"
  shows "worker_run (p, Items ((it, br) # rest)) (p3, Items rest)"
proof -
  obtain ok cb where a: "allow_request (breaker p) (monotonic env) = (ok, cb)" by fastforce
  let ?p = "p\<lparr>breaker := cb\<rparr>"
  show ?thesis
  proof (cases ok)
    case False
    with a assms show ?thesis by (auto simp: process_item_def Let_def intro!: run_one refused)
  next
    case True
    with a assms have "\<exists>prompt1. with_history ?p env it = Inr prompt1"
      by (cases "with_history ?p env it") (auto simp: process_item_def analysis_def Let_def dest: with_history_raises)
    then obtain prompt1 where h: "with_history ?p env it = Inr prompt1" ..
    obtain prompt2 p1 where c: "with_conversation ?p (item_device_id it) prompt1 = (prompt2, p1)" by fastforce
    note pre = a [unfolded eqTrueI [OF True]] h c
    have pi: "process_item p env it br = (case analysis ?p env it br of
             (Inl e, p1) \<Rightarrow>
               if is_exception e then (Inr (), task_done (after_failure p1 env))
               else (Inl e, task_done p1)
           | (Inr result, p1) \<Rightarrow>
               (case after_success p1 env it result of (r, p2) \<Rightarrow> (r, task_done p2)))"
      using pre(1) by (simp add: process_item_def Let_def)
    show ?thesis
    proof (cases br)
      case (Some result)
      with h c have "analysis ?p env it br = (Inr result, p1)" by (simp add: analysis_def)
      with pi assms obtain p2 where "after_success p1 env it result = (Inr (), p2)" "p3 = task_done p2"
        by (auto split: prod.splits)
      with Some pre show ?thesis by (auto intro: run_conclude given)
    next
      case None
      show ?thesis
      proof (cases "p_engine p1 = None")
        case True
        with h c None have "analysis ?p env it br = (Inl (Attribute_Error ''NoneType has no attribute analyze_image''), p1)"
          by (simp add: analysis_def)
        with pi assms None True pre show ?thesis by (auto intro: run_one no_engine)
      next
        case False
        let ?q = "p1\<lparr>engine_calls := engine_calls p1 @ [[prompt2]]\<rparr>"
        have s: "worker_step p (Items ((it, br) # rest)) ?q (Analyze it prompt2 rest)"
          unfolding None by (rule asked [OF pre False])
        have an: "analysis ?p env it br = (answer env prompt2, ?q)" using h c None False by (auto simp: analysis_def)
        have "worker_run (?q, Analyze it prompt2 rest) (p3, Items rest)"
        proof (cases "answer env prompt2")
          case (Inl e)
          with pi an assms show ?thesis by (auto intro: run_one failed split: if_splits)
        next
          case (Inr result)
          with pi an assms obtain p2 where "after_success ?q env it result = (Inr (), p2)" "p3 = task_done p2"
            by (auto split: prod.splits)
          with Inr show ?thesis by (auto intro: run_conclude answered)
        qed
        with s show ?thesis by (rule run_step)
      qed
    qed
  qed
qed

definition paired :: "string list option \<Rightarrow> nat \<Rightarrow> vlm_item list \<Rightarrow> (vlm_item \<times> string option) list" where
  "paired results i its = map (\<lambda>(j, it). (it, case results of None \<Rightarrow> None
     | Some rs \<Rightarrow> if j < length rs then Some (rs ! j) else None)) (enumerate i its)"

lemma paired_simps: "paired None 0 its = without_results its" "paired (Some rs) 0 its = with_results rs its"
  by (auto simp: paired_def without_results_def with_results_def nth_enumerate_eq intro: nth_equalityI)

lemma run_items:
  assumes "process_items results i xs p = (Inr (), p1)"
  shows "worker_run (p, Items (paired results i (map fst xs))) (p1, Items [])"
  using assms
proof (induction xs arbitrary: i p)
  case (Cons x xs)
  obtain it env where x: "x = (it, env)" by (cases x)
  let ?br = "case results of None \<Rightarrow> None | Some rs \<Rightarrow> if i < length rs then Some (rs ! i) else None"
  obtain r p2 where r: "process_item p env it ?br = (r, p2)" by fastforce
  with Cons.prems have "r = Inr ()" and rest: "process_items results (Suc i) xs p2 = (Inr (), p1)"
    by (auto simp: x Let_def split: sum.splits)
  with run_item [of p env it ?br p2 "paired results (Suc i) (map fst xs)"] r
  have "worker_run (p, Items (paired results i (map fst (x # xs)))) (p2, Items (paired results (Suc i) (map fst xs)))"
    by (simp add: x paired_def)
  then show ?case using Cons.IH [OF rest] by (rule run_trans)
qed (simp add: paired_def)

lemma run_collect:
  assumes "0 < n" and "n \<le> length (q_items (queue p))" and "int n \<le> max 1 (batch_max_size p)"
  shows "worker_run (p, Fetching)
    (p\<lparr>queue := (queue p)\<lparr>q_items := drop n (q_items (queue p))\<rparr>\<rparr>, Collecting (take n (q_items (queue p))))"
  using assms
proof (induction n)
  case (Suc n)
  let ?q = "\<lambda>k. p\<lparr>queue := (queue p)\<lparr>q_items := drop k (q_items (queue p))\<rparr>\<rparr>"
  have split: "drop n (q_items (queue p)) = q_items (queue p) ! n # drop (Suc n) (q_items (queue p))"
    using Suc.prems by (simp add: Cons_nth_drop_Suc)
  show ?case
  proof (cases "n = 0")
    case True
    with split have "worker_step p Fetching (?q 1) (Collecting [q_items (queue p) ! 0])"
      by (intro take_first) simp
    moreover have "take 1 (q_items (queue p)) = [q_items (queue p) ! 0]"
      using Suc.prems by (cases "q_items (queue p)") simp_all
    ultimately show ?thesis using run_one True by simp
  next
    case False
    with Suc have "worker_run (p, Fetching) (?q n, Collecting (take n (q_items (queue p))))" by simp
    moreover have "worker_step (?q n) (Collecting (take n (q_items (queue p)))) (?q (Suc n))
        (Collecting (take n (q_items (queue p)) @ [q_items (queue p) ! n]))"
      using take_next [of "?q n" "q_items (queue p) ! n" "drop (Suc n) (q_items (queue p))" "take n (q_items (queue p))"]
        split Suc.prems False by simp
    moreover have "take (Suc n) (q_items (queue p)) = take n (q_items (queue p)) @ [q_items (queue p) ! n]"
      using Suc.prems by (simp add: take_Suc_conv_app_nth)
    ultimately show ?thesis using run_trans [OF _ run_one] by simp
  qed
qed simp

lemma run_round:
  assumes w: "worker_round batch envs n p = (Inr (), p1)"
    and "length envs = n" and "0 < n" and "n \<le> length (q_items (queue p))" and "int n \<le> max 1 (batch_max_size p)"
  shows "worker_run (p, Fetching) (p1, Fetching)"
proof -
  let ?b = "take n (q_items (queue p))"
  let ?p = "p\<lparr>queue := (queue p)\<lparr>q_items := drop n (q_items (queue p))\<rparr>\<rparr>"
  have c: "worker_run (p, Fetching) (?p, Collecting ?b)" using assms(3-5) by (rule run_collect)
  obtain results p2 where b: "batch_answer batch ?b ?p = (Inr results, p2)"
    and i: "process_items results 0 (zip ?b envs) p2 = (Inr (), p1)"
    using w by (auto simp: worker_round_def Let_def split: prod.splits sum.splits)
  have "worker_run (?p, Collecting ?b) (p2, Items (paired results 0 ?b))"
  proof (cases "p_engine ?p = None \<or> length ?b \<le> 1")
    case True
    with b have "results = None" "p2 = ?p" by (auto simp: batch_answer_def)
    with True show ?thesis by (simp add: paired_simps run_one one_by_one)
  next
    case False
    then have "worker_step ?p (Collecting ?b) (?p\<lparr>engine_calls := engine_calls ?p @ [map item_prompt ?b]\<rparr>) (Infer ?b)"
      by (intro ask_batch) auto
    moreover from False b have "p2 = ?p\<lparr>engine_calls := engine_calls ?p @ [map item_prompt ?b]\<rparr>"
      by (auto simp: batch_answer_def Let_def comp_def split: sum.splits if_splits)
    moreover have "worker_step p2 (Infer ?b) p2 (Items (paired results 0 ?b))"
      by (cases results) (simp_all add: paired_simps batch_failed batch_answered)
    ultimately show ?thesis by (blast intro: run_step run_one)
  qed
  moreover have "map fst (zip ?b envs) = ?b" using assms(2,4) by simp
  then have "worker_run (p2, Items (paired results 0 ?b)) (p1, Items [])" using run_items [OF i] by simp
  moreover have "worker_run (p1, Items []) (p1, Fetching)" by (intro run_one round_over)
  ultimately show ?thesis using c run_trans by blast
qed

text \<open>A run of the worker alone is a run of the server.\<close>

lemma run_reachable:
  assumes "worker_run (pipe s, task s) (p, t)" and "reachable s0 s"
  shows "\<exists>s1. reachable s0 s1 \<and> pipe s1 = p \<and> task s1 = t \<and> phase s1 = phase s"
  using assms(1) unfolding worker_run_def
proof (induction rule: rtranclp_induct2)
  case refl
  with assms(2) show ?case by blast
next
  case (step p1 t1 p2 t2)
  then obtain s1 where s1: "reachable s0 s1" "pipe s1 = p1" "task s1 = t1" "phase s1 = phase s" by blast
  with step(2) have "live_step s1 ((set_pipe p2 s1)\<lparr>task := t2\<rparr>)" by (simp add: worker)
  with s1 show ?case by (intro exI [of _ "(set_pipe p2 s1)\<lparr>task := t2\<rparr>"]) (auto intro: next_step)
qed

subsection \<open>How much work is left\<close>

text \<open>
  Each step of the worker that does not wait for a new item makes this smaller; at most five steps
  for an item (taken, sent as a batch, asked, answered, stored), and one to end a round.
\<close>

fun work :: "pipeline \<Rightarrow> await \<Rightarrow> nat" where
  "work p Fetching = 7 * length (q_items (queue p))"
| "work p (Collecting b) = 7 * length (q_items (queue p)) + 4 * length b + 2"
| "work p (Infer b) = 7 * length (q_items (queue p)) + 3 * length b + 2"
| "work p (Items rest) = 7 * length (q_items (queue p)) + 3 * length rest + 1"
| "work p (Analyze it s rest) = 7 * length (q_items (queue p)) + 3 * length rest + 3"
| "work p (Upload it r rest) = 7 * length (q_items (queue p)) + 3 * length rest + 2"
| "work p (Stopped left) = 0"

lemma conclude_work:
  "conclude p env it r rest = (p1, t) \<Longrightarrow> work p1 t \<le> 7 * length (q_items (queue p)) + 3 * length rest + 2"
  by (auto simp: conclude_def Let_def split: if_splits)

lemma worker_step_work: "worker_step p t p1 t1 \<Longrightarrow> work p1 t1 < work p t"
proof (induction rule: worker_step.cases)
  case (given p env cb it prompt1 prompt2 p1 result rest p2 t)
  then show ?case using conclude_work [OF given(8)] conversation_queue [OF given(7)] by simp
next
  case (answered env prompt result p it rest p1 t)
  then show ?case using conclude_work [OF answered(6)] by simp
qed (auto simp: Suc_diff_le dest!: conversation_queue)

text \<open>The worker can always go on, unless it waits for an item of an empty queue.\<close>

lemma history_without_store: "\<exists>s. with_history p sample_env it = Inr s"
proof -
  have "is_exception e" if "retrieve ct None g dev ns h now = Inl e" for ct g dev ns h now e
    using that by (auto simp: retrieve_def Let_def split: if_splits)
  then show ?thesis by (auto simp: with_history_def sample_env_def split: option.splits sum.splits)
qed

lemma worker_can_step:
  assumes "\<not> stopped t" and "t = Fetching \<longrightarrow> q_items (queue p) \<noteq> []"
  shows "\<exists>p1 t1. worker_step p t p1 t1"
proof (cases t)
  case Fetching
  with assms(2) obtain it its where "q_items (queue p) = it # its" by (auto simp: neq_Nil_conv)
  then show ?thesis unfolding Fetching using take_first by blast
next
  case (Collecting b)
  then show ?thesis using one_by_one [of p b] ask_batch [of p b] by (cases "p_engine p = None \<or> length b \<le> 1") auto
next
  case (Infer b)
  then show ?thesis using batch_failed by blast
next
  case (Items rest)
  show ?thesis
  proof (cases rest)
    case Nil
    then show ?thesis unfolding Items using round_over by blast
  next
    case (Cons x rest')
    obtain it br where x: "x = (it, br)" by fastforce
    obtain ok cb where a: "allow_request (breaker p) (monotonic sample_env) = (ok, cb)" by fastforce
    obtain prompt1 where h: "with_history (p\<lparr>breaker := cb\<rparr>) sample_env it = Inr prompt1"
      using history_without_store by blast
    obtain prompt2 p1 where c: "with_conversation (p\<lparr>breaker := cb\<rparr>) (item_device_id it) prompt1 = (prompt2, p1)"
      by fastforce
    show ?thesis
    proof (cases ok)
      case False
      with a have "allow_request (breaker p) (monotonic sample_env) = (False, cb)" by simp
      then show ?thesis unfolding Items Cons x using refused by blast
    next
      case True
      with a have a: "allow_request (breaker p) (monotonic sample_env) = (True, cb)" by simp
      show ?thesis
      proof (cases br)
        case None
        then show ?thesis unfolding Items Cons x using asked [OF a h c] no_engine [OF a h c] by blast
      next
        case (Some r)
        obtain p2 t2 where "conclude p1 sample_env it r rest' = (p2, t2)" by fastforce
        then show ?thesis unfolding Items Cons x Some using given [OF a h c] by blast
      qed
    qed
  qed
next
  case (Analyze it s rest)
  obtain p1 t1 where "conclude p sample_env it ''a quiet street'' rest = (p1, t1)" by fastforce
  moreover have "answer sample_env s = Inr ''a quiet street''" by (simp add: sample_env_def)
  ultimately show ?thesis unfolding Analyze using answered by blast
next
  case (Upload it r rest)
  then show ?thesis using not_stored by blast
qed (use assms in simp)

text \<open>The runs in which \<open>join\<close> waits, with the number of the worker's steps.\<close>

inductive join_run :: "run_state \<Rightarrow> nat \<Rightarrow> run_state \<Rightarrow> bool" for s0 where
  join_starts: "phase s0 = Joining \<Longrightarrow> join_run s0 0 s0"
| worker_moves: "join_run s0 k s \<Longrightarrow> worker_step (pipe s) (task s) p t \<Longrightarrow>
    join_run s0 (Suc k) ((set_pipe p s)\<lparr>task := t\<rparr>)"
| others_move: "join_run s0 k s \<Longrightarrow> \<not> is_round op \<Longrightarrow> join_run s0 k (s\<lparr>srv := system_step (srv s) op\<rparr>)"

lemma join_run_reachable: "join_run s k s1 \<Longrightarrow> reachable s s1 \<and> phase s1 = Joining"
  by (induction rule: join_run.induct) (auto intro: here next_step worker other)

lemma work_others:
  assumes "run_inv s" and "phase s = Joining" and "\<not> is_round op"
  shows "work (vlm (orch (system_step (srv s) op))) (task s) = work (pipe s) (task s)"
proof -
  have "q_items (queue (vlm (orch (system_step (srv s) op)))) = q_items (queue (pipe s))"
    using assms other_only_enqueues [OF assms(3), of "srv s"] by (auto simp: run_inv_defs only_enqueued_def)
  then show ?thesis by (cases "task s") simp_all
qed

lemma join_run_work:
  assumes "join_run s k s1" and "run_inv s"
  shows "k + work (pipe s1) (task s1) \<le> work (pipe s) (task s)"
  using assms(1)
proof (induction rule: join_run.induct)
  case (worker_moves k s1 p t)
  with worker_step_work [of "pipe s1" "task s1" p t] show ?case by simp
next
  case (others_move k s1 op)
  then have "run_inv s1" "phase s1 = Joining"
    using join_run_reachable reachable_inv assms(2) by blast+
  with others_move work_others show ?case by simp
qed simp

lemma work_unfinished:
  "run_inv s \<Longrightarrow> int (work (pipe s) (task s)) \<le> 7 * unfinished (queue (pipe s)) + 2"
  by (cases "task s") (auto simp: run_inv_def balance_def)

subsection \<open>After the shutdown\<close>

lemma ended_step:
  assumes "live_step s s1" and "run_inv s" and "phase s = Ended d"
  shows "task s1 = task s \<and> phase s1 = phase s \<and> q_items (queue (pipe s1)) = q_items (queue (pipe s))"
  using assms(1)
proof cases
  case (worker p t)
  with assms(2,3) worker_step_running show ?thesis by (fastforce simp: run_inv_def phase_ok_def)
next
  case (other op)
  with other_only_enqueues [OF other(2), of "srv s"] assms(2,3) show ?thesis
    by (auto simp: run_inv_defs only_enqueued_def)
qed (use assms(3) in simp_all)

lemma ended_stays:
  assumes "reachable s1 s2" and "run_inv s1" and "phase s1 = Ended d"
  shows "task s2 = task s1 \<and> phase s2 = phase s1 \<and> q_items (queue (pipe s2)) = q_items (queue (pipe s1))"
  using assms(1)
proof (induction rule: reachable.induct)
  case (next_step s s2)
  moreover have "run_inv s" using next_step(1) assms(2) by (rule reachable_inv)
  ultimately show ?case using ended_step assms(3) by fastforce
qed simp

lemma idle_shutdown:
  assumes "live_step s s1" and "phase s = Running" and "q_items (queue (pipe s)) = []" and "phase s1 \<noteq> Running"
  shows "s1 = close False (shut_flag s) \<and> waits (task s)"
  using assms by cases simp_all

lemma close_fields:
  "phase (close d s) = Ended d" "task (close d s) = snd (cancelled (pipe s) (task s))"
  "q_items (queue (pipe (close d s))) = q_items (queue (pipe s))"
proof -
  obtain p t where p: "cancelled (pipe s) (task s) = (p, t)" by fastforce
  show "phase (close d s) = Ended d" "task (close d s) = snd (cancelled (pipe s) (task s))"
    "q_items (queue (pipe (close d s))) = q_items (queue (pipe s))"
    using cancelled_cases(6) [OF p] by (simp_all add: close_def close_down_def p)
qed

lemma stopped_left: "stopped t \<longleftrightarrow> (\<exists>left. t = Stopped left)"
  by (cases t) simp_all

subsection \<open>An example\<close>

text \<open>A server whose worker starts with two queued items, with the breaker \<open>b\<close>.\<close>

definition sample_run :: "breaker \<Rightarrow> run_state" where
  "sample_run b = \<lparr>srv = with_orch (\<lambda>o1. o1\<lparr>vlm := sample_pipeline\<lparr>breaker := b\<rparr>\<rparr>) (test_server None),
     task = Fetching, phase = Running\<rparr>"

lemma sample_pipe [simp]:
  "pipe (sample_run b) = sample_pipeline\<lparr>breaker := b\<rparr>" "task (sample_run b) = Fetching" "phase (sample_run b) = Running"
  by (simp_all add: sample_run_def with_orch_def)

lemma sample_queue [simp]:
  "q_items (queue sample_pipeline) = [sample_item, sample_item]" "unfinished (queue sample_pipeline) = 2"
  "batch_max_size sample_pipeline = 8" "p_engine sample_pipeline \<noteq> None"
  by (simp_all add: sample_pipeline_def new_pipeline_def enqueue_def new_vlm_queue_def)

lemma sample_started: "state b \<noteq> Half_Open \<Longrightarrow> started (sample_run b)"
proof -
  have "system_inv (test_server None)"
    unfolding test_server_def fresh_def by (rule system_inv_new)
  moreover have "vlm_ok (sample_pipeline\<lparr>breaker := b\<rparr>)"
    by (simp add: vlm_ok_def sample_pipeline_def new_pipeline_def enqueue_def new_vlm_queue_def new_event_bus_def queues_ok_def)
  ultimately show "state b \<noteq> Half_Open \<Longrightarrow> started (sample_run b)"
    by (simp add: started_def sample_run_def with_orch_def system_inv_def)
qed

lemma sample_taken: "\<exists>s. reachable (sample_run b) s \<and> task s = Collecting [sample_item] \<and> phase s = Running \<and>
    pipe s = sample_pipeline\<lparr>breaker := b, queue := (queue sample_pipeline)\<lparr>q_items := [sample_item]\<rparr>\<rparr>"
proof -
  have "worker_run (pipe (sample_run b), task (sample_run b))
      (sample_pipeline\<lparr>breaker := b, queue := (queue sample_pipeline)\<lparr>q_items := [sample_item]\<rparr>\<rparr>, Collecting [sample_item])"
    using run_collect [of 1 "pipe (sample_run b)"] by simp
  from run_reachable [OF this reachable.here] show ?thesis by simp blast
qed

lemma sample_asked:
  assumes "allow_request b (monotonic sample_env) = (True, cb)"
  shows "\<exists>s prompt. reachable (sample_run b) s \<and> task s = Analyze sample_item prompt [] \<and> breaker (pipe s) = cb \<and>
    alerts_on (pipe s) \<and> alerts_started (pipe s) = []"
proof -
  obtain s where s: "reachable (sample_run b) s" "task s = Collecting [sample_item]"
    "pipe s = sample_pipeline\<lparr>breaker := b, queue := (queue sample_pipeline)\<lparr>q_items := [sample_item]\<rparr>\<rparr>"
    using sample_taken by blast
  let ?p = "(pipe s)\<lparr>breaker := cb\<rparr>"
  have a: "allow_request (breaker (pipe s)) (monotonic sample_env) = (True, cb)" by (simp add: s(3) assms)
  obtain prompt1 where h: "with_history ?p sample_env sample_item = Inr prompt1" using history_without_store by blast
  obtain prompt2 p1 where c: "with_conversation ?p (item_device_id sample_item) prompt1 = (prompt2, p1)" by fastforce
  have e: "p_engine p1 \<noteq> None"
    using with_conversation_fields(7) [of ?p "item_device_id sample_item" prompt1] unfolding c snd_conv by (simp add: s(3))
  have "alerts_on p1 = alerts_on ?p \<and> alerts_started p1 = alerts_started ?p"
    using c by (auto simp: with_conversation_def split: option.splits if_splits prod.splits)
  then have al: "alerts_on p1" "alerts_started p1 = []"
    by (simp_all add: s(3) sample_pipeline_def new_pipeline_def)
  have "worker_run (pipe s, task s) (pipe s, Items [(sample_item, None)])"
    using one_by_one [of "pipe s" "[sample_item]"] by (simp add: s(2) without_results_def run_one)
  then have "worker_run (pipe s, task s) (p1\<lparr>engine_calls := engine_calls p1 @ [[prompt2]]\<rparr>, Analyze sample_item prompt2 [])"
    using run_one [OF asked [OF a h c e]] by (rule run_trans)
  from run_reachable [OF this s(1)] show ?thesis using conversation_queue [OF c] al by auto
qed

subsection \<open>Properties\<close>

text \<open>
  Claim C7. At every await of the worker and after any interleaving with the other tasks, before,
  during and after a shutdown, the tasks that \<open>join\<close> waits for are the queued items and those that the
  worker holds; the worker holds at most \<open>batch_max_size\<close> (or one), and the queue is within its size.
\<close>

theorem worker_conserves_items:
  assumes "started s0" and "reachable s0 s"
  shows "unfinished (queue (pipe s)) = int (length (q_items (queue (pipe s)))) + int (in_hand (task s)) \<and>
    int (in_hand (task s)) \<le> max 1 (batch_max_size (pipe s)) \<and>
    (0 < q_max (queue (pipe s)) \<longrightarrow> length (q_items (queue (pipe s))) \<le> q_max (queue (pipe s)))"
  using reachable_inv [OF assms(2) started_inv [OF assms(1)]]
  by (simp add: run_inv_def balance_def system_inv_def vlm_ok_def)

theorem worker_conserves_items_witness:
  "\<exists>s. reachable (sample_run (new_breaker 5 30 1)) s \<and> task s = Collecting [sample_item] \<and>
     unfinished (queue (pipe s)) = int (length (q_items (queue (pipe s)))) + 1"
proof -
  have b: "state (new_breaker 5 30 1) \<noteq> Half_Open" by (simp add: new_breaker_def)
  obtain s where s: "reachable (sample_run (new_breaker 5 30 1)) s" "task s = Collecting [sample_item]"
    using sample_taken by blast
  with worker_conserves_items [OF sample_started [OF b] s(1)] show ?thesis by auto
qed

text \<open>
  Claim C11. The breaker is half open only while its probe is being analysed: whenever the worker
  is about to ask the breaker for an item, it is closed or open, so no item is refused for a probe
  that never comes back. Only the cancellation of the worker can leave the breaker half open.
\<close>

theorem half_open_only_while_probing:
  assumes "started s0" and "reachable s0 s" and "state (breaker (pipe s)) = Half_Open"
  shows "(\<exists>it prompt rest. task s = Analyze it prompt rest) \<or> (\<exists>left drained. task s = Stopped left \<and> phase s = Ended drained)"
  using reachable_inv [OF assms(2) started_inv [OF assms(1)]] assms(3)
  by (cases "task s") (auto simp: run_inv_def phase_ok_def split: phase.splits)

theorem half_open_only_while_probing_witness:
  "\<exists>s prompt. reachable (sample_run (record_failure (new_breaker 1 0 1) 0)) s \<and>
     state (breaker (pipe s)) = Half_Open \<and> task s = Analyze sample_item prompt []"
proof -
  let ?b = "record_failure (new_breaker 1 0 1) 0"
  have open_b: "state ?b = Open" by (simp add: record_failure_def new_breaker_def Let_def)
  have "allow_request ?b (monotonic sample_env) = (True, ?b\<lparr>state := Half_Open, half_open_calls := 1\<rparr>)"
    by (simp add: allow_request_def record_failure_def new_breaker_def Let_def sample_env_def)
  from sample_asked [OF this] obtain s1 prompt where s1: "reachable (sample_run ?b) s1"
    "task s1 = Analyze sample_item prompt []" "breaker (pipe s1) = ?b\<lparr>state := Half_Open, half_open_calls := 1\<rparr>" by blast
  have "started (sample_run ?b)" using open_b by (simp add: sample_started)
  from half_open_only_while_probing [OF this s1(1)] s1 show ?thesis by auto
qed



text \<open>
  Claim C12. \<open>join\<close> returns: while it waits, the worker makes at most \<open>7 * unfinished + 2\<close> steps from
  one await to the next, whatever the other tasks do, and as long as a task is unfinished it can
  make one.
\<close>

theorem join_returns:
  assumes "started s0" and "reachable s0 s" and "join_run s k s1"
  shows "int k \<le> 7 * unfinished (queue (pipe s)) + 2 \<and>
    (unfinished (queue (pipe s1)) = 0 \<or> (\<exists>p t. worker_step (pipe s1) (task s1) p t))"
proof -
  have inv: "run_inv s" using reachable_inv started_inv assms(1,2) by blast
  have s1: "phase s1 = Joining" "run_inv s1"
    using join_run_reachable [OF assms(3)] reachable_inv inv by blast+
  then have "\<not> stopped (task s1)" by (simp add: run_inv_def phase_ok_def)
  moreover have "task s1 = Fetching \<Longrightarrow> q_items (queue (pipe s1)) = [] \<Longrightarrow> unfinished (queue (pipe s1)) = 0"
    using s1(2) by (simp add: run_inv_def balance_def)
  ultimately show ?thesis
    using worker_can_step [of "task s1" "pipe s1"] join_run_work [OF assms(3) inv] work_unfinished [OF inv] by fastforce
qed

theorem join_returns_witness:
  "\<exists>s s1. reachable (sample_run (new_breaker 5 30 1)) s \<and> join_run s 1 s1 \<and> unfinished (queue (pipe s1)) = 2 \<and>
     (\<exists>p t. worker_step (pipe s1) (task s1) p t)"
proof -
  let ?s = "sample_run (new_breaker 5 30 1)"
  let ?j = "(shut_flag ?s)\<lparr>phase := Joining\<rparr>"
  have b: "state (new_breaker 5 30 1) \<noteq> Half_Open" by (simp add: new_breaker_def)
  have j: "reachable ?s ?j" by (rule next_step [OF here shutdown_busy]) simp_all
  obtain p where p: "worker_step (pipe ?j) (task ?j) p (Collecting [sample_item])" "unfinished (queue p) = 2"
    using take_first [of "pipe ?j" sample_item "[sample_item]"] by auto
  then have "join_run ?j 1 ((set_pipe p ?j)\<lparr>task := Collecting [sample_item]\<rparr>)"
    using worker_moves [OF join_starts p(1)] by simp
  with join_returns [OF sample_started [OF b] j this] j p(2) show ?thesis by fastforce
qed

text \<open>
  Claim C16. What a shutdown loses. When \<open>join\<close> has returned nothing is lost. But a shutdown that
  finds the queue empty does not wait: whatever items the worker holds, in a batch that it
  collects or has sent to the model, it is cancelled at once, and those items stay unfinished for ever.
\<close>

theorem shutdown_loses_items_in_hand:
  assumes "started s0" and "reachable s0 s"
  shows "(phase s = Ended True \<longrightarrow> task s = Stopped [] \<and> q_items (queue (pipe s)) = []) \<and>
    (phase s = Running \<and> q_items (queue (pipe s)) = [] \<and> live_step s s1 \<and> phase s1 \<noteq> Running \<longrightarrow>
       phase s1 = Ended False \<and> (\<exists>left. task s1 = Stopped left \<and>
         (\<forall>b. task s = Collecting b \<or> task s = Infer b \<longrightarrow> left = b) \<and>
         (\<forall>s2. reachable s1 s2 \<longrightarrow> task s2 = Stopped left \<and> unfinished (queue (pipe s2)) = int (length left))))"
proof -
  have inv: "run_inv s" using reachable_inv started_inv assms by blast
  have drained: "phase s = Ended True \<Longrightarrow> task s = Stopped [] \<and> q_items (queue (pipe s)) = []"
    using inv by (auto simp: run_inv_def phase_ok_def balance_def)
  have lost: "phase s1 = Ended False \<and> (\<exists>left. task s1 = Stopped left \<and>
         (\<forall>b. task s = Collecting b \<or> task s = Infer b \<longrightarrow> left = b) \<and>
         (\<forall>s2. reachable s1 s2 \<longrightarrow> task s2 = Stopped left \<and> unfinished (queue (pipe s2)) = int (length left)))"
    if "phase s = Running" "q_items (queue (pipe s)) = []" "live_step s s1" "phase s1 \<noteq> Running"
  proof -
    have s1: "s1 = close False (shut_flag s)" using idle_shutdown that by blast
    have inv1: "run_inv s1" using live_step_inv that(3) inv by blast
    have fields: "phase s1 = Ended False" "task s1 = snd (cancelled (pipe s) (task s))" "q_items (queue (pipe s1)) = []"
      unfolding s1 close_fields by (simp_all add: that(2))
    then obtain left where left: "task s1 = Stopped left"
      using inv1 by (auto simp: run_inv_def phase_ok_def stopped_left)
    have "task s2 = Stopped left \<and> unfinished (queue (pipe s2)) = int (length left)" if "reachable s1 s2" for s2
      using ended_stays [OF that inv1 fields(1)] reachable_inv [OF that inv1] fields(3) left
      by (simp add: run_inv_def balance_def)
    moreover have "left = b" if "task s = Collecting b \<or> task s = Infer b" for b
      using that fields(2) left by auto
    ultimately show ?thesis using fields(1) left by blast
  qed
  from drained lost show ?thesis by blast
qed

theorem shutdown_loses_items_in_hand_witness:
  "\<exists>s1. reachable (sample_run (new_breaker 5 30 1)) s1 \<and> phase s1 = Ended False \<and>
     task s1 = Stopped [sample_item, sample_item] \<and> unfinished (queue (pipe s1)) = 2"
proof -
  let ?s = "sample_run (new_breaker 5 30 1)"
  have b: "state (new_breaker 5 30 1) \<noteq> Half_Open" by (simp add: new_breaker_def)
  have "worker_run (pipe ?s, task ?s) (sample_pipeline\<lparr>breaker := new_breaker 5 30 1,
      queue := (queue sample_pipeline)\<lparr>q_items := []\<rparr>\<rparr>, Collecting [sample_item, sample_item])"
    using run_collect [of 2 "pipe ?s"] by simp
  from run_reachable [OF this here] obtain s where s: "reachable ?s s" "task s = Collecting [sample_item, sample_item]"
    "q_items (queue (pipe s)) = []" "phase s = Running" by auto
  let ?e = "close False (shut_flag s)"
  have e: "live_step s ?e" by (rule shutdown_idle) (simp_all add: s)
  then have r: "reachable ?s ?e" by (rule next_step [OF s(1)])
  from shutdown_loses_items_in_hand [OF sample_started [OF b] s(1), of ?e] e s
  show ?thesis by (intro exI [of _ ?e]) (auto simp: r close_fields intro: here)
qed

end
