(* ===== verification/Alerting.thy ===== *)
theory Alerting
  imports Prelude
begin

text \<open>
  The alert manager of \<open>observability/alerting.py\<close>: rules by event type, a cooldown per
  event type, and a webhook chosen by severity. The webhook itself is HTTP (\<open>httpx\<close>): it is
  the parameter \<open>post\<close>, which gives the exception the POST raises, if any. The lemmas give
  every branch of \<open>check_and_fire\<close> and the cooldown over whole runs.
\<close>

subsection \<open>State and operations\<close>

datatype severity = Info | Warning | Critical

record alert_rule =
  rule_name :: string
  cooldown_seconds :: real
  rule_severity :: severity

record alert_manager =
  rules :: "(string, alert_rule) pydict"
  webhook_url :: string
  alerts_enabled :: bool
  last_fired :: "(string, real) pydict"
  routes :: "(severity, string) pydict"

text \<open>\<open>{r.name: r for r in rules}\<close>: a later rule of the same name replaces an earlier one.\<close>

definition rules_by_name :: "alert_rule list \<Rightarrow> (string, alert_rule) pydict" where
  "rules_by_name rs = foldl (\<lambda>d r. AList.update (rule_name r) r d) [] rs"

definition routes_by_severity :: "(severity \<times> string) list \<Rightarrow> (severity, string) pydict" where
  "routes_by_severity rts = foldl (\<lambda>d rt. AList.update (fst rt) (snd rt) d) [] rts"

definition new_alert_manager ::
    "alert_rule list \<Rightarrow> string \<Rightarrow> bool \<Rightarrow> (severity \<times> string) list option \<Rightarrow> alert_manager" where
  "new_alert_manager rs url enabled rts =
     \<lparr>rules = rules_by_name rs, webhook_url = url, alerts_enabled = enabled, last_fired = [],
      routes = (case rts of None \<Rightarrow> [] | Some xs \<Rightarrow> routes_by_severity xs)\<rparr>"

definition get_webhook_url :: "alert_manager \<Rightarrow> severity \<Rightarrow> string" where
  "get_webhook_url m sev =
     (case map_of (routes m) sev of None \<Rightarrow> webhook_url m | Some url \<Rightarrow> url)"

definition update_rules ::
    "alert_manager \<Rightarrow> alert_rule list \<Rightarrow> (severity \<times> string) list option \<Rightarrow> alert_manager" where
  "update_rules m rs rts =
     (let m1 = m\<lparr>rules := rules_by_name rs\<rparr>
      in case rts of None \<Rightarrow> m1 | Some xs \<Rightarrow> m1\<lparr>routes := routes_by_severity xs\<rparr>)"

text \<open>
  \<open>_post_webhook\<close> swallows \<open>OSError\<close> and \<open>ConnectionError\<close>; any other exception of the
  HTTP client passes through.
\<close>

definition post_webhook :: "(string \<Rightarrow> exn option) \<Rightarrow> string \<Rightarrow> exn + unit" where
  "post_webhook post url =
     (case post url of
        None \<Rightarrow> Inr ()
      | Some (Os_Error _) \<Rightarrow> Inr ()
      | Some (Connection_Error _) \<Rightarrow> Inr ()
      | Some e \<Rightarrow> Inl e)"

text \<open>What a call of \<open>check_and_fire\<close> does: its result, the level it logs at, and the URL.\<close>

record alert_effect =
  fired :: "exn + bool"
  logged :: "severity option"
  posted_to :: "string option"

definition no_alert :: alert_effect where
  "no_alert = \<lparr>fired = Inr False, logged = None, posted_to = None\<rparr>"

definition check_and_fire ::
    "(string \<Rightarrow> exn option) \<Rightarrow> alert_manager \<Rightarrow> string \<Rightarrow> real \<Rightarrow> alert_effect \<times> alert_manager" where
  "check_and_fire post m event_type now =
     (if \<not> alerts_enabled m then (no_alert, m)
      else case map_of (rules m) event_type of
        None \<Rightarrow> (no_alert, m)
      | Some rule \<Rightarrow>
          if (case map_of (last_fired m) event_type of
                None \<Rightarrow> False | Some t \<Rightarrow> now - t < cooldown_seconds rule)
          then (no_alert, m)
          else
            let m1 = m\<lparr>last_fired := AList.update event_type now (last_fired m)\<rparr>;
                url = get_webhook_url m1 (rule_severity rule)
            in if url = '''' then
                 (\<lparr>fired = Inr True, logged = Some (rule_severity rule), posted_to = None\<rparr>, m1)
               else
                 (\<lparr>fired = (case post_webhook post url of Inl e \<Rightarrow> Inl e | Inr _ \<Rightarrow> Inr True),
                   logged = Some (rule_severity rule), posted_to = Some url\<rparr>, m1))"

lemmas alert_defs = check_and_fire_def no_alert_def Let_def

text \<open>An alert goes off when it is logged, whether or not its webhook then fails.\<close>

definition goes_off :: "alert_effect \<Rightarrow> bool" where
  "goes_off e \<longleftrightarrow> logged e \<noteq> None"

lemma check_and_fire_config [simp]:
  "rules (snd (check_and_fire post m e now)) = rules m"
  "alerts_enabled (snd (check_and_fire post m e now)) = alerts_enabled m"
  "routes (snd (check_and_fire post m e now)) = routes m"
  "webhook_url (snd (check_and_fire post m e now)) = webhook_url m"
  by (simp_all add: alert_defs split: option.split)

lemma check_and_fire_other:
  "e \<noteq> e' \<Longrightarrow> map_of (last_fired (snd (check_and_fire post m e' now))) e = map_of (last_fired m) e"
  by (simp add: alert_defs split: option.split)

lemma goes_off_last_fired:
  "goes_off (fst (check_and_fire post m e now)) \<Longrightarrow>
     map_of (last_fired (snd (check_and_fire post m e now))) e = Some now"
  by (auto simp: alert_defs goes_off_def split: option.splits if_splits)

lemma silent_last_fired:
  "\<not> goes_off (fst (check_and_fire post m e now)) \<Longrightarrow> snd (check_and_fire post m e now) = m"
  by (auto simp: alert_defs goes_off_def split: option.splits if_splits)

lemma goes_off_iff:
  "goes_off (fst (check_and_fire post m e now)) \<longleftrightarrow>
     alerts_enabled m \<and>
     (\<exists>rule. map_of (rules m) e = Some rule \<and>
        (\<forall>t. map_of (last_fired m) e = Some t \<longrightarrow> cooldown_seconds rule \<le> now - t))"
  by (auto simp: alert_defs goes_off_def split: option.splits if_splits)

lemma fired_imp_goes_off:
  "fired (fst (check_and_fire post m e now)) = Inr True \<Longrightarrow>
     goes_off (fst (check_and_fire post m e now))"
  by (auto simp: alert_defs goes_off_def split: option.splits if_splits)

subsection \<open>Runs\<close>

fun alarm_times ::
    "(string \<Rightarrow> exn option) \<Rightarrow> string \<Rightarrow> alert_manager \<Rightarrow> (string \<times> real) list \<Rightarrow> real list" where
  "alarm_times post e m [] = []"
| "alarm_times post e m ((e', t) # rs) =
     (let (eff, m1) = check_and_fire post m e' t
      in if e' = e \<and> goes_off eff then t # alarm_times post e m1 rs
         else alarm_times post e m1 rs)"

lemma alarm_times_Cons [simp]:
  "alarm_times post e m ((e', t) # rs) =
     (if e' = e \<and> goes_off (fst (check_and_fire post m e' t))
      then t # alarm_times post e (snd (check_and_fire post m e' t)) rs
      else alarm_times post e (snd (check_and_fire post m e' t)) rs)"
  by (simp split: prod.splits)

declare alarm_times.simps(2) [simp del]

lemma alarm_times_spaced:
  assumes "map_of (rules m) e = Some rule"
  shows "successively (\<lambda>a b. cooldown_seconds rule \<le> b - a)
           ((case map_of (last_fired m) e of None \<Rightarrow> [] | Some t \<Rightarrow> [t]) @ alarm_times post e m rs)"
  using assms
proof (induction rs arbitrary: m)
  case Nil
  then show ?case by (simp split: option.split)
next
  case (Cons r rs)
  obtain e' t where r: "r = (e', t)" by fastforce
  let ?eff = "fst (check_and_fire post m e' t)" and ?m1 = "snd (check_and_fire post m e' t)"
  have IH: "successively (\<lambda>a b. cooldown_seconds rule \<le> b - a)
      ((case map_of (last_fired ?m1) e of None \<Rightarrow> [] | Some t \<Rightarrow> [t]) @ alarm_times post e ?m1 rs)"
    using Cons.IH [of ?m1] Cons.prems by simp
  show ?case
  proof (cases "e' = e \<and> goes_off ?eff")
    case True
    then have "map_of (last_fired ?m1) e = Some t"
      using goes_off_last_fired [of post m e' t] by auto
    moreover have "\<forall>t0. map_of (last_fired m) e = Some t0 \<longrightarrow> cooldown_seconds rule \<le> t - t0"
      using True goes_off_iff [of post m e' t] Cons.prems by auto
    ultimately show ?thesis
      using IH True by (auto simp: r split: option.split)
  next
    case False
    then have "map_of (last_fired ?m1) e = map_of (last_fired m) e"
      using silent_last_fired [of post m e' t] check_and_fire_other [of e e' post m t]
      by (cases "e = e'") auto
    moreover have "alarm_times post e m (r # rs) = alarm_times post e ?m1 rs"
      using False unfolding r alarm_times_Cons by (rule if_not_P)
    ultimately show ?thesis using IH by simp
  qed
qed

subsection \<open>Properties\<close>

text \<open>
  Claim C26. Cooldown: over any sequence of events of any types, as long as the rule of an event
  type is not replaced, two consecutive alerts of that type are at least
  \<open>cooldown_seconds\<close> apart, counted also from an alert fired before the run; other event
  types and failing webhooks do not matter.
\<close>

theorem alert_cooldown:
  assumes "map_of (rules m) e = Some rule"
  shows "successively (\<lambda>a b. cooldown_seconds rule \<le> b - a)
           ((case map_of (last_fired m) e of None \<Rightarrow> [] | Some t \<Rightarrow> [t]) @ alarm_times post e m rs)"
  by (rule alarm_times_spaced) (rule assms)

theorem alert_cooldown_witness:
  "successively (\<lambda>a b. 300 \<le> b - a)
     (alarm_times (\<lambda>_. None) ''vlm_queue_full''
        (new_alert_manager
           [\<lparr>rule_name = ''vlm_queue_full'', cooldown_seconds = 300, rule_severity = Critical\<rparr>]
           '''' True None)
        [(''vlm_queue_full'', 0), (''vlm_queue_full'', 100), (''vlm_queue_full'', 301)])"
  using alert_cooldown
    [of "new_alert_manager
           [\<lparr>rule_name = ''vlm_queue_full'', cooldown_seconds = 300, rule_severity = Critical\<rparr>]
           '''' True None" "''vlm_queue_full''"
        "\<lparr>rule_name = ''vlm_queue_full'', cooldown_seconds = 300, rule_severity = Critical\<rparr>"
        "\<lambda>_. None" "[(''vlm_queue_full'', 0), (''vlm_queue_full'', 100), (''vlm_queue_full'', 301)]"]
  by (simp add: new_alert_manager_def rules_by_name_def)

text \<open>
  \<open>check_and_fire\<close> on every branch: an alert goes off exactly when alerting is
  enabled, a rule exists for the event and no alert of the type went off within the cooldown;
  otherwise nothing changes. When it goes off the time is recorded, the log level is the
  severity of the rule, the webhook is the route of that severity or else the default, and
  only \<open>OSError\<close> and \<open>ConnectionError\<close> of the webhook are absorbed.
\<close>

theorem check_and_fire_cases:
  "(goes_off (fst (check_and_fire post m e now)) \<longleftrightarrow>
      alerts_enabled m \<and> (\<exists>rule. map_of (rules m) e = Some rule \<and>
        (\<forall>t. map_of (last_fired m) e = Some t \<longrightarrow> cooldown_seconds rule \<le> now - t))) \<and>
   (\<not> goes_off (fst (check_and_fire post m e now)) \<longrightarrow>
      check_and_fire post m e now = (no_alert, m)) \<and>
   (\<forall>rule. map_of (rules m) e = Some rule \<and> goes_off (fst (check_and_fire post m e now)) \<longrightarrow>
      map_of (last_fired (snd (check_and_fire post m e now))) e = Some now \<and>
      logged (fst (check_and_fire post m e now)) = Some (rule_severity rule) \<and>
      posted_to (fst (check_and_fire post m e now)) =
        (if get_webhook_url m (rule_severity rule) = '''' then None
         else Some (get_webhook_url m (rule_severity rule))) \<and>
      (fired (fst (check_and_fire post m e now)) = Inr True \<or>
       (\<exists>x. post (get_webhook_url m (rule_severity rule)) = Some x \<and>
            fired (fst (check_and_fire post m e now)) = Inl x \<and>
            (\<nexists>s. x = Os_Error s \<or> x = Connection_Error s))))"
proof -
  have "\<not> goes_off (fst (check_and_fire post m e now)) \<longrightarrow>
      check_and_fire post m e now = (no_alert, m)"
    by (auto simp: alert_defs goes_off_def split: option.splits if_splits)
  moreover have "\<forall>rule. map_of (rules m) e = Some rule \<and>
      goes_off (fst (check_and_fire post m e now)) \<longrightarrow>
      logged (fst (check_and_fire post m e now)) = Some (rule_severity rule) \<and>
      posted_to (fst (check_and_fire post m e now)) =
        (if get_webhook_url m (rule_severity rule) = '''' then None
         else Some (get_webhook_url m (rule_severity rule))) \<and>
      (fired (fst (check_and_fire post m e now)) = Inr True \<or>
       (\<exists>x. post (get_webhook_url m (rule_severity rule)) = Some x \<and>
            fired (fst (check_and_fire post m e now)) = Inl x \<and>
            (\<nexists>s. x = Os_Error s \<or> x = Connection_Error s)))"
    by (auto simp: alert_defs goes_off_def get_webhook_url_def post_webhook_def
        split: option.splits if_splits exn.splits)
  ultimately show ?thesis using goes_off_iff goes_off_last_fired by blast
qed

theorem check_and_fire_cases_witness:
  "goes_off (fst (check_and_fire (\<lambda>_. Some (Other_Error ''ConnectTimeout''))
     (new_alert_manager [\<lparr>rule_name = ''e'', cooldown_seconds = 1, rule_severity = Warning\<rparr>]
        ''http://hook'' True None) ''e'' 0))"
  using check_and_fire_cases
    [of "\<lambda>_. Some (Other_Error ''ConnectTimeout'')"
        "new_alert_manager [\<lparr>rule_name = ''e'', cooldown_seconds = 1, rule_severity = Warning\<rparr>]
           ''http://hook'' True None" "''e''" 0]
  by (simp add: new_alert_manager_def rules_by_name_def)

end
