(* ===== verification/Alert_Flow.thy ===== *)
theory Alert_Flow
  imports Worker_Steps Alerting
begin

text \<open>
  The alerts of the running server together with the alert manager: which alert tasks the detection
  processor, the VLM worker and the handler of edge events can ever start, and what the
  alert manager makes of them under the rules of the repository's \<open>config.yaml\<close>.
\<close>

subsection \<open>The alerts that are started\<close>

definition alert_names :: "run_state \<Rightarrow> string set" where
  "alert_names s = set (map fst (alerts_sent (orch (srv s)))) \<union> set (alerts_started (pipe s))"

definition program_alerts :: "string set" where
  "program_alerts = {''vlm_queue_full'', ''edge_system_error'', ''circuit_breaker_open''}"

lemma alerts_kept [simp]:
  "alerts_started (task_done p) = alerts_started p"
  "alerts_started (record_turns p it s) = alerts_started p"
  "alerts_started (apply_vlm_guidance pb num g s dev p) = alerts_started p"
  "alerts_started (snd (with_conversation p dev s)) = alerts_started p"
  "alerts_started (success_books p env it r) = alerts_started p"
  "alerts_started (guided p env it r) = alerts_started p"
  by (simp_all add: task_done_def record_turns_def apply_vlm_guidance_def with_conversation_def success_books_def
      guided_def Let_def split: option.split prod.split)

lemma conversation_alerts: "with_conversation p dev s = (s1, p1) \<Longrightarrow> alerts_started p1 = alerts_started p"
  using alerts_kept(4) [of p dev s] by simp

lemma conclude_alerts: "conclude p env it r rest = (p1, t) \<Longrightarrow> alerts_started p1 = alerts_started p"
  by (auto simp: conclude_def Let_def split: if_splits)

lemma worker_alerts:
  assumes "worker_step p t p1 t1"
  shows "set (alerts_started p1) \<subseteq> insert ''circuit_breaker_open'' (set (alerts_started p))"
proof -
  have f: "x \<in> set (alerts_started (after_failure q env)) \<Longrightarrow>
      x = ''circuit_breaker_open'' \<or> x \<in> set (alerts_started q)" for x q env
    by (auto simp: after_failure_def Let_def split: if_splits)
  from assms show ?thesis
    by cases (auto dest!: conversation_alerts conclude_alerts f)
qed

definition sends_only :: "string set \<Rightarrow> orchestrator \<Rightarrow> orchestrator \<Rightarrow> bool" where
  "sends_only A o1 o2 \<longleftrightarrow> (\<forall>x \<in> set (alerts_sent o2). fst x \<in> A \<or> x \<in> set (alerts_sent o1)) \<and>
     alerts_started (vlm o2) = alerts_started (vlm o1)"

lemma detection_sends:
  assumes "process_detection st db res now o1 = (r, o2)"
  shows "sends_only {''vlm_queue_full''} o1 o2"
proof -
  have q: "request_vlm p q res = Inr (q1, al) \<Longrightarrow> set al \<subseteq> {''vlm_queue_full''}" for p q q1 al
    by (auto simp: request_vlm_def split: option.splits if_splits sum.splits)
  show ?thesis
    using assms
    by (auto simp: process_detection_def process_def sends_only_def Let_def split: sum.splits prod.splits dest!: q)
qed

lemma receive_sends:
  assumes "receive ae (res, env) st = (r, st1)"
  shows "sends_only {''vlm_queue_full''} (orch (s_server st)) (orch (s_server st1))"
proof -
  have c: "check_rate sv dev now = (ok, sv2) \<Longrightarrow> orch sv2 = orch sv" for sv dev now ok sv2
    using check_rate_fields(1) [of sv dev now] by simp
  have refl: "sends_only A o1 o1" for A o1 by (simp add: sends_only_def)
  show ?thesis
    using assms detection_sends refl
    by (auto simp: receive_def Let_def split: if_splits prod.splits sum.splits dest!: c)
qed

lemma edge_event_sends: "sends_only {''edge_system_error''} o1 (handle_edge_event ev o1)"
  by (auto simp: sends_only_def handle_edge_event_def Let_def)

lemma other_sends:
  assumes "\<not> is_round op"
  shows "sends_only program_alerts (orch sv) (orch (system_step sv op))"
proof (cases op)
  case (Message ae m dev n)
  obtain res env where m: "m = (res, env)" by fastforce
  obtain r st1 where r: "receive ae (res, env)
      \<lparr>s_server = sv, s_device = dev, s_frames = n, s_aborted = None\<rparr> = (r, st1)" by fastforce
  with receive_sends [OF r] show ?thesis by (auto simp: Message m sends_only_def program_alerts_def)
next
  case (Registration q now u1 u2)
  then show ?thesis by (simp add: register_device_orch sends_only_def)
next
  case (Event_Stream e)
  then show ?thesis using edge_event_sends
    by (cases e) (fastforce simp: with_orch_def sends_only_def program_alerts_def get_pending_command_def split_beta
        split: list.split)+
next
  case (Round rd)
  with assms show ?thesis by simp
qed (auto simp: with_orch_def orch_subscribe_def orch_unsubscribe_def send_control_command_def manage_model_def
    send_command_def sends_only_def split_beta split: option.splits prod.splits)

lemma close_alerts: "alert_names (close d s) = alert_names s"
proof -
  obtain p t where p: "cancelled (pipe s) (task s) = (p, t)" by fastforce
  then have "alerts_started p = alerts_started (pipe s)" by (cases "task s") auto
  then show ?thesis by (simp add: alert_names_def close_def close_down_def p set_pipe_def with_orch_def)
qed

lemma shut_flag_alerts: "alert_names (shut_flag s) = alert_names s"
  by (simp add: alert_names_def shut_flag_def with_orch_def)

lemma live_step_alerts:
  assumes "live_step s s1"
  shows "alert_names s1 \<subseteq> program_alerts \<union> alert_names s"
  using assms
proof cases
  case (worker p t)
  have "alerts_sent (orch (srv ((set_pipe p s)\<lparr>task := t\<rparr>))) = alerts_sent (orch (srv s))"
    by (simp add: set_pipe_def with_orch_def)
  with worker worker_alerts [OF worker(2)] show ?thesis
    by (auto simp: alert_names_def program_alerts_def)
next
  case (other op)
  with other_sends [OF other(2), of "srv s"] show ?thesis by (auto simp: alert_names_def sends_only_def)
next
  case shutdown_busy
  then show ?thesis using shut_flag_alerts [of s] by (simp add: alert_names_def)
qed (simp_all add: close_alerts shut_flag_alerts)

lemma reachable_alerts: "reachable s0 s \<Longrightarrow> alert_names s \<subseteq> program_alerts \<union> alert_names s0"
  by (induction rule: reachable.induct) (use live_step_alerts in blast)+

subsection \<open>The rules of the shipped configuration\<close>

definition shipped_rules :: "alert_rule list" where
  "shipped_rules = map (\<lambda>(n, c). \<lparr>rule_name = n, cooldown_seconds = c, rule_severity = Critical\<rparr>)
     [(''circuit_breaker_open'', 300), (''edge_disconnect'', 60), (''anomaly_detection'', 30), (''vlm_queue_full'', 60)]"

text \<open>The alert tasks run one after the other, each at its time.\<close>

definition run_alerts :: "(string \<Rightarrow> exn option) \<Rightarrow> (string \<times> real) list \<Rightarrow> alert_manager \<Rightarrow> alert_manager" where
  "run_alerts post calls m = foldl (\<lambda>m (e, t). snd (check_and_fire post m e t)) m calls"

lemma run_alerts_rules [simp]: "rules (run_alerts post calls m) = rules m"
  unfolding run_alerts_def by (induction calls arbitrary: m) (simp_all add: split_beta)

lemma rules_by_name_dom: "dom (map_of (rules_by_name rs)) = rule_name ` set rs"
proof -
  have "dom (map_of (foldl (\<lambda>d r. AList.update (rule_name r) r d) d rs)) = dom (map_of d) \<union> rule_name ` set rs" for d
    by (induction rs arbitrary: d) (auto simp: update_conv' dom_def split: if_splits)
  then show ?thesis by (simp add: rules_by_name_def)
qed

lemma shipped_names: "dom (map_of (rules_by_name shipped_rules)) =
    {''circuit_breaker_open'', ''edge_disconnect'', ''anomaly_detection'', ''vlm_queue_full''}"
  unfolding rules_by_name_dom shipped_rules_def by simp

text \<open>
  Claim C37. Alerts and rules do not fit: whatever happens to the server, it starts alerts of three names
  only. Under the rules of \<open>config.yaml\<close> the rules for \<open>edge_disconnect\<close> and \<open>anomaly_detection\<close> are
  therefore never asked for, and an alert for a system error of a device never goes off.
\<close>

theorem alerts_without_rules:
  assumes "reachable s0 s" and "alert_names s0 = {}" and "name \<in> alert_names s"
    and "m = run_alerts post calls (new_alert_manager shipped_rules url True rts)"
  shows "name \<in> {''vlm_queue_full'', ''edge_system_error'', ''circuit_breaker_open''} \<and>
    (goes_off (fst (check_and_fire post m name now)) \<longrightarrow> name \<in> {''vlm_queue_full'', ''circuit_breaker_open''}) \<and>
    \<not> goes_off (fst (check_and_fire post m ''edge_system_error'' now))"
proof -
  have name: "name \<in> {''vlm_queue_full'', ''edge_system_error'', ''circuit_breaker_open''}"
    using reachable_alerts [OF assms(1)] assms(2,3) by (auto simp: program_alerts_def)
  have "rules m = rules_by_name shipped_rules" using assms(4) by (simp add: new_alert_manager_def)
  then have "goes_off (fst (check_and_fire post m e now)) \<Longrightarrow> e \<in> dom (map_of (rules_by_name shipped_rules))" for e
    unfolding goes_off_iff by (auto simp: dom_def)
  then have "goes_off (fst (check_and_fire post m e now)) \<Longrightarrow>
      e \<in> {''circuit_breaker_open'', ''edge_disconnect'', ''anomaly_detection'', ''vlm_queue_full''}" for e
    unfolding shipped_names .
  note named = this
  have no_rule: "\<not> goes_off (fst (check_and_fire post m ''edge_system_error'' now))"
  proof
    assume "goes_off (fst (check_and_fire post m ''edge_system_error'' now))"
    from named [OF this] show False by simp
  qed
  moreover have "name \<in> {''vlm_queue_full'', ''circuit_breaker_open''}" if "goes_off (fst (check_and_fire post m name now))"
  proof -
    have "name \<noteq> ''edge_system_error''" using no_rule that by blast
    with name show ?thesis by blast
  qed
  ultimately show ?thesis using name by blast
qed

definition failing_env :: environment where
  "failing_env = sample_env\<lparr>answer := (\<lambda>_. Inl Timeout_Error)\<rparr>"

theorem alerts_without_rules_witness:
  "\<exists>s. reachable (sample_run (new_breaker 1 30 1)) s \<and> ''circuit_breaker_open'' \<in> alert_names s \<and>
     \<not> goes_off (fst (check_and_fire (\<lambda>_. None) (new_alert_manager shipped_rules '''' True None) ''edge_system_error'' 0))"
proof -
  let ?b = "new_breaker 1 30 1"
  have "allow_request ?b (monotonic sample_env) = (True, ?b)" by (simp add: new_breaker_def)
  from sample_asked [OF this] obtain s prompt where s: "reachable (sample_run ?b) s" "task s = Analyze sample_item prompt []"
    "breaker (pipe s) = ?b" "alerts_on (pipe s)" by blast
  have "worker_step (pipe s) (task s) (task_done (after_failure (pipe s) failing_env)) (Items [])"
    unfolding s(2) by (rule failed [of _ _ Timeout_Error]) (simp_all add: failing_env_def)
  from next_step [OF s(1) worker [OF this]] obtain s1 where s1: "reachable (sample_run ?b) s1"
    "pipe s1 = task_done (after_failure (pipe s) failing_env)" by auto
  have "''circuit_breaker_open'' \<in> set (alerts_started (pipe s1))"
    using s(3,4) by (simp add: s1(2) after_failure_def record_failure_def new_breaker_def Let_def)
  then have name: "''circuit_breaker_open'' \<in> alert_names s1" by (simp add: alert_names_def)
  have "alert_names (sample_run ?b) = {}"
    by (simp add: alert_names_def sample_run_def with_orch_def test_server_def fresh_def new_orchestrator_def Let_def
        sample_pipeline_def new_pipeline_def)
  from alerts_without_rules [OF s1(1) this name, of _ "\<lambda>_. None" "[]" "''''" None 0] s1(1) name
  show ?thesis by (auto simp: run_alerts_def)
qed

end
