(* ===== verification/Annotator.thy ===== *)
theory Annotator
  imports Behavior Prompts
begin

text \<open>
  The annotation pipeline of \<open>analytics/auto_annotator.py\<close>: detections of high confidence become
  labelled samples, exported in the COCO and YOLO formats. Classes are numbered in the order of
  their first occurrence, and the numbering is the annotator's only state.
\<close>

subsection \<open>The annotator\<close>

record annotation =
  ann_class :: string
  ann_class_id :: int
  ann_confidence :: pyfloat
  ann_x_min :: pyfloat
  ann_y_min :: pyfloat
  ann_x_max :: pyfloat
  ann_y_max :: pyfloat

record sample =
  image_id :: nat
  sample_device :: string
  sample_time :: real
  sample_width :: int
  sample_height :: int
  annotations :: "annotation list"

record annotator =
  min_confidence :: real
  image_width :: int
  image_height :: int
  class_map :: "(string, int) pydict"
  next_class_id :: int

definition new_annotator :: "real \<Rightarrow> int \<Rightarrow> int \<Rightarrow> annotator" where
  "new_annotator conf w h = \<lparr>min_confidence = conf, image_width = w, image_height = h,
     class_map = [], next_class_id = 0\<rparr>"

definition get_class_id :: "annotator \<Rightarrow> string \<Rightarrow> int \<times> annotator" where
  "get_class_id a name =
     (case map_of (class_map a) name of
        Some i \<Rightarrow> (i, a)
      | None \<Rightarrow> (next_class_id a,
          a\<lparr>class_map := AList.update name (next_class_id a) (class_map a),
            next_class_id := next_class_id a + 1\<rparr>))"

fun annotate :: "annotator \<Rightarrow> detection list \<Rightarrow> annotation list \<times> annotator" where
  "annotate a [] = ([], a)"
| "annotate a (d # ds) =
     (let (i, a1) = get_class_id a (class_name d);
          (anns, a2) = annotate a1 ds
      in (\<lparr>ann_class = class_name d, ann_class_id = i, ann_confidence = confidence d,
           ann_x_min = x_min d, ann_y_min = y_min d, ann_x_max = x_max d, ann_y_max = y_max d\<rparr> # anns,
          a2))"

text \<open>The loop over the events: \<open>idx\<close> counts all of them, and \<open>limit\<close> bounds the samples.\<close>

fun collect_rows ::
    "int \<Rightarrow> nat \<Rightarrow> annotator \<Rightarrow> det_row list \<Rightarrow> sample list \<Rightarrow> sample list \<times> annotator" where
  "collect_rows limit idx a [] samples = (samples, a)"
| "collect_rows limit idx a (r # rows) samples =
     (let high = filter (\<lambda>d. Fin (min_confidence a) \<le> confidence d) (row_detections r)
      in if high = [] then collect_rows limit (Suc idx) a rows samples
         else
           let (anns, a1) = annotate a high;
               samples1 = samples @ [\<lparr>image_id = idx, sample_device = row_device_id r,
                 sample_time = row_timestamp r, sample_width = image_width a,
                 sample_height = image_height a, annotations = anns\<rparr>]
           in if limit \<le> int (length samples1) then (samples1, a1)
              else collect_rows limit (Suc idx) a1 rows samples1)"

definition collect_samples ::
    "annotator \<Rightarrow> event_query option \<Rightarrow> string \<Rightarrow> real \<Rightarrow> int \<Rightarrow> real \<Rightarrow> (exn + sample list) \<times> annotator" where
  "collect_samples a st dev hours limit now =
     (case st of
        None \<Rightarrow> (Inr [], a)
      | Some query \<Rightarrow>
          (case query (now - hours * 3600) 0 (limit * 2) dev of
             Inl e \<Rightarrow> (Inl e, a)
           | Inr rows \<Rightarrow> let (samples, a1) = collect_rows limit 0 a rows [] in (Inr samples, a1)))"

subsection \<open>Exports\<close>

record coco_image =
  ci_id :: nat
  ci_width :: int
  ci_height :: int
  file_name :: string

record coco_annotation =
  ca_id :: nat
  ca_image :: nat
  ca_category :: int
  ca_bbox :: "pyfloat list"
  ca_area :: pyfloat
  ca_iscrowd :: int

record coco =
  coco_images :: "coco_image list"
  coco_annotations :: "coco_annotation list"
  coco_categories :: "(int \<times> string) list"

definition coco_image_of :: "sample \<Rightarrow> coco_image" where
  "coco_image_of s = \<lparr>ci_id = image_id s, ci_width = sample_width s, ci_height = sample_height s,
     file_name = sample_device s @ ''_'' @ dec (image_id s) @ ''.jpg''\<rparr>"

definition coco_annotation_of :: "nat \<Rightarrow> sample \<Rightarrow> annotation \<Rightarrow> coco_annotation" where
  "coco_annotation_of n s a =
     (let x0 = ann_x_min a * Fin (real_of_int (sample_width s));
          y0 = ann_y_min a * Fin (real_of_int (sample_height s));
          x1 = ann_x_max a * Fin (real_of_int (sample_width s));
          y1 = ann_y_max a * Fin (real_of_int (sample_height s));
          w = x1 - x0;
          h = y1 - y0
      in \<lparr>ca_id = n, ca_image = image_id s, ca_category = ann_class_id a, ca_bbox = [x0, y0, w, h],
          ca_area = w * h, ca_iscrowd = 0\<rparr>)"

fun coco_annotations_from :: "nat \<Rightarrow> sample list \<Rightarrow> coco_annotation list" where
  "coco_annotations_from n [] = []"
| "coco_annotations_from n (s # ss) =
     map (\<lambda>(i, a). coco_annotation_of i s a) (enumerate n (annotations s)) @
     coco_annotations_from (n + length (annotations s)) ss"

definition export_coco :: "annotator \<Rightarrow> sample list \<Rightarrow> coco" where
  "export_coco a samples = \<lparr>coco_images = map coco_image_of samples,
     coco_annotations = coco_annotations_from 1 samples,
     coco_categories = map (\<lambda>(name, i). (i, name)) (class_map a)\<rparr>"

definition yolo_line :: "annotation \<Rightarrow> string" where
  "yolo_line a =
     (let cx = (ann_x_min a + ann_x_max a) * Fin (1/2);
          cy = (ann_y_min a + ann_y_max a) * Fin (1/2);
          w = ann_x_max a - ann_x_min a;
          h = ann_y_max a - ann_y_min a
      in str_int (ann_class_id a) @ '' '' @ format_float 6 cx @ '' '' @ format_float 6 cy @ '' '' @
         format_float 6 w @ '' '' @ format_float 6 h)"

definition export_yolo :: "sample list \<Rightarrow> string list" where
  "export_yolo samples = map (\<lambda>s. join [newline] (map yolo_line (annotations s))) samples"

subsection \<open>The class numbering\<close>

text \<open>The class ids are \<open>0, 1, 2, ...\<close> in the order of the dictionary, each name once.\<close>

definition numbering_ok :: "annotator \<Rightarrow> bool" where
  "numbering_ok a \<longleftrightarrow> dict_ok (class_map a) \<and>
     map snd (class_map a) = map int [0..<length (class_map a)] \<and>
     next_class_id a = int (length (class_map a))"

definition extends :: "annotator \<Rightarrow> annotator \<Rightarrow> bool" where
  "extends a b \<longleftrightarrow> map_of (class_map a) \<subseteq>\<^sub>m map_of (class_map b) \<and>
     min_confidence b = min_confidence a"

definition annotation_ok :: "annotator \<Rightarrow> annotation \<Rightarrow> bool" where
  "annotation_ok a x \<longleftrightarrow> map_of (class_map a) (ann_class x) = Some (ann_class_id x) \<and>
     Fin (min_confidence a) \<le> ann_confidence x"

lemma numbering_ok_new: "numbering_ok (new_annotator conf w h)"
  by (simp add: numbering_ok_def new_annotator_def)

lemma extends_refl [simp]: "extends a a"
  by (simp add: extends_def)

lemma extends_trans: "extends a b \<Longrightarrow> extends b c \<Longrightarrow> extends a c"
  by (auto simp: extends_def intro: map_le_trans)

lemma annotation_ok_extends: "extends a b \<Longrightarrow> annotation_ok a x \<Longrightarrow> annotation_ok b x"
  by (auto simp: extends_def annotation_ok_def map_le_def dom_def)

lemma get_class_id_ok:
  assumes "get_class_id a name = (i, a1)" and "numbering_ok a"
  shows "numbering_ok a1 \<and> extends a a1 \<and> map_of (class_map a1) name = Some i"
proof (cases "map_of (class_map a) name")
  case None
  with assms(1) have a1: "i = next_class_id a" "a1 = a\<lparr>class_map := AList.update name i (class_map a),
      next_class_id := i + 1\<rparr>" by (auto simp: get_class_id_def)
  have "map snd (class_map a1) = map snd (class_map a) @ [i]" by (simp add: a1(2) update_new [OF None])
  with assms(2) a1 None show ?thesis
    by (auto simp: numbering_ok_def extends_def map_le_def length_update_new)
next
  case (Some j)
  with assms show ?thesis by (simp add: get_class_id_def)
qed

lemma annotate_ok:
  assumes "annotate a ds = (anns, a1)" and "numbering_ok a"
    and "\<forall>d \<in> set ds. Fin (min_confidence a) \<le> confidence d"
  shows "numbering_ok a1 \<and> extends a a1 \<and> (\<forall>x \<in> set anns. annotation_ok a1 x) \<and> length anns = length ds"
  using assms
proof (induction ds arbitrary: a anns a1)
  case (Cons d ds)
  obtain i b where b: "get_class_id a (class_name d) = (i, b)" by fastforce
  obtain xs c where c: "annotate b ds = (xs, c)" by fastforce
  note ok = get_class_id_ok [OF b Cons.prems(2)]
  then have "min_confidence b = min_confidence a" by (simp add: extends_def)
  with Cons.IH [OF c] ok Cons.prems(3)
  have rec: "numbering_ok c" "extends b c" "\<forall>x \<in> set xs. annotation_ok c x" "length xs = length ds" by simp_all
  have "map_of (class_map c) (class_name d) = Some i"
    using ok rec(2) by (auto simp: extends_def map_le_def dom_def)
  with rec ok Cons.prems b c show ?case
    by (auto simp: annotation_ok_def extends_def intro: map_le_trans)
qed simp

text \<open>A sample is in order when it is not empty, its annotations are, and its device is as given.\<close>

definition sample_ok :: "annotator \<Rightarrow> sample \<Rightarrow> bool" where
  "sample_ok a s \<longleftrightarrow> annotations s \<noteq> [] \<and> (\<forall>x \<in> set (annotations s). annotation_ok a x)"

lemma sample_ok_extends: "extends a b \<Longrightarrow> sample_ok a s \<Longrightarrow> sample_ok b s"
  by (auto simp: sample_ok_def intro: annotation_ok_extends)

lemma collect_rows_ok:
  assumes "collect_rows limit idx a rows samples = (out, a1)" and "numbering_ok a"
    and "\<forall>s \<in> set samples. sample_ok a s" and "sorted_wrt (<) (map image_id samples)"
    and "\<forall>s \<in> set samples. image_id s < idx" and "samples = [] \<or> int (length samples) < limit"
  shows "numbering_ok a1 \<and> extends a a1 \<and> (\<forall>s \<in> set out. sample_ok a1 s) \<and>
    sorted_wrt (<) (map image_id out) \<and> int (length out) \<le> max 1 limit"
  using assms
proof (induction rows arbitrary: idx a samples)
  case (Cons r rows)
  let ?high = "filter (\<lambda>d. Fin (min_confidence a) \<le> confidence d) (row_detections r)"
  show ?case
  proof (cases "?high = []")
    case True
    with Cons.prems show ?thesis by (intro Cons.IH [of "Suc idx"]) auto
  next
    case False
    obtain anns b where b: "annotate a ?high = (anns, b)" by fastforce
    with annotate_ok [OF b Cons.prems(2)] have ok: "numbering_ok b" "extends a b"
      "\<forall>x \<in> set anns. annotation_ok b x" "length anns = length ?high" by auto
    define s where "s = \<lparr>image_id = idx, sample_device = row_device_id r, sample_time = row_timestamp r,
      sample_width = image_width a, sample_height = image_height a, annotations = anns\<rparr>"
    have s: "sample_ok b s" "image_id s = idx" using ok False by (auto simp: sample_ok_def s_def)
    have old: "\<forall>x \<in> set samples. sample_ok b x"
      using Cons.prems(3) ok(2) sample_ok_extends by blast
    have inc: "sorted_wrt (<) (map image_id (samples @ [s]))"
      using Cons.prems(4,5) s by (auto simp: sorted_wrt_append)
    show ?thesis
    proof (cases "limit \<le> int (length (samples @ [s]))")
      case True
      with Cons.prems(1) False b have "out = samples @ [s]" "a1 = b" by (auto simp: s_def Let_def)
      with True ok s old inc Cons.prems(6) show ?thesis by auto
    next
      case False
      with Cons.prems(1) \<open>?high \<noteq> []\<close> b
      have "collect_rows limit (Suc idx) b rows (samples @ [s]) = (out, a1)" by (simp add: s_def Let_def)
      from Cons.IH [OF this ok(1)] False s old inc Cons.prems(5)
      show ?thesis using ok(2) by (auto simp: less_Suc_eq intro: extends_trans)
    qed
  qed
qed auto

lemma coco_annotations_ids: "map ca_id (coco_annotations_from n ss) =
    [n..<n + length (coco_annotations_from n ss)]"
proof (induction ss arbitrary: n)
  case (Cons s ss)
  have "map ca_id (map (\<lambda>(i, a). coco_annotation_of i s a) (enumerate n xs)) = [n..<n + length xs]" for xs
    by (rule nth_equalityI) (simp_all add: coco_annotation_of_def Let_def nth_enumerate_eq)
  moreover have "[n..<n + (k + m)] = [n..<n + k] @ [n + k..<n + k + m]" for k m
    using upt_add_eq_append [of n "n + k" m] by (simp add: add.assoc)
  ultimately show ?case
    by (simp only: coco_annotations_from.simps map_append Cons.IH length_append length_map length_enumerate)
qed simp

lemma coco_annotation_from:
  "x \<in> set (coco_annotations_from n ss) \<Longrightarrow>
     \<exists>s \<in> set ss. \<exists>a \<in> set (annotations s). ca_image x = image_id s \<and> ca_category x = ann_class_id a"
proof (induction ss arbitrary: n)
  case (Cons s ss)
  show ?case
  proof (cases "x \<in> set (map (\<lambda>(i, a). coco_annotation_of i s a) (enumerate n (annotations s)))")
    case True
    then obtain i a where "(i, a) \<in> set (enumerate n (annotations s))" "x = coco_annotation_of i s a" by auto
    moreover from this(1) have "a \<in> set (annotations s)" by (auto simp: in_set_enumerate_eq)
    ultimately show ?thesis by (auto simp: coco_annotation_of_def Let_def)
  next
    case False
    with Cons.prems have "x \<in> set (coco_annotations_from (n + length (annotations s)) ss)" by simp
    from Cons.IH [OF this] show ?thesis by auto
  qed
qed simp

subsection \<open>The exported dataset\<close>

text \<open>
  Claim C39. A COCO export of collected samples is consistent: image ids increase, annotation ids
  are 1, 2, 3, ..., categories are numbered 0, 1, 2, ... with each name once; every annotation
  refers to an exported image and to the category of its class name, and is at least as confident
  as required; there are at most \<open>limit\<close> samples (one when the limit is not positive); and a
  class that had an id before keeps it.
\<close>

theorem coco_export_consistent:
  assumes "numbering_ok a" and "collect_samples a (Some query) dev hours limit now = (Inr samples, a1)"
    and "c = export_coco a1 samples"
  shows "sorted_wrt (<) (map ci_id (coco_images c)) \<and>
    map ca_id (coco_annotations c) = [1..<1 + length (coco_annotations c)] \<and>
    map fst (coco_categories c) = map int [0..<length (coco_categories c)] \<and>
    distinct (map snd (coco_categories c)) \<and>
    (\<forall>x \<in> set (coco_annotations c). ca_image x \<in> ci_id ` set (coco_images c) \<and>
       ca_category x \<in> fst ` set (coco_categories c)) \<and>
    (\<forall>s \<in> set samples. \<forall>x \<in> set (annotations s). Fin (min_confidence a) \<le> ann_confidence x \<and>
       (ann_class_id x, ann_class x) \<in> set (coco_categories c)) \<and>
    int (length samples) \<le> max 1 limit \<and>
    numbering_ok a1 \<and> map_of (class_map a) \<subseteq>\<^sub>m map_of (class_map a1)"
proof -
  obtain rows where "collect_rows limit 0 a rows [] = (samples, a1)"
    using assms(2) by (auto simp: collect_samples_def split: sum.splits prod.splits)
  from collect_rows_ok [OF this assms(1)]
  have ok: "numbering_ok a1" "extends a a1" "\<forall>s \<in> set samples. sample_ok a1 s"
    "sorted_wrt (<) (map image_id samples)" "int (length samples) \<le> max 1 limit" by simp_all
  have c: "ci_id ` set (coco_images c) = image_id ` set samples"
    "map ci_id (coco_images c) = map image_id samples"
    "coco_categories c = map (\<lambda>(name, i). (i, name)) (class_map a1)"
    "coco_annotations c = coco_annotations_from 1 samples"
    by (simp_all add: assms(3) export_coco_def coco_image_of_def image_comp comp_def)
  have cats: "map fst (coco_categories c) = map snd (class_map a1)" "map snd (coco_categories c) = map fst (class_map a1)"
    by (simp_all add: c case_prod_unfold comp_def)
  have labelled: "Fin (min_confidence a) \<le> ann_confidence x \<and> (ann_class_id x, ann_class x) \<in> set (coco_categories c)"
    if "s \<in> set samples" and "x \<in> set (annotations s)" for s x
    using that ok(2,3) by (force simp: sample_ok_def annotation_ok_def extends_def c dest: map_of_SomeD)
  have "ca_image x \<in> ci_id ` set (coco_images c) \<and> ca_category x \<in> fst ` set (coco_categories c)"
    if x: "x \<in> set (coco_annotations c)" for x
  proof -
    obtain s y where "s \<in> set samples" "y \<in> set (annotations s)" "ca_image x = image_id s"
      "ca_category x = ann_class_id y"
      using coco_annotation_from x unfolding c by blast
    with labelled [of s y] show ?thesis unfolding c(1) by force
  qed
  moreover have "distinct (map snd (coco_categories c))" "map fst (coco_categories c) = map int [0..<length (coco_categories c)]"
    using ok(1) unfolding cats by (simp_all add: numbering_ok_def dict_ok_def c(3))
  moreover have "map ca_id (coco_annotations c) = [1..<1 + length (coco_annotations c)]"
    unfolding c(4) by (rule coco_annotations_ids)
  ultimately show ?thesis using ok labelled by (simp add: c(2) extends_def)
qed

definition two_people :: event_query where
  "two_people since til limit dev = Inr [\<lparr>row_timestamp = 5, row_frame_id = None, row_trace_id = None,
     row_event_type = ''detection'', row_detections = [person, person], row_vlm_result = None,
     row_rule_matched = None, row_device_id = ''cam''\<rparr>]"

theorem coco_export_consistent_witness:
  "coco_categories (case collect_samples (new_annotator (1/2) 1920 1080) (Some two_people) ''cam'' 24 500 10
     of (Inr samples, a1) \<Rightarrow> export_coco a1 samples) = [(0, ''person'')]"
proof -
  obtain samples a1 where s: "collect_samples (new_annotator (1/2) 1920 1080) (Some two_people) ''cam'' 24 500 10
      = (Inr samples, a1)" and cm: "map fst (class_map a1) = [''person'']"
    by (simp add: collect_samples_def two_people_def new_annotator_def person_def get_class_id_def)
  from coco_export_consistent [OF numbering_ok_new s refl] cm
  have "map fst (coco_categories (export_coco a1 samples)) = map int [0..<length (coco_categories (export_coco a1 samples))]"
    by blast
  with s cm show ?thesis by (cases "class_map a1") (auto simp: export_coco_def)
qed

end
