(* ===== verification/Config_Loader.thy ===== *)
theory Config_Loader
  imports Py_Number
begin

text \<open>
  The generic loader of dataclasses from dictionaries, \<open>core/config_loader.py\<close>. Values of YAML
  and instances of dataclasses are one datatype; a type hint is a tree, in which a dataclass
  carries its fields with their hints and defaults. The keys of a dictionary are strings (others
  are never looked up) and YAML dates are left out. \<open>str\<close> on floats, lists and dictionaries is
  the parameter \<open>rep\<close>.
\<close>

subsection \<open>Values and type hints\<close>

datatype pyval =
    PNone
  | PBool bool
  | PInt int
  | PFloat pyfloat
  | PStr string
  | PList "pyval list"
  | PDict "(string \<times> pyval) list"
  | PObj string "(string \<times> pyval) list"

datatype hint =
    H_Bool
  | H_Int
  | H_Float
  | H_Str
  | H_List hint
  | H_Class string "(string \<times> hint \<times> pyval) list"

text \<open>\<open>cls()\<close>, an instance with the default of every field.\<close>

fun default_of :: "hint \<Rightarrow> pyval" where
  "default_of (H_Class n fs) = PObj n (map (\<lambda>(name, h, d). (name, d)) fs)"
| "default_of _ = PNone"

subsection \<open>Coercion\<close>

definition overflow :: exn where
  "overflow = Other_Error ''OverflowError''"

fun truthy :: "pyval \<Rightarrow> bool" where
  "truthy PNone = False"
| "truthy (PBool b) = b"
| "truthy (PInt i) = (i \<noteq> 0)"
| "truthy (PFloat x) = (x \<noteq> Fin 0)"
| "truthy (PStr s) = (s \<noteq> '''')"
| "truthy (PList xs) = (xs \<noteq> [])"
| "truthy (PDict d) = (d \<noteq> [])"
| "truthy (PObj _ _) = True"

text \<open>
  \<open>int(raw)\<close> and \<open>float(raw)\<close>: \<open>Inr None\<close> stands for the \<open>ValueError\<close> or \<open>TypeError\<close> that is
  caught; an \<open>OverflowError\<close> is neither.
\<close>

fun to_int :: "pyval \<Rightarrow> exn + int option" where
  "to_int (PBool b) = Inr (Some (if b then 1 else 0))"
| "to_int (PInt i) = Inr (Some i)"
| "to_int (PFloat (Fin x)) = Inr (Some (trunc_int x))"
| "to_int (PFloat Nan) = Inr None"
| "to_int (PFloat _) = Inl overflow"
| "to_int (PStr s) = Inr (py_int s)"
| "to_int _ = Inr None"

fun to_float :: "pyval \<Rightarrow> exn + pyfloat option" where
  "to_float (PBool b) = Inr (Some (Fin (if b then 1 else 0)))"
| "to_float (PInt i) = (if float_limit \<le> real_of_int \<bar>i\<bar> then Inl overflow else Inr (Some (Fin (real_of_int i))))"
| "to_float (PFloat x) = Inr (Some x)"
| "to_float (PStr s) = Inr (py_float s)"
| "to_float _ = Inr None"

fun to_str :: "(pyval \<Rightarrow> string) \<Rightarrow> pyval \<Rightarrow> string" where
  "to_str rep (PBool b) = (if b then ''True'' else ''False'')"
| "to_str rep (PInt i) = str_int i"
| "to_str rep (PStr s) = s"
| "to_str rep PNone = ''None''"
| "to_str rep v = rep v"

fun coerce_scalar :: "(pyval \<Rightarrow> string) \<Rightarrow> pyval \<Rightarrow> hint \<Rightarrow> exn + pyval" where
  "coerce_scalar rep raw h =
     (if raw = PNone then Inr raw
      else case h of
          H_Bool \<Rightarrow> Inr (PBool (truthy raw))
        | H_Int \<Rightarrow> (case to_int raw of Inl e \<Rightarrow> Inl e | Inr None \<Rightarrow> Inr raw | Inr (Some i) \<Rightarrow> Inr (PInt i))
        | H_Float \<Rightarrow> (case to_float raw of Inl e \<Rightarrow> Inl e | Inr None \<Rightarrow> Inr raw | Inr (Some x) \<Rightarrow> Inr (PFloat x))
        | H_Str \<Rightarrow> Inr (PStr (to_str rep raw))
        | _ \<Rightarrow> Inr raw)"

declare coerce_scalar.simps [simp del]

fun coerce_all :: "('a \<Rightarrow> exn + 'b) \<Rightarrow> 'a list \<Rightarrow> exn + 'b list" where
  "coerce_all f [] = Inr []"
| "coerce_all f (x # xs) =
     (case f x of Inl e \<Rightarrow> Inl e
      | Inr y \<Rightarrow> (case coerce_all f xs of Inl e \<Rightarrow> Inl e | Inr ys \<Rightarrow> Inr (y # ys)))"

fun is_dict :: "pyval \<Rightarrow> bool" where
  "is_dict (PDict _) = True"
| "is_dict _ = False"

text \<open>
  \<open>load\<close> is \<open>load_dataclass_from_dict\<close> on the fields of a class, \<open>coerce\<close> is \<open>_coerce_value\<close>.
\<close>

fun coerce :: "(pyval \<Rightarrow> string) \<Rightarrow> hint \<Rightarrow> pyval \<Rightarrow> exn + pyval"
  and load :: "(pyval \<Rightarrow> string) \<Rightarrow> string \<Rightarrow> (string \<times> hint \<times> pyval) list \<Rightarrow> pyval \<Rightarrow> exn + pyval"
  and load_fields :: "(pyval \<Rightarrow> string) \<Rightarrow> (string \<times> hint \<times> pyval) list \<Rightarrow> (string \<times> pyval) list
    \<Rightarrow> exn + (string \<times> pyval) list"
where
  "coerce rep (H_List h) raw =
     (case raw of
        PList xs \<Rightarrow>
          (case (case h of
                   H_Class n fs \<Rightarrow> coerce_all (load rep n fs) (filter is_dict xs)
                 | _ \<Rightarrow> coerce_all (\<lambda>x. coerce_scalar rep x h) xs) of
             Inl e \<Rightarrow> Inl e | Inr ys \<Rightarrow> Inr (PList ys))
      | _ \<Rightarrow> coerce_scalar rep raw (H_List h))"
| "coerce rep (H_Class n fs) raw =
     (if is_dict raw then load rep n fs raw else coerce_scalar rep raw (H_Class n fs))"
| "coerce rep h raw = coerce_scalar rep raw h"
| "load rep n fs data =
     (case data of
        PDict d \<Rightarrow>
          if d = [] then Inr (default_of (H_Class n fs))
          else (case load_fields rep fs d of Inl e \<Rightarrow> Inl e | Inr vs \<Rightarrow> Inr (PObj n vs))
      | _ \<Rightarrow> Inr (default_of (H_Class n fs)))"
| "load_fields rep [] d = Inr []"
| "load_fields rep ((name, h, dflt) # fs) d =
     (case (case map_of d name of None \<Rightarrow> Inr dflt | Some raw \<Rightarrow> coerce rep h raw) of
        Inl e \<Rightarrow> Inl e
      | Inr v \<Rightarrow> (case load_fields rep fs d of Inl e \<Rightarrow> Inl e | Inr vs \<Rightarrow> Inr ((name, v) # vs)))"

subsection \<open>Types of what is loaded\<close>

text \<open>
  A loaded value has the type of its hint, or it is \<open>None\<close>, or it is a raw value that could not
  be converted: a text that is no number, a list, a dictionary, NaN where an integer is wanted.
\<close>

fun unconverted :: "hint \<Rightarrow> pyval \<Rightarrow> bool" where
  "unconverted H_Int v = (to_int v = Inr None)"
| "unconverted H_Float v = (to_float v = Inr None)"
| "unconverted (H_List _) v = (\<forall>xs. v \<noteq> PList xs)"
| "unconverted (H_Class _ _) v = (\<not> is_dict v)"
| "unconverted _ v = False"

fun typed :: "hint \<Rightarrow> pyval \<Rightarrow> bool"
  and typed_fields :: "(string \<times> hint \<times> pyval) list \<Rightarrow> (string \<times> pyval) list \<Rightarrow> bool"
where
  "typed H_Bool v = (v = PNone \<or> (\<exists>b. v = PBool b))"
| "typed H_Str v = (v = PNone \<or> (\<exists>s. v = PStr s))"
| "typed H_Int v = (v = PNone \<or> (\<exists>i. v = PInt i) \<or> unconverted H_Int v)"
| "typed H_Float v = (v = PNone \<or> (\<exists>x. v = PFloat x) \<or> unconverted H_Float v)"
| "typed (H_List h) v = (case v of
     PList xs \<Rightarrow> (case h of H_List _ \<Rightarrow> True | _ \<Rightarrow> list_all (typed h) xs) | _ \<Rightarrow> True)"
| "typed (H_Class n fs) v = (case v of PObj m vs \<Rightarrow> m = n \<and> typed_fields fs vs | _ \<Rightarrow> \<not> is_dict v)"
| "typed_fields [] vs = (vs = [])"
| "typed_fields ((name, h, d) # fs) vs =
     (case vs of [] \<Rightarrow> False | (m, v) # rest \<Rightarrow> m = name \<and> typed h v \<and> typed_fields fs rest)"

text \<open>Raw values as YAML gives them hold no instance.\<close>

fun raw_value :: "pyval \<Rightarrow> bool" where
  "raw_value (PObj _ _) = False"
| "raw_value (PList xs) = list_all raw_value xs"
| "raw_value (PDict d) = list_all (\<lambda>(k, v). raw_value v) d"
| "raw_value _ = True"

fun defaults_ok :: "hint \<Rightarrow> bool"
  and defaults_ok_fields :: "(string \<times> hint \<times> pyval) list \<Rightarrow> bool"
where
  "defaults_ok (H_List h) = defaults_ok h"
| "defaults_ok (H_Class n fs) = defaults_ok_fields fs"
| "defaults_ok _ = True"
| "defaults_ok_fields [] = True"
| "defaults_ok_fields ((name, h, d) # fs) = (typed h d \<and> defaults_ok h \<and> defaults_ok_fields fs)"

lemma defaults_typed: "defaults_ok_fields fs \<Longrightarrow> typed_fields fs (map (\<lambda>(name, h, d). (name, d)) fs)"
  by (induction fs) auto

lemma coerce_all_Inr:
  "coerce_all f xs = Inr ys \<Longrightarrow> list_all2 (\<lambda>x y. f x = Inr y) xs ys"
  by (induction xs arbitrary: ys) (auto split: sum.splits)

lemma list_all2_list_all:
  "list_all2 P xs ys \<Longrightarrow> (\<And>x y. x \<in> set xs \<Longrightarrow> P x y \<Longrightarrow> Q y) \<Longrightarrow> list_all Q ys"
  by (induction rule: list_all2_induct) auto

lemma coerce_all_Inl: "coerce_all f xs = Inl e \<Longrightarrow> \<exists>x \<in> set xs. f x = Inl e"
  by (induction xs) (auto split: sum.splits)

lemma coerce_scalar_typed:
  assumes "coerce_scalar rep raw h = Inr v" and "raw_value raw"
    and "\<And>n fs. h = H_Class n fs \<Longrightarrow> \<not> is_dict raw" and "\<And>g xs. h = H_List g \<Longrightarrow> raw \<noteq> PList xs"
  shows "typed h v"
proof (cases "raw = PNone")
  case True
  with assms show ?thesis by (cases h) (auto simp: coerce_scalar.simps)
next
  case False
  with assms show ?thesis
    by (cases h; cases raw) (auto simp: coerce_scalar.simps split: sum.splits option.splits if_splits)
qed

lemma coerce_typed:
  "coerce rep h raw = Inr v \<Longrightarrow> raw_value raw \<Longrightarrow> defaults_ok h \<Longrightarrow> typed h v"
  "load rep n fs raw = Inr v \<Longrightarrow> raw_value raw \<Longrightarrow> defaults_ok_fields fs \<Longrightarrow> typed (H_Class n fs) v"
  "load_fields rep fs d = Inr vs \<Longrightarrow> list_all (\<lambda>(k, v). raw_value v) d \<Longrightarrow> defaults_ok_fields fs \<Longrightarrow> typed_fields fs vs"
proof (induction rep h raw and rep n fs raw and rep fs d arbitrary: v and v and vs
    rule: coerce_load_load_fields.induct)
  case (1 rep h raw)
  show ?case
  proof (cases "\<exists>xs. raw = PList xs")
    case True
    then obtain xs where xs: "raw = PList xs" by blast
    show ?thesis
    proof (cases "\<exists>n fs. h = H_Class n fs")
      case True
      then obtain n fs where h: "h = H_Class n fs" by blast
      with "1.prems"(1) xs obtain ys where v: "v = PList ys"
        and "coerce_all (load rep n fs) (filter is_dict xs) = Inr ys" by (auto split: sum.splits)
      from coerce_all_Inr [OF this(2)] have "list_all (typed h) ys"
      proof (rule list_all2_list_all)
        fix x y assume "x \<in> set (filter is_dict xs)" "load rep n fs x = Inr y"
        with "1.IH" xs h "1.prems"(2,3) show "typed h y" by (auto simp: list_all_iff)
      qed
      then show ?thesis by (simp add: v h)
    next
      case False
      with "1.prems"(1) xs obtain ys where v: "v = PList ys"
        and "coerce_all (\<lambda>x. coerce_scalar rep x h) xs = Inr ys" by (cases h) (auto split: sum.splits)
      from coerce_all_Inr [OF this(2)] have "(\<nexists>g. h = H_List g) \<Longrightarrow> list_all (typed h) ys"
      proof (rule list_all2_list_all)
        fix x y assume x: "x \<in> set xs" "coerce_scalar rep x h = Inr y"
        show "typed h y" if "\<nexists>g. h = H_List g"
          using x "1.prems"(2) xs \<open>\<nexists>n fs. h = H_Class n fs\<close> that
          by (intro coerce_scalar_typed [OF x(2)]) (auto simp: list_all_iff)
      qed
      then show ?thesis by (cases h) (simp_all add: v)
    qed
  next
    case False
    with "1.prems"(1) have "v = raw" by (cases raw) (auto simp: coerce_scalar.simps)
    with False show ?thesis by (cases raw) simp_all
  qed
next
  case (2 rep n fs raw)
  show ?case
  proof (cases "is_dict raw")
    case True
    with 2 show ?thesis by simp
  next
    case False
    with 2 have "coerce_scalar rep raw (H_Class n fs) = Inr v" by simp
    then show ?thesis by (rule coerce_scalar_typed) (use 2 False in simp_all)
  qed
next
  case (4 rep n fs data)
  then show ?case by (cases data) (auto simp: defaults_typed split: if_splits sum.splits)
next
  case (5 rep d)
  then show ?case by simp
next
  case (6 rep name h dflt fs d)
  then obtain v ws where v: "(case map_of d name of None \<Rightarrow> Inr dflt | Some raw \<Rightarrow> coerce rep h raw) = Inr v"
    and ws: "load_fields rep fs d = Inr ws" "vs = (name, v) # ws" by (auto split: sum.splits)
  have "typed h v"
  proof (cases "map_of d name")
    case None
    with v "6.prems"(3) show ?thesis by simp
  next
    case (Some raw)
    then have "raw_value raw" using "6.prems"(2) by (auto simp: list_all_iff dest: map_of_SomeD)
    with "6.IH"(1) [OF Some] v Some "6.prems"(3) show ?thesis by simp
  qed
  with "6.IH"(2) [OF v ws(1)] "6.prems"(2,3) ws show ?case by simp
qed (auto simp del: typed.simps intro: coerce_scalar_typed)+

subsection \<open>Errors\<close>

text \<open>No infinite floats, and no integers beyond the floats, anywhere in the value.\<close>

fun tame :: "pyval \<Rightarrow> bool" where
  "tame (PInt i) = (real_of_int \<bar>i\<bar> < float_limit)"
| "tame (PFloat x) = (x \<noteq> Pos_Inf \<and> x \<noteq> Neg_Inf)"
| "tame (PList xs) = list_all tame xs"
| "tame (PDict d) = list_all (\<lambda>(k, v). tame v) d"
| "tame _ = True"

lemma to_int_raises: "to_int v = Inl e \<Longrightarrow> e = overflow \<and> \<not> tame v"
  by (cases v rule: to_int.cases) auto

lemma to_float_raises: "to_float v = Inl e \<Longrightarrow> e = overflow \<and> \<not> tame v"
  by (cases v) (auto split: if_splits)

lemma coerce_scalar_raises: "coerce_scalar rep raw h = Inl e \<Longrightarrow> e = overflow \<and> \<not> tame raw"
  by (auto simp: coerce_scalar.simps split: if_splits hint.splits sum.splits option.splits
      dest: to_int_raises to_float_raises)

lemma coerce_raises:
  "coerce rep h raw = Inl e \<Longrightarrow> e = overflow \<and> \<not> tame raw"
  "load rep n fs raw = Inl e \<Longrightarrow> e = overflow \<and> \<not> tame raw"
  "load_fields rep fs d = Inl e \<Longrightarrow> e = overflow \<and> \<not> list_all (\<lambda>(k, v). tame v) d"
proof (induction rep h raw and rep n fs raw and rep fs d rule: coerce_load_load_fields.induct)
  case (1 rep h raw)
  show ?case
  proof (cases "\<exists>xs. raw = PList xs")
    case True
    then obtain xs where xs: "raw = PList xs" by blast
    have "\<exists>x \<in> set xs. e = overflow \<and> \<not> tame x"
    proof (cases "\<exists>n fs. h = H_Class n fs")
      case True
      then obtain n fs where h: "h = H_Class n fs" by blast
      with "1.prems" xs have "coerce_all (load rep n fs) (filter is_dict xs) = Inl e"
        by (auto split: sum.splits)
      then obtain x where "x \<in> set xs" "load rep n fs x = Inl e" "is_dict x" using coerce_all_Inl by fastforce
      with "1.IH" xs h show ?thesis by auto
    next
      case False
      with "1.prems" xs have "coerce_all (\<lambda>x. coerce_scalar rep x h) xs = Inl e"
        by (cases h) (auto split: sum.splits)
      then show ?thesis using coerce_all_Inl coerce_scalar_raises by fastforce
    qed
    with xs show ?thesis by (auto simp: list_all_iff)
  next
    case False
    with "1.prems" have "coerce_scalar rep raw (H_List h) = Inl e" by (cases raw) auto
    then show ?thesis by (rule coerce_scalar_raises)
  qed
next
  case (2 rep n fs raw)
  then show ?case using coerce_scalar_raises [of rep raw "H_Class n fs" e] by (auto split: if_splits)
next
  case (4 rep n fs data)
  then show ?case by (cases data) (auto split: if_splits sum.splits)
next
  case (6 rep name h dflt fs d)
  show ?case
  proof (cases "map_of d name")
    case None
    with 6 show ?thesis by (auto split: sum.splits)
  next
    case (Some raw)
    then have "(name, raw) \<in> set d" by (rule map_of_SomeD)
    with 6 Some show ?thesis by (auto simp: list_all_iff split: sum.splits)
  qed
qed (simp_all add: coerce_scalar_raises)

subsection \<open>Writing and reading back\<close>

fun dump :: "pyval \<Rightarrow> pyval" where
  "dump (PObj n fs) = PDict (map (\<lambda>(k, v). (k, dump v)) fs)"
| "dump (PList xs) = PList (map dump xs)"
| "dump v = v"

text \<open>A value that has exactly the type of its hint; field names do not repeat.\<close>

fun strict :: "hint \<Rightarrow> pyval \<Rightarrow> bool"
  and strict_fields :: "(string \<times> hint \<times> pyval) list \<Rightarrow> (string \<times> pyval) list \<Rightarrow> bool"
where
  "strict H_Bool v = (\<exists>b. v = PBool b)"
| "strict H_Str v = (\<exists>s. v = PStr s)"
| "strict H_Int v = (\<exists>i. v = PInt i)"
| "strict H_Float v = (\<exists>x. v = PFloat x)"
| "strict (H_List h) v = (case v of PList xs \<Rightarrow> list_all (strict h) xs \<and> (\<forall>g. h \<noteq> H_List g) | _ \<Rightarrow> False)"
| "strict (H_Class n fs) v =
     (case v of PObj m vs \<Rightarrow> m = n \<and> distinct (map fst fs) \<and> strict_fields fs vs | _ \<Rightarrow> False)"
| "strict_fields [] vs = (vs = [])"
| "strict_fields ((name, h, d) # fs) vs =
     (case vs of [] \<Rightarrow> False | (m, v) # rest \<Rightarrow> m = name \<and> strict h v \<and> strict_fields fs rest)"

lemma strict_fields_names: "strict_fields fs vs \<Longrightarrow> map fst vs = map fst fs"
  by (induction fs arbitrary: vs) (auto split: list.splits)

lemma coerce_all_same:
  "(\<And>x. x \<in> set xs \<Longrightarrow> f (g x) = Inr x) \<Longrightarrow> coerce_all f (map g xs) = Inr xs"
  by (induction xs) auto

lemma map_of_dump: "map_of (map (\<lambda>(k, v). (k, dump v)) vs) k = map_option dump (map_of vs k)"
  by (induction vs) auto

lemma strict_class_dict:
  assumes "strict (H_Class n fs) x"
  obtains vs where "x = PObj n vs" "dump x = PDict (map (\<lambda>(k, v). (k, dump v)) vs)"
    "distinct (map fst vs)" "strict_fields fs vs"
  using assms strict_fields_names by (cases x) fastforce+

lemma coerce_dump:
  "strict h v \<Longrightarrow> coerce rep h (dump v) = Inr v"
  "strict_fields fs vs \<Longrightarrow> \<forall>(k, v) \<in> set vs. map_of d k = Some (dump v) \<Longrightarrow> load_fields rep fs d = Inr vs"
proof (induction h v and fs vs arbitrary: and d rule: strict_strict_fields.induct)
  case (5 h v)
  then obtain xs where v: "v = PList xs" and xs: "list_all (strict h) xs" and h: "\<forall>g. h \<noteq> H_List g"
    by (auto split: pyval.splits)
  have IH: "coerce rep h (dump x) = Inr x" if "x \<in> set xs" for x
    using 5 v xs that by (auto simp: list_all_iff)
  show ?case
  proof (cases h)
    case (H_Class n fs)
    have "is_dict (dump x)" if "x \<in> set xs" for x
    proof -
      have "strict (H_Class n fs) x" using xs that unfolding H_Class list_all_iff by blast
      then show ?thesis by (rule strict_class_dict) simp
    qed
    then have "filter is_dict (map dump xs) = map dump xs" "\<And>x. x \<in> set xs \<Longrightarrow> load rep n fs (dump x) = Inr x"
      using IH H_Class by (auto simp: filter_id_conv)
    then show ?thesis using coerce_all_same [of xs "load rep n fs" dump] by (simp add: v H_Class)
  qed (use h IH coerce_all_same [of xs _ dump] in \<open>simp_all add: v\<close>)
next
  case (6 n fs v)
  then obtain vs where v: "v = PObj n vs" "dump v = PDict (map (\<lambda>(k, v). (k, dump v)) vs)"
    "distinct (map fst vs)" "strict_fields fs vs" by (elim strict_class_dict)
  have "\<forall>(k, w) \<in> set vs. map_of (map (\<lambda>(k, v). (k, dump v)) vs) k = Some (dump w)"
    using v(3) by (auto simp: map_of_dump)
  with 6 v have "load_fields rep fs (map (\<lambda>(k, v). (k, dump v)) vs) = Inr vs" by auto
  with v strict_fields_names [OF v(4)] show ?case by (cases vs) auto
next
  case (8 name h dflt fs vs)
  then show ?case by (auto split: list.splits)
qed (auto simp: coerce_scalar.simps)

end
