(* ===== verification/Config.thy ===== *)
theory Config
  imports Config_Loader
begin

text \<open>
  The configuration of the server, \<open>config.py\<close>: the dataclasses with their fields, hints and
  defaults, the loader of the YAML file, and the validation. A configuration is an instance in
  the sense of \<open>Config_Loader\<close>, since the loader stores values of any type in it.
\<close>

subsection \<open>The dataclasses\<close>

definition vlm_rule_config :: hint where
  "vlm_rule_config = H_Class ''VLMRuleConfig''
    [(''class_name'', H_Str, PStr ''person''),
     (''min_confidence'', H_Float, PFloat (Fin (4 / 5))),
     (''prompt_template'', H_Str, PStr ''person_behavior'')]"

definition vlm_model_config :: hint where
  "vlm_model_config = H_Class ''VLMModelConfig''
    [(''model_id'', H_Str, PStr ''''), (''model_path'', H_Str, PStr ''''),
     (''is_default'', H_Bool, PBool False)]"

definition central_config :: hint where
  "central_config = H_Class ''CentralConfig''
    [(''host'', H_Str, PStr ''0.0.0.0''), (''port'', H_Int, PInt 50051),
     (''model_path'', H_Str, PStr ''models/Llama-3.2-3B-Instruct''),
     (''max_message_size_mb'', H_Int, PInt 16), (''vlm_model_path'', H_Str, PStr ''''),
     (''inference_mode'', H_Str, PStr ''llm''),
     (''vlm_models'', H_List vlm_model_config, PList [])]"

definition logging_config :: hint where
  "logging_config = H_Class ''LoggingConfig''
    [(''level'', H_Str, PStr ''info''), (''format'', H_Str, PStr ''text''),
     (''trace_enabled'', H_Bool, PBool True), (''file_path'', H_Str, PStr ''''),
     (''max_bytes'', H_Int, PInt 10485760), (''backup_count'', H_Int, PInt 5)]"

definition tls_config :: hint where
  "tls_config = H_Class ''TLSConfig''
    [(''enabled'', H_Bool, PBool False), (''ca_cert'', H_Str, PStr ''''),
     (''server_cert'', H_Str, PStr ''''), (''server_key'', H_Str, PStr '''')]"

definition storage_config :: hint where
  "storage_config = H_Class ''StorageConfig''
    [(''db_path'', H_Str, PStr ''data/detections.db''), (''retention_days'', H_Int, PInt 7)]"

definition metrics_config :: hint where
  "metrics_config = H_Class ''MetricsConfig''
    [(''enabled'', H_Bool, PBool True), (''port'', H_Int, PInt 9090)]"

definition alert_rule_config :: hint where
  "alert_rule_config = H_Class ''AlertRuleConfig''
    [(''name'', H_Str, PStr ''''), (''cooldown_seconds'', H_Float, PFloat (Fin 300)),
     (''severity'', H_Str, PStr ''critical'')]"

definition alert_route_config :: hint where
  "alert_route_config = H_Class ''AlertRouteConfig''
    [(''severity'', H_Str, PStr ''critical''), (''webhook_url'', H_Str, PStr '''')]"

definition alerting_config :: hint where
  "alerting_config = H_Class ''AlertingConfig''
    [(''enabled'', H_Bool, PBool True), (''webhook_url'', H_Str, PStr ''''),
     (''rules'', H_List alert_rule_config, PList []),
     (''routes'', H_List alert_route_config, PList [])]"

definition circuit_breaker_config :: hint where
  "circuit_breaker_config = H_Class ''CircuitBreakerConfig''
    [(''failure_threshold'', H_Int, PInt 5), (''recovery_timeout'', H_Float, PFloat (Fin 30)),
     (''half_open_max'', H_Int, PInt 1)]"

definition tracing_config :: hint where
  "tracing_config = H_Class ''TracingConfig''
    [(''enabled'', H_Bool, PBool False), (''endpoint'', H_Str, PStr ''http://localhost:4317''),
     (''service_name'', H_Str, PStr ''neuro-pipeline-central''),
     (''sample_rate'', H_Float, PFloat (Fin 1))]"

definition batch_config :: hint where
  "batch_config = H_Class ''BatchConfig''
    [(''max_size'', H_Int, PInt 8), (''timeout_seconds'', H_Float, PFloat (Fin 2)),
     (''enabled'', H_Bool, PBool True)]"

definition session_config :: hint where
  "session_config = H_Class ''SessionConfig''
    [(''heartbeat_interval'', H_Float, PFloat (Fin 10)),
     (''expiry_timeout'', H_Float, PFloat (Fin 30)), (''max_devices'', H_Int, PInt 16)]"

definition cloud_storage_config :: hint where
  "cloud_storage_config = H_Class ''CloudStorageConfig''
    [(''enabled'', H_Bool, PBool False), (''provider'', H_Str, PStr ''s3''),
     (''bucket'', H_Str, PStr ''''), (''prefix'', H_Str, PStr ''neuro-pipeline/''),
     (''endpoint_url'', H_Str, PStr ''''), (''region'', H_Str, PStr ''us-east-1'')]"

definition rate_limiting_config :: hint where
  "rate_limiting_config = H_Class ''RateLimitingConfig''
    [(''enabled'', H_Bool, PBool False), (''max_rps'', H_Int, PInt 100),
     (''burst'', H_Int, PInt 20)]"

definition model_management_config :: hint where
  "model_management_config = H_Class ''ModelManagementConfig''
    [(''enabled'', H_Bool, PBool False), (''max_models_per_device'', H_Int, PInt 3)]"

definition reasoning_config :: hint where
  "reasoning_config = H_Class ''ReasoningConfig''
    [(''enabled'', H_Bool, PBool False), (''max_steps'', H_Int, PInt 3),
     (''timeout_per_step'', H_Float, PFloat (Fin 15))]"

definition rag_config :: hint where
  "rag_config = H_Class ''RAGConfig''
    [(''enabled'', H_Bool, PBool False), (''max_history_items'', H_Int, PInt 10),
     (''time_window_hours'', H_Float, PFloat (Fin 24))]"

definition ab_test_config :: hint where
  "ab_test_config = H_Class ''ABTestConfig''
    [(''enabled'', H_Bool, PBool False), (''traffic_split'', H_Float, PFloat (Fin (1 / 2))),
     (''min_samples'', H_Int, PInt 100), (''metric'', H_Str, PStr ''accuracy'')]"

definition anomaly_config :: hint where
  "anomaly_config = H_Class ''AnomalyConfig''
    [(''enabled'', H_Bool, PBool False),
     (''baseline_window_hours'', H_Float, PFloat (Fin 168)),
     (''z_score_threshold'', H_Float, PFloat (Fin 3)), (''min_samples'', H_Int, PInt 50)]"

definition re_id_config :: hint where
  "re_id_config = H_Class ''ReIDConfig''
    [(''enabled'', H_Bool, PBool False),
     (''similarity_threshold'', H_Float, PFloat (Fin (17 / 20))),
     (''time_window_seconds'', H_Float, PFloat (Fin 300))]"

definition time_series_config :: hint where
  "time_series_config = H_Class ''TimeSeriesConfig''
    [(''enabled'', H_Bool, PBool False), (''aggregation_interval'', H_Int, PInt 60)]"

definition auto_annotator_config :: hint where
  "auto_annotator_config = H_Class ''AutoAnnotatorConfig''
    [(''enabled'', H_Bool, PBool False), (''min_confidence'', H_Float, PFloat (Fin (9 / 10))),
     (''output_dir'', H_Str, PStr ''data/annotations'')]"

definition reporting_config :: hint where
  "reporting_config = H_Class ''ReportingConfig''
    [(''enabled'', H_Bool, PBool False), (''output_dir'', H_Str, PStr ''data/reports''),
     (''schedule_hours'', H_Float, PFloat (Fin 24))]"

definition vlm_config_guide_config :: hint where
  "vlm_config_guide_config = H_Class ''VLMConfigGuideConfig''
    [(''enabled'', H_Bool, PBool False), (''min_confidence'', H_Float, PFloat (Fin (7 / 10))),
     (''max_adjustments_per_result'', H_Int, PInt 3), (''auto_apply'', H_Bool, PBool False),
     (''enable_region_adjustment'', H_Bool, PBool True),
     (''enable_sensitivity_adjustment'', H_Bool, PBool True),
     (''enable_fps_adjustment'', H_Bool, PBool False)]"

definition app_config :: hint where
  "app_config = H_Class ''AppConfig''
    [(''central'', central_config, default_of central_config),
     (''logging'', logging_config, default_of logging_config),
     (''tls'', tls_config, default_of tls_config),
     (''storage'', storage_config, default_of storage_config),
     (''metrics'', metrics_config, default_of metrics_config),
     (''alerting'', alerting_config, default_of alerting_config),
     (''circuit_breaker'', circuit_breaker_config, default_of circuit_breaker_config),
     (''vlm_rules'', H_List vlm_rule_config, PList [default_of vlm_rule_config]),
     (''tracing'', tracing_config, default_of tracing_config),
     (''batch'', batch_config, default_of batch_config),
     (''sessions'', session_config, default_of session_config),
     (''cloud_storage'', cloud_storage_config, default_of cloud_storage_config),
     (''rate_limiting'', rate_limiting_config, default_of rate_limiting_config),
     (''model_management'', model_management_config, default_of model_management_config),
     (''reasoning'', reasoning_config, default_of reasoning_config),
     (''rag'', rag_config, default_of rag_config),
     (''ab_test'', ab_test_config, default_of ab_test_config),
     (''anomaly'', anomaly_config, default_of anomaly_config),
     (''reid'', re_id_config, default_of re_id_config),
     (''timeseries'', time_series_config, default_of time_series_config),
     (''auto_annotator'', auto_annotator_config, default_of auto_annotator_config),
     (''reporting'', reporting_config, default_of reporting_config),
     (''vlm_config_guide'', vlm_config_guide_config, default_of vlm_config_guide_config)]"

subsection \<open>Loading\<close>

definition default_config :: pyval where
  "default_config = default_of app_config"

fun set_attr :: "string \<Rightarrow> pyval \<Rightarrow> pyval \<Rightarrow> pyval" where
  "set_attr name v (PObj n fs) = PObj n (AList.update name v fs)"
| "set_attr name v x = x"

text \<open>\<open>key in data\<close>, for the values that YAML gives.\<close>

fun has_key :: "string \<Rightarrow> pyval \<Rightarrow> exn + bool" where
  "has_key k (PDict d) = Inr (map_of d k \<noteq> None)"
| "has_key k (PStr s) = Inr (contains k s)"
| "has_key k (PList xs) = Inr (PStr k \<in> set xs)"
| "has_key k _ = Inl (Type_Error ''argument is not iterable'')"

text \<open>\<open>contents\<close> is what \<open>yaml.safe_load\<close> returns or raises; \<open>None\<close> is a missing file.\<close>

definition from_yaml :: "(pyval \<Rightarrow> string) \<Rightarrow> (exn + pyval) option \<Rightarrow> exn + pyval" where
  "from_yaml rep contents =
     (case contents of
        None \<Rightarrow> Inr default_config
      | Some (Inl e) \<Rightarrow> Inl e
      | Some (Inr raw) \<Rightarrow>
          let data = (if truthy raw then raw else PDict [])
          in case coerce rep app_config (if is_dict data then data else PDict []) of
              Inl e \<Rightarrow> Inl e
            | Inr cfg \<Rightarrow> (case has_key ''vlm_rules'' data of
                  Inl e \<Rightarrow> Inl e
                | Inr True \<Rightarrow> Inr cfg
                | Inr False \<Rightarrow> Inr (set_attr ''vlm_rules'' (PList [default_of vlm_rule_config]) cfg)))"

subsection \<open>Validation\<close>

fun attr :: "string \<Rightarrow> pyval \<Rightarrow> exn + pyval" where
  "attr name (PObj n fs) = (case map_of fs name of
     None \<Rightarrow> Inl (Attribute_Error name) | Some v \<Rightarrow> Inr v)"
| "attr name _ = Inl (Attribute_Error name)"

definition attr2 :: "string \<Rightarrow> string \<Rightarrow> pyval \<Rightarrow> exn + pyval" where
  "attr2 section name cfg = (case attr section cfg of Inl e \<Rightarrow> Inl e | Inr s \<Rightarrow> attr name s)"

text \<open>Numbers as they are compared; other values raise a \<open>TypeError\<close>.\<close>

fun number :: "pyval \<Rightarrow> exn + pyfloat" where
  "number (PBool b) = Inr (Fin (if b then 1 else 0))"
| "number (PInt i) = Inr (Fin (real_of_int i))"
| "number (PFloat x) = Inr x"
| "number _ = Inl (Type_Error ''not supported between instances'')"

definition between :: "real \<Rightarrow> real \<Rightarrow> pyval \<Rightarrow> exn + bool" where
  "between a b v = (case number v of Inl e \<Rightarrow> Inl e | Inr x \<Rightarrow> Inr (Fin a \<le> x \<and> x \<le> Fin b))"

definition not_positive :: "pyval \<Rightarrow> exn + bool" where
  "not_positive v = (case number v of Inl e \<Rightarrow> Inl e | Inr x \<Rightarrow> Inr (x \<le> Fin 0))"

text \<open>A check is a list of tests in order; the first that raises or is bad ends it.\<close>

fun first_error :: "(exn + unit) list \<Rightarrow> exn + unit" where
  "first_error [] = Inr ()"
| "first_error (c # cs) = (case c of Inl e \<Rightarrow> Inl e | Inr _ \<Rightarrow> first_error cs)"

definition reject_if :: "bool \<Rightarrow> string \<Rightarrow> exn + unit" where
  "reject_if bad msg = (if bad then Inl (Config_Error msg) else Inr ())"

definition check :: "exn + pyval \<Rightarrow> (pyval \<Rightarrow> exn + bool) \<Rightarrow> bool \<Rightarrow> (pyval \<Rightarrow> string) \<Rightarrow> exn + unit" where
  "check v test good msg =
     (case v of Inl e \<Rightarrow> Inl e
      | Inr x \<Rightarrow> (case test x of Inl e \<Rightarrow> Inl e | Inr b \<Rightarrow> reject_if (b \<noteq> good) (msg x)))"

text \<open>The attributes that a loop's list reads before the first of them is tested.\<close>

definition reads :: "(exn + pyval) list \<Rightarrow> exn + unit" where
  "reads vs = first_error (map (\<lambda>v. case v of Inl e \<Rightarrow> Inl e | Inr _ \<Rightarrow> Inr ()) vs)"

definition check_port :: "(pyval \<Rightarrow> string) \<Rightarrow> pyval \<Rightarrow> string \<Rightarrow> exn + unit" where
  "check_port rep cfg section =
     check (attr2 section ''port'' cfg) (between 1 65535) True
       (\<lambda>v. section @ ''.port must be 1-65535, got '' @ to_str rep v)"

fun iterate :: "pyval \<Rightarrow> exn + pyval list" where
  "iterate (PList xs) = Inr xs"
| "iterate (PStr s) = Inr (map (\<lambda>c. PStr [c]) s)"
| "iterate (PDict d) = Inr (map (\<lambda>(k, v). PStr k) d)"
| "iterate _ = Inl (Type_Error ''object is not iterable'')"

definition check_rules :: "(pyval \<Rightarrow> string) \<Rightarrow> pyval \<Rightarrow> exn + unit" where
  "check_rules rep cfg =
     (case attr ''vlm_rules'' cfg of Inl e \<Rightarrow> Inl e
      | Inr rs \<Rightarrow> (case iterate rs of Inl e \<Rightarrow> Inl e
          | Inr xs \<Rightarrow> first_error (map (\<lambda>(i, r).
              check (attr ''min_confidence'' r) (between 0 1) True
                (\<lambda>v. ''vlm_rules['' @ str_int (int i) @ ''].min_confidence must be 0.0-1.0, got '' @ to_str rep v))
              (enumerate 0 xs))))"

definition check_positive :: "(pyval \<Rightarrow> string) \<Rightarrow> pyval \<Rightarrow> string \<Rightarrow> string \<Rightarrow> exn + unit" where
  "check_positive rep cfg section name =
     check (attr2 section name cfg) not_positive False
       (\<lambda>v. section @ ''.'' @ name @ '' must be > 0, got '' @ to_str rep v)"

text \<open>\<open>not path or not Path(path).exists()\<close>; \<open>Path\<close> of anything but a text raises.\<close>

fun missing_file :: "(string \<Rightarrow> bool) \<Rightarrow> pyval \<Rightarrow> exn + bool" where
  "missing_file exists_there v =
     (if \<not> truthy v then Inr True
      else case v of PStr s \<Rightarrow> Inr (\<not> exists_there s) | _ \<Rightarrow> Inl (Type_Error ''expected str''))"

definition check_tls :: "(pyval \<Rightarrow> string) \<Rightarrow> (string \<Rightarrow> bool) \<Rightarrow> pyval \<Rightarrow> exn + unit" where
  "check_tls rep exists_there cfg =
     (case attr2 ''tls'' ''enabled'' cfg of Inl e \<Rightarrow> Inl e
      | Inr on \<Rightarrow> if \<not> truthy on then Inr ()
          else first_error (reads (map (\<lambda>name. attr2 ''tls'' name cfg) [''ca_cert'', ''server_cert'', ''server_key'']) #
            map (\<lambda>name. check (attr2 ''tls'' name cfg) (missing_file exists_there) False
            (\<lambda>v. ''tls.'' @ name @ '' path does not exist: '' @ to_str rep v))
            [''ca_cert'', ''server_cert'', ''server_key'']))"

definition check_mode :: "(pyval \<Rightarrow> string) \<Rightarrow> pyval \<Rightarrow> exn + unit" where
  "check_mode rep cfg =
     check (attr2 ''central'' ''inference_mode'' cfg)
       (\<lambda>v. Inr (v \<in> {PStr ''llm'', PStr ''vlm''})) True
       (\<lambda>v. ''inference_mode must be '' @ [apostrophe] @ ''llm'' @ [apostrophe] @ '' or '' @ [apostrophe] @
          ''vlm'' @ [apostrophe] @ '', got '' @ [apostrophe] @ to_str rep v @ [apostrophe])"

definition check_cloud :: "pyval \<Rightarrow> exn + unit" where
  "check_cloud cfg =
     (case attr2 ''cloud_storage'' ''enabled'' cfg of Inl e \<Rightarrow> Inl e
      | Inr on \<Rightarrow> if \<not> truthy on then Inr ()
          else (case attr2 ''cloud_storage'' ''bucket'' cfg of Inl e \<Rightarrow> Inl e
            | Inr b \<Rightarrow> reject_if (\<not> truthy b) ''cloud_storage.bucket must be non-empty when enabled''))"

definition validate :: "(pyval \<Rightarrow> string) \<Rightarrow> (string \<Rightarrow> bool) \<Rightarrow> pyval \<Rightarrow> exn + unit" where
  "validate rep exists_there cfg =
     first_error
       [reads [attr2 ''central'' ''port'' cfg, attr2 ''metrics'' ''port'' cfg],
        check_port rep cfg ''central'',
        check_port rep cfg ''metrics'',
        check_rules rep cfg,
        reads [attr2 ''circuit_breaker'' ''recovery_timeout'' cfg,
          attr2 ''sessions'' ''expiry_timeout'' cfg, attr2 ''batch'' ''timeout_seconds'' cfg],
        check_positive rep cfg ''circuit_breaker'' ''recovery_timeout'',
        check_positive rep cfg ''sessions'' ''expiry_timeout'',
        check_positive rep cfg ''batch'' ''timeout_seconds'',
        check_tls rep exists_there cfg,
        check_mode rep cfg,
        check_positive rep cfg ''sessions'' ''max_devices'',
        check_cloud cfg]"


subsection \<open>What a valid configuration satisfies\<close>

definition holds :: "exn + pyval \<Rightarrow> (pyval \<Rightarrow> bool) \<Rightarrow> bool" where
  "holds v P \<longleftrightarrow> (\<exists>x. v = Inr x \<and> P x)"

definition in_range :: "real \<Rightarrow> real \<Rightarrow> pyval \<Rightarrow> bool" where
  "in_range a b v \<longleftrightarrow> (\<exists>x. number v = Inr x \<and> Fin a \<le> x \<and> x \<le> Fin b)"

definition positive :: "pyval \<Rightarrow> bool" where
  "positive v \<longleftrightarrow> (\<exists>x. number v = Inr x \<and> \<not> x \<le> Fin 0)"

definition rules_valid :: "pyval \<Rightarrow> bool" where
  "rules_valid rs \<longleftrightarrow> (\<exists>xs. iterate rs = Inr xs \<and> (\<forall>r \<in> set xs. holds (attr ''min_confidence'' r) (in_range 0 1)))"

definition readable_file :: "(string \<Rightarrow> bool) \<Rightarrow> pyval \<Rightarrow> bool" where
  "readable_file exists_there v \<longleftrightarrow> (\<exists>s. v = PStr s \<and> s \<noteq> '''' \<and> exists_there s)"

definition valid_config :: "(string \<Rightarrow> bool) \<Rightarrow> pyval \<Rightarrow> bool" where
  "valid_config exists_there cfg \<longleftrightarrow>
     holds (attr2 ''central'' ''port'' cfg) (in_range 1 65535) \<and>
     holds (attr2 ''metrics'' ''port'' cfg) (in_range 1 65535) \<and>
     holds (attr ''vlm_rules'' cfg) rules_valid \<and>
     holds (attr2 ''circuit_breaker'' ''recovery_timeout'' cfg) positive \<and>
     holds (attr2 ''sessions'' ''expiry_timeout'' cfg) positive \<and>
     holds (attr2 ''batch'' ''timeout_seconds'' cfg) positive \<and>
     holds (attr2 ''tls'' ''enabled'' cfg) (\<lambda>on. truthy on \<longrightarrow>
       (\<forall>name \<in> {''ca_cert'', ''server_cert'', ''server_key''}.
          holds (attr2 ''tls'' name cfg) (readable_file exists_there))) \<and>
     holds (attr2 ''central'' ''inference_mode'' cfg) (\<lambda>v. v \<in> {PStr ''llm'', PStr ''vlm''}) \<and>
     holds (attr2 ''sessions'' ''max_devices'' cfg) positive \<and>
     holds (attr2 ''cloud_storage'' ''enabled'' cfg) (\<lambda>on. truthy on \<longrightarrow>
       holds (attr2 ''cloud_storage'' ''bucket'' cfg) truthy)"

lemma first_error_iff: "first_error cs = Inr () \<longleftrightarrow> (\<forall>c \<in> set cs. c = Inr ())"
  by (induction cs) (auto split: sum.splits)

lemma holds_simps [simp]: "holds (Inl e) P \<longleftrightarrow> False" "holds (Inr x) P \<longleftrightarrow> P x"
  by (simp_all add: holds_def)

lemma check_iff:
  "check v test good msg = Inr () \<longleftrightarrow> holds v (\<lambda>x. test x = Inr good)"
  by (auto simp: check_def reject_if_def split: sum.splits)

lemma reads_iff: "reads vs = Inr () \<longleftrightarrow> (\<forall>v \<in> set vs. \<exists>x. v = Inr x)"
proof -
  have "(case v of Inl e \<Rightarrow> Inl e | Inr _ \<Rightarrow> Inr ()) = (Inr () :: exn + unit) \<longleftrightarrow> (\<exists>x. v = Inr x)"
    for v :: "exn + pyval" by (cases v) simp_all
  then show ?thesis by (simp add: reads_def first_error_iff)
qed

lemma between_iff: "between a b v = Inr True \<longleftrightarrow> in_range a b v"
  by (auto simp: between_def in_range_def split: sum.splits)

lemma not_positive_iff: "not_positive v = Inr False \<longleftrightarrow> positive v"
  by (auto simp: not_positive_def positive_def split: sum.splits)

lemma missing_file_iff: "missing_file ex v = Inr False \<longleftrightarrow> readable_file ex v"
  by (cases v) (auto simp: readable_file_def)

lemma check_rules_iff: "check_rules rep cfg = Inr () \<longleftrightarrow> holds (attr ''vlm_rules'' cfg) rules_valid"
proof (cases "attr ''vlm_rules'' cfg")
  case (Inr rs)
  have e: "(\<forall>x \<in> set (enumerate 0 xs). P (snd x)) \<longleftrightarrow> (\<forall>r \<in> set xs. P r)" for P and xs :: "pyval list"
    by (metis (no_types, lifting) in_set_conv_nth length_enumerate nth_enumerate_eq snd_conv)
  show ?thesis
    using e [of _ "\<lambda>r. holds (attr ''min_confidence'' r) (in_range 0 1)"] Inr
    by (cases "iterate rs") (simp_all add: check_rules_def rules_valid_def first_error_iff check_iff between_iff split_beta)
qed (simp add: check_rules_def)

lemma validate_parts:
  "check_port rep cfg s = Inr () \<longleftrightarrow> holds (attr2 s ''port'' cfg) (in_range 1 65535)"
  "check_positive rep cfg s n = Inr () \<longleftrightarrow> holds (attr2 s n cfg) positive"
  "check_mode rep cfg = Inr () \<longleftrightarrow> holds (attr2 ''central'' ''inference_mode'' cfg) (\<lambda>v. v \<in> {PStr ''llm'', PStr ''vlm''})"
  "check_cloud cfg = Inr () \<longleftrightarrow> holds (attr2 ''cloud_storage'' ''enabled'' cfg) (\<lambda>on. truthy on \<longrightarrow>
       holds (attr2 ''cloud_storage'' ''bucket'' cfg) truthy)"
  by (auto simp: check_port_def check_positive_def check_mode_def check_cloud_def check_iff between_iff
      not_positive_iff reject_if_def split: sum.splits)

lemma check_tls_iff:
  "check_tls rep ex cfg = Inr () \<longleftrightarrow> holds (attr2 ''tls'' ''enabled'' cfg) (\<lambda>on. truthy on \<longrightarrow>
       (\<forall>name \<in> {''ca_cert'', ''server_cert'', ''server_key''}. holds (attr2 ''tls'' name cfg) (readable_file ex)))"
  by (cases "attr2 ''tls'' ''enabled'' cfg")
    (auto simp: check_tls_def first_error_iff reads_iff check_iff missing_file_iff holds_def
      simp del: first_error.simps missing_file.simps)

subsection \<open>What is loaded\<close>

lemma some_bool [simp]: "Ex Not" "\<exists>b. b"
  by (rule exI [of _ False], simp) blast

lemma load_fields_lookup:
  "load_fields rep fs d = Inr vs \<Longrightarrow> map_of fs k = Some (h, dflt) \<Longrightarrow>
     \<exists>v. map_of vs k = Some v \<and>
       (case map_of d k of None \<Rightarrow> v = dflt | Some raw \<Rightarrow> coerce rep h raw = Inr v)"
proof (induction fs arbitrary: vs)
  case (Cons f fs)
  obtain name g dd where f: "f = (name, g, dd)" by (cases f)
  from Cons.prems(1) obtain v ws where
    "(case map_of d name of None \<Rightarrow> Inr dd | Some raw \<Rightarrow> coerce rep g raw) = Inr v"
    "load_fields rep fs d = Inr ws" "vs = (name, v) # ws" by (auto simp: f split: sum.splits)
  with Cons.IH [of ws] Cons.prems(2) show ?case by (auto simp: f split: if_splits option.splits)
qed simp

lemma update_same: "map_of al k = Some v \<Longrightarrow> AList.update k v al = al"
  by (induction al) auto

lemmas schema_defs = app_config_def vlm_rule_config_def vlm_model_config_def central_config_def
  logging_config_def tls_config_def storage_config_def metrics_config_def alerting_config_def
  alert_rule_config_def alert_route_config_def circuit_breaker_config_def tracing_config_def
  batch_config_def session_config_def cloud_storage_config_def rate_limiting_config_def
  model_management_config_def reasoning_config_def rag_config_def ab_test_config_def
  anomaly_config_def re_id_config_def time_series_config_def auto_annotator_config_def
  reporting_config_def vlm_config_guide_config_def

definition app_fields :: "(string \<times> hint \<times> pyval) list" where
  "app_fields = (case app_config of H_Class n fs \<Rightarrow> fs | _ \<Rightarrow> [])"

lemma app_config_eq: "app_config = H_Class ''AppConfig'' app_fields"
  by (simp add: app_fields_def app_config_def)

lemma vlm_rules_field:
  "map_of app_fields ''vlm_rules'' = Some (H_List vlm_rule_config, PList [default_of vlm_rule_config])"
  by (simp add: app_fields_def app_config_def)

text \<open>The rule that \<open>from_yaml\<close> puts in place when the key is missing is the default anyway.\<close>

lemma load_sets_default_rule:
  assumes "coerce rep app_config (PDict d) = Inr cfg" and "map_of d ''vlm_rules'' = None"
  shows "set_attr ''vlm_rules'' (PList [default_of vlm_rule_config]) cfg = cfg"
proof -
  obtain vs where cfg: "cfg = PObj ''AppConfig'' vs"
    and "map_of vs ''vlm_rules'' = Some (PList [default_of vlm_rule_config])"
  proof (cases "d = []")
    case True
    then have "cfg = default_of (H_Class ''AppConfig'' app_fields)" using assms(1) by (simp add: app_config_eq)
    then show thesis using that by (simp add: app_fields_def app_config_def)
  next
    case False
    then obtain vs where c: "cfg = PObj ''AppConfig'' vs" and l: "load_fields rep app_fields d = Inr vs"
      using assms(1) by (auto simp: app_config_eq split: sum.splits)
    show thesis using that [OF c] load_fields_lookup [OF l vlm_rules_field] assms(2) by auto
  qed
  then show ?thesis by (simp add: update_same)
qed

definition mapping_of :: "pyval \<Rightarrow> (string \<times> pyval) list" where
  "mapping_of raw = (case raw of PDict d \<Rightarrow> d | _ \<Rightarrow> [])"

lemma from_yaml_eq:
  assumes "\<not> truthy raw \<or> (\<exists>x. has_key ''vlm_rules'' raw = Inr x)"
  shows "from_yaml rep (Some (Inr raw)) = coerce rep app_config (PDict (mapping_of raw))"
proof -
  have k: "map_of (mapping_of raw) ''vlm_rules'' = None" if "has_key ''vlm_rules'' raw = Inr False"
    using that by (cases raw) (auto simp: mapping_of_def)
  have d: "(if is_dict data then data else PDict []) = PDict (mapping_of raw)"
    if "data = (if truthy raw then raw else PDict [])" for data
    using that by (cases raw) (auto simp: mapping_of_def)
  have unfolded: "from_yaml rep (Some (Inr raw)) =
      (case coerce rep app_config (PDict (mapping_of raw)) of Inl e \<Rightarrow> Inl e
       | Inr cfg \<Rightarrow> (case has_key ''vlm_rules'' (if truthy raw then raw else PDict []) of
            Inl e \<Rightarrow> Inl e | Inr True \<Rightarrow> Inr cfg
          | Inr False \<Rightarrow> Inr (set_attr ''vlm_rules'' (PList [default_of vlm_rule_config]) cfg)))"
    by (simp only: from_yaml_def Let_def d [OF refl] option.case sum.case)
  show ?thesis
  proof (cases "coerce rep app_config (PDict (mapping_of raw))")
    case (Inr cfg)
    note keep = load_sets_default_rule [OF Inr]
    show ?thesis
    proof (cases "truthy raw")
      case True
      then obtain x where x: "has_key ''vlm_rules'' raw = Inr x" using assms by blast
      with True Inr keep k unfolded show ?thesis by (cases x) simp_all
    next
      case False
      then have "map_of (mapping_of raw) ''vlm_rules'' = None" by (cases raw) (simp_all add: mapping_of_def)
      with False unfolded Inr keep show ?thesis by simp
    qed
  qed (simp add: unfolded)
qed

lemma has_key_raises: "has_key k raw = Inl e \<Longrightarrow> \<nexists>d. raw = PDict d"
  by (cases raw) simp_all

subsection \<open>Properties\<close>

lemma validate_accepts: "validate rep ex cfg = Inr () \<longleftrightarrow> valid_config ex cfg"
  by (auto simp: validate_def valid_config_def first_error_iff reads_iff validate_parts check_rules_iff
      check_tls_iff holds_def simp del: first_error.simps)

text \<open>
  Claim C21. Validation accepts exactly the valid configurations: both ports between 1 and 65535,
  the confidences of all rules between 0 and 1, the timeouts and the number of devices not at
  most 0, a known inference mode, and, where TLS or cloud storage is on, existing certificates
  and a bucket; a value of the wrong type is never accepted.
\<close>

theorem validate_iff:
  "validate rep ex cfg = Inr () \<longleftrightarrow> valid_config ex cfg"
  by (rule validate_accepts)



text \<open>
  The only exceptions of the loader itself are an \<open>OverflowError\<close>, for an infinite float
  or an integer beyond the floats in the file, and a \<open>TypeError\<close> for a file that holds nothing
  but a number or \<open>true\<close>.
\<close>

theorem loader_errors:
  assumes "from_yaml rep (Some (Inr raw)) = Inl e"
  shows "(e = overflow \<and> \<not> tame raw) \<or>
    (e = Type_Error ''argument is not iterable'' \<and> (\<nexists>d. raw = PDict d) \<and> truthy raw)"
proof (cases "\<not> truthy raw \<or> (\<exists>x. has_key ''vlm_rules'' raw = Inr x)")
  case True
  with assms have "coerce rep app_config (PDict (mapping_of raw)) = Inl e" by (simp add: from_yaml_eq)
  from coerce_raises(1) [OF this] show ?thesis by (cases raw) (simp_all add: mapping_of_def)
next
  case False
  then have "is_dict raw = False" using has_key_raises by (cases raw) auto
  moreover have "coerce rep app_config (PDict []) = Inr default_config"
    by (simp add: app_config_eq default_config_def)
  ultimately have "has_key ''vlm_rules'' raw = Inl e"
    using assms False by (auto simp: from_yaml_def Let_def split: sum.splits bool.splits)
  then show ?thesis using False by (cases raw) auto
qed

theorem loader_errors_witness:
  "from_yaml (\<lambda>_. '''') (Some (Inr (PDict [(''metrics'', PDict [(''port'', PFloat Pos_Inf)])]))) = Inl overflow \<and>
   \<not> tame (PDict [(''metrics'', PDict [(''port'', PFloat Pos_Inf)])])"
proof -
  let ?raw = "PDict [(''metrics'', PDict [(''port'', PFloat Pos_Inf)])]"
  have "from_yaml (\<lambda>_. '''') (Some (Inr ?raw)) = Inl overflow"
    by (simp add: from_yaml_eq mapping_of_def app_config_def metrics_config_def coerce_scalar.simps)
  with loader_errors [OF this] show ?thesis by (simp add: overflow_def)
qed

text \<open>
  Claim C27. A configuration whose values have their declared types is read back as it is from the
  YAML of its fields.
\<close>

theorem config_round_trip:
  assumes "strict app_config cfg"
  shows "from_yaml rep (Some (Inr (dump cfg))) = Inr cfg"
proof -
  from assms obtain vs where d: "dump cfg = PDict (map (\<lambda>(k, v). (k, dump v)) vs)"
    unfolding app_config_eq by (rule strict_class_dict)
  then have "from_yaml rep (Some (Inr (dump cfg))) = coerce rep app_config (dump cfg)"
    by (simp add: from_yaml_eq mapping_of_def)
  also have "\<dots> = Inr cfg" using assms by (rule coerce_dump)
  finally show ?thesis .
qed

theorem config_round_trip_witness:
  "from_yaml (\<lambda>_. '''') (Some (Inr (dump default_config))) = Inr default_config"
  by (rule config_round_trip) (simp add: default_config_def schema_defs)

text \<open>
  Three ways in which a file slips past the error that the server reports: an empty
  section raises an \<open>AttributeError\<close>, a port that is a word a \<open>TypeError\<close>, and the text "false"
  switches TLS on.
\<close>

theorem config_file_surprises:
  "(\<exists>cfg. from_yaml rep (Some (Inr (PDict [(''central'', PNone)]))) = Inr cfg \<and>
      validate rep ex cfg = Inl (Attribute_Error ''port'')) \<and>
   (\<exists>cfg. from_yaml rep (Some (Inr (PDict [(''metrics'', PDict [(''port'', PStr ''abc'')])]))) = Inr cfg \<and>
      validate rep ex cfg = Inl (Type_Error ''not supported between instances'')) \<and>
   (\<exists>cfg. from_yaml rep (Some (Inr (PDict [(''tls'', PDict [(''enabled'', PStr ''false'')])]))) = Inr cfg \<and>
      attr2 ''tls'' ''enabled'' cfg = Inr (PBool True))"
proof (intro conjI)
  show "\<exists>cfg. from_yaml rep (Some (Inr (PDict [(''central'', PNone)]))) = Inr cfg \<and>
      validate rep ex cfg = Inl (Attribute_Error ''port'')"
    by (simp add: from_yaml_eq mapping_of_def schema_defs coerce_scalar.simps validate_def reads_def attr2_def)
  show "\<exists>cfg. from_yaml rep (Some (Inr (PDict [(''metrics'', PDict [(''port'', PStr ''abc'')])]))) = Inr cfg \<and>
      validate rep ex cfg = Inl (Type_Error ''not supported between instances'')"
    by (simp add: from_yaml_eq mapping_of_def schema_defs coerce_scalar.simps py_int_not_word
        validate_def reads_def attr2_def check_port_def check_def between_def reject_if_def less_eq_pyfloat.simps)
  show "\<exists>cfg. from_yaml rep (Some (Inr (PDict [(''tls'', PDict [(''enabled'', PStr ''false'')])]))) = Inr cfg \<and>
      attr2 ''tls'' ''enabled'' cfg = Inr (PBool True)"
    by (simp add: from_yaml_eq mapping_of_def schema_defs coerce_scalar.simps attr2_def)
qed

end
