(* ===== verification/Live_Walk.thy ===== *)
theory Live_Walk
  imports Prelude
begin

text \<open>
  Python's \<open>for\<close> loops over a container that the body may change. The container is read off
  the state by \<open>live\<close>; \<open>call\<close> is the effect of the body on one element, under the
  \<open>try/except Exception\<close> that the event bus, the configuration watcher and the plugin
  manager put around it. Such a loop need not end, and is a partial function; when the body
  leaves the container alone it ends, having treated every element once (\<open>walks_behave\<close>).
\<close>

subsection \<open>Lists of handlers\<close>

text \<open>\<open>d.get(key, [])\<close> on a dictionary of lists.\<close>

definition handlers_of :: "('k, 'h list) pydict \<Rightarrow> 'k \<Rightarrow> 'h list" where
  "handlers_of d typ = (case map_of d typ of None \<Rightarrow> [] | Some hs \<Rightarrow> hs)"

lemma handlers_of_update [simp]:
  "handlers_of (AList.update t hs d) t' = (if t' = t then hs else handlers_of d t')"
  by (simp add: handlers_of_def)

subsection \<open>The loops\<close>

text \<open>
  The \<open>for\<close> loop over a live list reads the element at the loop's position until the position
  has reached the end. \<open>except Exception\<close> swallows what a handler raises, except a
  cancellation, which only an awaited handler can meet.
\<close>

partial_function (option) walk_list ::
    "('s \<Rightarrow> 'h list) \<Rightarrow> ('h \<Rightarrow> 's \<Rightarrow> (exn + unit) \<times> 's)
       \<Rightarrow> nat \<Rightarrow> 's \<Rightarrow> ((exn + unit) \<times> 's) option" where
  "walk_list live call i b =
     (if i < length (live b)
      then case call (live b ! i) b of
          (Inl e, b1) \<Rightarrow>
            if is_exception e then walk_list live call (Suc i) b1 else Some (Inl e, b1)
        | (Inr _, b1) \<Rightarrow> walk_list live call (Suc i) b1
      else Some (Inr (), b))"

text \<open>The walk over a set compares the set's size with the one at the start before each step.\<close>

partial_function (option) walk_set ::
    "exn \<Rightarrow> nat \<Rightarrow> ('s \<Rightarrow> 'h list)
       \<Rightarrow> ('h \<Rightarrow> 's \<Rightarrow> (exn + unit) \<times> 's)
       \<Rightarrow> nat \<Rightarrow> 's \<Rightarrow> ((exn + unit) \<times> 's) option" where
  "walk_set changed size0 live call i b =
     (if length (live b) \<noteq> size0 then Some (Inl changed, b)
      else if i < size0
      then case call (live b ! i) b of
          (Inl e, b1) \<Rightarrow>
            if is_exception e then walk_set changed size0 live call (Suc i) b1 else Some (Inl e, b1)
        | (Inr _, b1) \<Rightarrow> walk_set changed size0 live call (Suc i) b1
      else Some (Inr (), b))"

fun and_then ::
    "((exn + unit) \<times> 's) option \<Rightarrow> ('s \<Rightarrow> ((exn + unit) \<times> 's) option) \<Rightarrow> ((exn + unit) \<times> 's) option" where
  "and_then None k = None"
| "and_then (Some (Inl e, s)) k = Some (Inl e, s)"
| "and_then (Some (Inr _, s)) k = k s"

subsection \<open>Lemmas on the walks\<close>

definition swallow :: "('h \<Rightarrow> 's \<Rightarrow> (exn + unit) \<times> 's) \<Rightarrow> 's \<Rightarrow> 'h \<Rightarrow> 's" where
  "swallow call s h = snd (call h s)"

text \<open>
  A handler is well behaved for a walk when it leaves the list under walk alone and raises at
  most exceptions that are caught.
\<close>

definition behaves :: "('s \<Rightarrow> 'h list) \<Rightarrow> ('h \<Rightarrow> 's \<Rightarrow> (exn + unit) \<times> 's) \<Rightarrow> bool" where
  "behaves live call \<longleftrightarrow> (\<forall>h s. live (snd (call h s)) = live s \<and>
     (\<forall>e. fst (call h s) = Inl e \<longrightarrow> is_exception e))"

lemma behavesD:
  assumes "behaves live call"
  shows "live (snd (call h s)) = live s" "fst (call h s) = Inl e \<Longrightarrow> is_exception e"
  using assms by (auto simp: behaves_def)

lemma walk_list_behaves:
  assumes "behaves live call" and "i \<le> length (live b)"
  shows "walk_list live call i b = Some (Inr (), foldl (swallow call) b (drop i (live b)))"
  using assms(2)
proof (induction "length (live b) - i" arbitrary: i b)
  case 0
  then show ?case by (subst walk_list.simps) simp
next
  case (Suc n)
  then have i: "i < length (live b)" by simp
  let ?b1 = "snd (call (live b ! i) b)"
  note same = behavesD(1) [OF assms(1)]
  have "walk_list live call i b = walk_list live call (Suc i) ?b1"
    using i behavesD(2) [OF assms(1), of "live b ! i" b]
    by (subst walk_list.simps) (auto split: prod.splits sum.splits)
  moreover have "walk_list live call (Suc i) ?b1 =
      Some (Inr (), foldl (swallow call) ?b1 (drop (Suc i) (live b)))"
    using Suc.hyps(1) [of ?b1 "Suc i"] Suc.hyps(2) i by (simp add: same)
  moreover have "drop i (live b) = live b ! i # drop (Suc i) (live b)"
    using i by (simp add: Cons_nth_drop_Suc)
  ultimately show ?case by (simp add: swallow_def)
qed

lemma walk_set_behaves:
  assumes "behaves live call" and "i \<le> length (live b)" and "n = length (live b)"
  shows "walk_set changed n live call i b = Some (Inr (), foldl (swallow call) b (drop i (live b)))"
  using assms(2,3)
proof (induction "length (live b) - i" arbitrary: i b)
  case 0
  then show ?case by (subst walk_set.simps) simp
next
  case (Suc m)
  then have i: "i < length (live b)" by simp
  let ?b1 = "snd (call (live b ! i) b)"
  note same = behavesD(1) [OF assms(1)]
  have "walk_set changed n live call i b = walk_set changed n live call (Suc i) ?b1"
    using i Suc.prems(2) behavesD(2) [OF assms(1), of "live b ! i" b]
    by (subst walk_set.simps) (auto split: prod.splits sum.splits)
  moreover have "walk_set changed n live call (Suc i) ?b1 =
      Some (Inr (), foldl (swallow call) ?b1 (drop (Suc i) (live b)))"
    using Suc.hyps(1) [of ?b1 "Suc i"] Suc.hyps(2) i Suc.prems(2) by (simp add: same)
  moreover have "drop i (live b) = live b ! i # drop (Suc i) (live b)"
    using i by (simp add: Cons_nth_drop_Suc)
  ultimately show ?case by (simp add: swallow_def)
qed

lemmas walks_behave = walk_list_behaves [where i = 0, simplified]
  walk_set_behaves [where i = 0, OF _ _ refl, simplified]

lemma foldl_keeps: "(\<And>s h. f (g s h) = f s) \<Longrightarrow> f (foldl g s hs) = f s"
  by (induction hs arbitrary: s) auto

lemma swallow_keeps: "behaves live call \<Longrightarrow> live (foldl (swallow call) b hs) = live b"
  by (rule foldl_keeps) (simp add: swallow_def behavesD)


subsection \<open>Termination of the walks\<close>

text \<open>
  A walk over a list returns when the bodies keep the list below some length, and never does when
  every body makes it longer. The walk over a set always returns.
\<close>

lemma walk_list_returns:
  assumes step: "\<And>h s. P s \<Longrightarrow> P (snd (call h s))"
    and bound: "\<And>s. P s \<Longrightarrow> length (live s) \<le> n"
    and "P b"
  shows "\<exists>r s. walk_list live call i b = Some (r, s) \<and> P s"
  using assms(3)
proof (induction "n - i" arbitrary: i b)
  case 0
  then have "\<not> i < length (live b)" using bound [of b] by simp
  then show ?case using 0 by (subst walk_list.simps) simp
next
  case (Suc m)
  let ?c = "call (live b ! i) b"
  have next_one: "\<exists>r s. walk_list live call (Suc i) (snd ?c) = Some (r, s) \<and> P s"
    using Suc.hyps Suc.prems step by simp
  show ?case
    using next_one Suc.prems step [OF Suc.prems, of "live b ! i"]
    by (subst walk_list.simps) (auto split: prod.splits sum.splits)
qed

lemma walk_set_returns:
  assumes step: "\<And>h s. P s \<Longrightarrow> P (snd (call h s))" and "P b"
  shows "\<exists>r s. walk_set changed n live call i b = Some (r, s) \<and> P s"
  using assms(2)
proof (induction "n - i" arbitrary: i b)
  case 0
  then show ?case by (subst walk_set.simps) simp
next
  case (Suc m)
  let ?c = "call (live b ! i) b"
  have next_one: "\<exists>r s. walk_set changed n live call (Suc i) (snd ?c) = Some (r, s) \<and> P s"
    using Suc.hyps Suc.prems step by simp
  show ?case
    using next_one Suc.prems step [OF Suc.prems, of "live b ! i"]
    by (subst walk_set.simps) (auto split: prod.splits sum.splits)
qed

lemma and_then_returns:
  assumes "\<exists>r s. p = Some (r, s) \<and> P s" and "\<And>s. P s \<Longrightarrow> \<exists>r s1. k s = Some (r, s1) \<and> P s1"
  shows "\<exists>r s. and_then p k = Some (r, s) \<and> P s"
proof -
  obtain r s where p: "p = Some (r, s)" "P s" using assms(1) by blast
  then show ?thesis using assms(2) [of s] by (cases r) simp_all
qed

definition grows :: "('s \<Rightarrow> 'h list) \<Rightarrow> ('h \<Rightarrow> 's \<Rightarrow> (exn + unit) \<times> 's) \<Rightarrow> bool" where
  "grows live call \<longleftrightarrow> (\<forall>h s. length (live s) < length (live (snd (call h s))) \<and>
     (\<forall>e. fst (call h s) = Inl e \<longrightarrow> is_exception e))"

lemma walk_list_diverges:
  assumes "grows live call" and "i < length (live b)"
  shows "walk_list live call i b = None"
proof -
  have "\<not> (grows live call \<and> i < length (live b))" if "walk_list live call i b = Some y" for y
    using that
  proof (induction rule: walk_list.raw_induct [rotated 1, consumes 1, case_names step])
    case (step walk live call i b y)
    show ?case
    proof
      assume *: "grows live call \<and> i < length (live b)"
      let ?c = "call (live b ! i) b"
      have "length (live b) < length (live (snd ?c))" "\<forall>e. fst ?c = Inl e \<longrightarrow> is_exception e"
        using * by (auto simp: grows_def)
      moreover have "walk live call (Suc i) (snd ?c) = Some y"
        using step(2) * calculation(2) by (auto split: prod.splits sum.splits if_splits)
      then have "\<not> (grows live call \<and> Suc i < length (live (snd ?c)))" by (rule step(1))
      ultimately show False using * by simp
    qed
  qed
  then show ?thesis using assms by (metis not_None_eq)
qed

end
