(* ===== verification/Config_Watcher.thy ===== *)
theory Config_Watcher
  imports Live_Walk
begin

text \<open>
  The configuration watcher of \<open>core/hot_reload.py\<close>. Parameters of the model: \<open>files\<close>, what
  a read of a path gives at the moment of a check; \<open>md5\<close> and \<open>abspath\<close> of Python's library;
  and \<open>call\<close>, \<open>call_async\<close>, the effect of a callback (a number) on the watcher and the rest
  of the world. The time of a check is \<open>now\<close>. The string of \<open>Path(p)\<close> is \<open>p\<close> for the
  normalised paths that \<open>abspath\<close> returns.
\<close>

subsection \<open>State\<close>

datatype file_read = Content string | File_Not_Found | Unreadable

record config_change =
  chg_path :: string
  old_hash :: string
  new_hash :: string
  chg_timestamp :: real

definition is_modified :: "config_change \<Rightarrow> bool" where
  "is_modified c \<longleftrightarrow> old_hash c \<noteq> new_hash c"

record watcher =
  debounce_seconds :: real
  poll_interval :: real
  watched_files :: "(string, string) pydict"
  callbacks :: "(string, nat list) pydict"
  async_callbacks :: "(string, nat list) pydict"
  global_callbacks :: "nat list"
  global_async_callbacks :: "nat list"
  pending_changes :: "(string, real) pydict"
  running :: bool
  has_task :: bool

definition new_watcher :: "real \<Rightarrow> real \<Rightarrow> watcher" where
  "new_watcher debounce poll = \<lparr>debounce_seconds = debounce, poll_interval = poll,
     watched_files = [], callbacks = [], async_callbacks = [], global_callbacks = [],
     global_async_callbacks = [], pending_changes = [], running = False, has_task = False\<rparr>"

type_synonym 'w callback = "nat \<Rightarrow> string \<Rightarrow> config_change \<Rightarrow> 'w watcher_scheme \<Rightarrow> (exn + unit) \<times> 'w watcher_scheme"

definition compute_hash :: "(string \<Rightarrow> string) \<Rightarrow> (string \<Rightarrow> file_read) \<Rightarrow> string \<Rightarrow> string" where
  "compute_hash md5 files path =
     (case files path of Content c \<Rightarrow> md5 c | File_Not_Found \<Rightarrow> '''' | Unreadable \<Rightarrow> '''')"

subsection \<open>Registering\<close>

definition append_to ::
    "(string, nat list) pydict \<Rightarrow> string \<Rightarrow> nat option \<Rightarrow> exn + (string, nat list) pydict" where
  "append_to d path cb =
     (case cb of
        None \<Rightarrow> Inr d
      | Some h \<Rightarrow> (case map_of d path of
            None \<Rightarrow> Inl (Key_Error path)
          | Some hs \<Rightarrow> Inr (AList.update path (hs @ [h]) d)))"

definition watch ::
    "(string \<Rightarrow> string) \<Rightarrow> (string \<Rightarrow> string) \<Rightarrow> (string \<Rightarrow> file_read) \<Rightarrow> 'w watcher_scheme
       \<Rightarrow> string \<Rightarrow> nat option \<Rightarrow> nat option \<Rightarrow> (exn + unit) \<times> 'w watcher_scheme" where
  "watch abspath md5 files w path0 cb acb =
     (let path = abspath path0;
          w1 = (if map_of (watched_files w) path = None
                then w\<lparr>watched_files := AList.update path (compute_hash md5 files path) (watched_files w),
                       callbacks := AList.update path [] (callbacks w),
                       async_callbacks := AList.update path [] (async_callbacks w)\<rparr>
                else w)
      in case append_to (callbacks w1) path cb of
          Inl e \<Rightarrow> (Inl e, w1)
        | Inr c \<Rightarrow> (let w2 = w1\<lparr>callbacks := c\<rparr>
            in case append_to (async_callbacks w2) path acb of
                Inl e \<Rightarrow> (Inl e, w2)
              | Inr a \<Rightarrow> (Inr (), w2\<lparr>async_callbacks := a\<rparr>)))"

definition drop_callback ::
    "(string, nat list) pydict \<Rightarrow> string \<Rightarrow> nat option \<Rightarrow> (string, nat list) pydict" where
  "drop_callback d path cb =
     (case cb of
        None \<Rightarrow> d
      | Some h \<Rightarrow> if h \<in> set (handlers_of d path)
                  then AList.update path (remove1 h (handlers_of d path)) d else d)"

text \<open>The function \<open>watch\<close> returns; \<open>path\<close> is already absolute.\<close>

definition unwatch :: "'w watcher_scheme \<Rightarrow> string \<Rightarrow> nat option \<Rightarrow> nat option \<Rightarrow> 'w watcher_scheme" where
  "unwatch w path cb acb =
     (let w1 = w\<lparr>callbacks := drop_callback (callbacks w) path cb,
                 async_callbacks := drop_callback (async_callbacks w) path acb\<rparr>
      in if handlers_of (callbacks w1) path = [] \<and> handlers_of (async_callbacks w1) path = []
         then w1\<lparr>watched_files := AList.delete path (watched_files w1),
                 callbacks := AList.delete path (callbacks w1),
                 async_callbacks := AList.delete path (async_callbacks w1)\<rparr>
         else w1)"

definition on_any_change :: "'w watcher_scheme \<Rightarrow> nat option \<Rightarrow> nat option \<Rightarrow> 'w watcher_scheme" where
  "on_any_change w cb acb =
     w\<lparr>global_callbacks := global_callbacks w @ (case cb of None \<Rightarrow> [] | Some h \<Rightarrow> [h]),
       global_async_callbacks := global_async_callbacks w @ (case acb of None \<Rightarrow> [] | Some h \<Rightarrow> [h])\<rparr>"

text \<open>The function it returns removes each registered callback from both lists.\<close>

definition unregister_global :: "'w watcher_scheme \<Rightarrow> nat \<Rightarrow> 'w watcher_scheme" where
  "unregister_global w h =
     w\<lparr>global_callbacks := remove1 h (global_callbacks w),
       global_async_callbacks := remove1 h (global_async_callbacks w)\<rparr>"

definition unregister :: "'w watcher_scheme \<Rightarrow> nat option \<Rightarrow> nat option \<Rightarrow> 'w watcher_scheme" where
  "unregister w cb acb =
     foldl unregister_global w
       ((case cb of None \<Rightarrow> [] | Some h \<Rightarrow> [h]) @ (case acb of None \<Rightarrow> [] | Some h \<Rightarrow> [h]))"

definition start :: "'w watcher_scheme \<Rightarrow> 'w watcher_scheme" where
  "start w = (if running w then w else w\<lparr>running := True, has_task := True\<rparr>)"

definition stop :: "'w watcher_scheme \<Rightarrow> 'w watcher_scheme" where
  "stop w = w\<lparr>running := False, has_task := False\<rparr>"

subsection \<open>Detecting changes\<close>

definition handle_change ::
    "'w callback \<Rightarrow> 'w callback \<Rightarrow> string \<Rightarrow> config_change \<Rightarrow> 'w watcher_scheme
       \<Rightarrow> ((exn + unit) \<times> 'w watcher_scheme) option" where
  "handle_change call call_async path chg w =
     and_then (walk_list (\<lambda>s. handlers_of (callbacks s) path) (\<lambda>h. call h path chg) 0 w) (\<lambda>w1.
     and_then (walk_list (\<lambda>s. handlers_of (async_callbacks s) path)
         (\<lambda>h. call_async h path chg) 0 w1) (\<lambda>w2.
     and_then (walk_list global_callbacks (\<lambda>h. call h path chg) 0 w2) (\<lambda>w3.
     walk_list global_async_callbacks (\<lambda>h. call_async h path chg) 0 w3)))"

definition check_path ::
    "(string \<Rightarrow> string) \<Rightarrow> (string \<Rightarrow> file_read) \<Rightarrow> 'w callback \<Rightarrow> 'w callback \<Rightarrow> real \<Rightarrow> string
       \<Rightarrow> 'w watcher_scheme \<Rightarrow> ((exn + unit) \<times> 'w watcher_scheme) option" where
  "check_path md5 files call call_async now path w =
     (case map_of (watched_files w) path of
        None \<Rightarrow> Some (Inl (Key_Error path), w)
      | Some old \<Rightarrow>
          let new = compute_hash md5 files path
          in if new = old then Some (Inr (), w)
             else
               let w1 = (if map_of (pending_changes w) path = None
                         then w\<lparr>pending_changes := AList.update path now (pending_changes w)\<rparr>
                         else w);
                   first = the (map_of (pending_changes w1) path);
                   chg = \<lparr>chg_path = path, old_hash = old, new_hash = new, chg_timestamp = now\<rparr>
               in if now - first < debounce_seconds w1 then Some (Inr (), w1)
                  else and_then (handle_change call call_async path chg w1) (\<lambda>w2.
                    let w3 = w2\<lparr>watched_files := AList.update path new (watched_files w2)\<rparr>
                    in if map_of (pending_changes w3) path = None
                       then Some (Inl (Key_Error path), w3)
                       else Some (Inr (), w3\<lparr>pending_changes :=
                              AList.delete path (pending_changes w3)\<rparr>)))"

fun check_paths ::
    "(string \<Rightarrow> string) \<Rightarrow> (string \<Rightarrow> file_read) \<Rightarrow> 'w callback \<Rightarrow> 'w callback \<Rightarrow> real \<Rightarrow> string list
       \<Rightarrow> 'w watcher_scheme \<Rightarrow> ((exn + unit) \<times> 'w watcher_scheme) option" where
  "check_paths md5 files call call_async now [] w = Some (Inr (), w)"
| "check_paths md5 files call call_async now (p # ps) w =
     and_then (check_path md5 files call call_async now p w)
       (check_paths md5 files call call_async now ps)"

definition check_changes ::
    "(string \<Rightarrow> string) \<Rightarrow> (string \<Rightarrow> file_read) \<Rightarrow> 'w callback \<Rightarrow> 'w callback \<Rightarrow> real
       \<Rightarrow> 'w watcher_scheme \<Rightarrow> ((exn + unit) \<times> 'w watcher_scheme) option" where
  "check_changes md5 files call call_async now w =
     check_paths md5 files call call_async now (map fst (watched_files w)) w"

text \<open>
  The loop of the task: one round for each time it wakes up, with the files as they are then,
  as long as \<open>running\<close> is set. An exception is logged; a cancellation ends the loop.
\<close>

fun watch_loop ::
    "(string \<Rightarrow> string) \<Rightarrow> 'w callback \<Rightarrow> 'w callback \<Rightarrow> (real \<times> (string \<Rightarrow> file_read)) list
       \<Rightarrow> 'w watcher_scheme \<Rightarrow> 'w watcher_scheme option" where
  "watch_loop md5 call call_async [] w = Some w"
| "watch_loop md5 call call_async ((now, files) # ticks) w =
     (if \<not> running w then Some w
      else case check_changes md5 files call call_async now w of
          None \<Rightarrow> None
        | Some (r, w1) \<Rightarrow>
            if r = Inl Cancelled_Error then Some w1 else watch_loop md5 call call_async ticks w1)"

definition force_reload ::
    "(string \<Rightarrow> string) \<Rightarrow> (string \<Rightarrow> string) \<Rightarrow> (string \<Rightarrow> file_read) \<Rightarrow> 'w callback \<Rightarrow> real
       \<Rightarrow> 'w watcher_scheme \<Rightarrow> string \<Rightarrow> ((exn + config_change option) \<times> 'w watcher_scheme) option" where
  "force_reload abspath md5 files call now w path0 =
     (let path = abspath path0
      in case map_of (watched_files w) path of
          None \<Rightarrow> Some (Inr None, w)
        | Some old \<Rightarrow>
            let new = compute_hash md5 files path;
                chg = \<lparr>chg_path = path, old_hash = old, new_hash = new, chg_timestamp = now\<rparr>;
                w1 = w\<lparr>watched_files := AList.update path new (watched_files w)\<rparr>
            in case and_then (walk_list (\<lambda>s. handlers_of (callbacks s) path) (\<lambda>h. call h path chg) 0 w1)
                      (walk_list global_callbacks (\<lambda>h. call h path chg) 0) of
                None \<Rightarrow> None
              | Some (Inl e, w2) \<Rightarrow> Some (Inl e, w2)
              | Some (Inr _, w2) \<Rightarrow> Some (Inr (Some chg), w2))"

text \<open>The global instance.\<close>

definition get_config_watcher :: "watcher option \<Rightarrow> watcher \<times> watcher option" where
  "get_config_watcher g = (let w = (case g of None \<Rightarrow> new_watcher 1 5 | Some w \<Rightarrow> w) in (w, Some w))"

subsection \<open>Lemmas\<close>

text \<open>Callbacks that leave the watcher itself alone and are not cancelled.\<close>

definition watcher_part :: "'w watcher_scheme \<Rightarrow> watcher" where
  "watcher_part w = watcher.truncate w"

definition quiet_callback :: "'w callback \<Rightarrow> bool" where
  "quiet_callback call \<longleftrightarrow> (\<forall>h p c w. watcher_part (snd (call h p c w)) = watcher_part w \<and>
     (\<forall>e. fst (call h p c w) = Inl e \<longrightarrow> is_exception e))"

lemma watcher_part_eq:
  assumes "watcher_part a = watcher_part b"
  shows "callbacks a = callbacks b" "async_callbacks a = async_callbacks b"
    "global_callbacks a = global_callbacks b" "global_async_callbacks a = global_async_callbacks b"
    "watched_files a = watched_files b" "pending_changes a = pending_changes b"
    "debounce_seconds a = debounce_seconds b"
  using assms by (simp_all add: watcher_part_def watcher.truncate_def)

lemma quiet_callback_behaves:
  assumes "quiet_callback call"
  shows "behaves (\<lambda>w. f (watcher_part w)) (\<lambda>h. call h p c)"
  using assms by (simp add: quiet_callback_def behaves_def)

lemma part_fields:
  "callbacks w = callbacks (watcher_part w)" "async_callbacks w = async_callbacks (watcher_part w)"
  "global_callbacks w = global_callbacks (watcher_part w)"
  "global_async_callbacks w = global_async_callbacks (watcher_part w)"
  by (simp_all add: watcher_part_def watcher.truncate_def)

lemma quiet_part:
  "quiet_callback call \<Longrightarrow> watcher_part (foldl (swallow (\<lambda>h. call h p c)) w hs) = watcher_part w"
  by (rule foldl_keeps) (simp add: quiet_callback_def swallow_def)

lemma quiet_walks:
  assumes "quiet_callback call"
  shows "walk_list (\<lambda>s. handlers_of (callbacks s) t) (\<lambda>h. call h p c) 0 w =
      Some (Inr (), foldl (swallow (\<lambda>h. call h p c)) w (handlers_of (callbacks w) t))"
    "walk_list (\<lambda>s. handlers_of (async_callbacks s) t) (\<lambda>h. call h p c) 0 w =
      Some (Inr (), foldl (swallow (\<lambda>h. call h p c)) w (handlers_of (async_callbacks w) t))"
    "walk_list global_callbacks (\<lambda>h. call h p c) 0 w =
      Some (Inr (), foldl (swallow (\<lambda>h. call h p c)) w (global_callbacks w))"
    "walk_list global_async_callbacks (\<lambda>h. call h p c) 0 w =
      Some (Inr (), foldl (swallow (\<lambda>h. call h p c)) w (global_async_callbacks w))"
  using quiet_callback_behaves [OF assms, where p = p and c = c]
    quiet_callback_behaves [OF assms, of global_callbacks p c]
    quiet_callback_behaves [OF assms, of global_async_callbacks p c]
    quiet_callback_behaves [OF assms, of "\<lambda>s. handlers_of (callbacks s) t" p c]
    quiet_callback_behaves [OF assms, of "\<lambda>s. handlers_of (async_callbacks s) t" p c]
  by (simp_all only: part_fields [symmetric] walks_behave)

text \<open>What a round of callbacks does to the world.\<close>

definition notify_all ::
    "'w callback \<Rightarrow> 'w callback \<Rightarrow> string \<Rightarrow> config_change \<Rightarrow> 'w watcher_scheme \<Rightarrow> 'w watcher_scheme" where
  "notify_all call call_async p c w =
     foldl (swallow (\<lambda>h. call_async h p c))
       (foldl (swallow (\<lambda>h. call h p c))
         (foldl (swallow (\<lambda>h. call_async h p c))
           (foldl (swallow (\<lambda>h. call h p c)) w (handlers_of (callbacks w) p))
           (handlers_of (async_callbacks w) p))
         (global_callbacks w))
       (global_async_callbacks w)"

lemma notify_all_part:
  "quiet_callback call \<Longrightarrow> quiet_callback call_async \<Longrightarrow>
   watcher_part (notify_all call call_async p c w) = watcher_part w"
  by (simp add: notify_all_def quiet_part)

lemma handle_change_quiet:
  assumes "quiet_callback call" and "quiet_callback call_async"
  shows "handle_change call call_async p c w = Some (Inr (), notify_all call call_async p c w)"
proof -
  note parts = watcher_part_eq [OF quiet_part [OF assms(1)]] watcher_part_eq [OF quiet_part [OF assms(2)]]
  show ?thesis
    by (simp add: handle_change_def notify_all_def quiet_walks [OF assms(1)] quiet_walks [OF assms(2)] parts)
qed



text \<open>One check of the only watched file, when its contents differ from the recorded ones.\<close>

lemma check_same:
  assumes "watched_files w = [(p, compute_hash md5 files p)]"
  shows "check_changes md5 files call call_async now w = Some (Inr (), w)"
  using assms by (simp add: check_changes_def check_path_def Let_def)

lemma check_too_early:
  assumes "watched_files w = [(p, old)]" and "compute_hash md5 files p \<noteq> old"
    and "pending_changes w = [] \<or> pending_changes w = [(p, t0)]"
    and "now - t0 < debounce_seconds w" and "pending_changes w = [] \<Longrightarrow> now = t0"
  shows "check_changes md5 files call call_async now w = Some (Inr (), w\<lparr>pending_changes := [(p, t0)]\<rparr>)"
  using assms by (auto simp: check_changes_def check_path_def Let_def)

lemma check_fires:
  assumes "watched_files w = [(p, old)]" and "compute_hash md5 files p \<noteq> old"
    and "pending_changes w = [(p, t0)]" and "debounce_seconds w \<le> now - t0"
    and q: "quiet_callback call" "quiet_callback call_async"
    and c: "c = \<lparr>chg_path = p, old_hash = old, new_hash = compute_hash md5 files p, chg_timestamp = now\<rparr>"
  shows "check_changes md5 files call call_async now w = Some (Inr (),
    (notify_all call call_async p c w)\<lparr>watched_files := [(p, compute_hash md5 files p)],
                                        pending_changes := []\<rparr>)"
proof -
  have "watched_files (notify_all call call_async p c w) = [(p, old)]"
    "pending_changes (notify_all call call_async p c w) = [(p, t0)]"
    using watcher_part_eq(5,6) [OF notify_all_part [OF q]] assms(1,3) by simp_all
  then show ?thesis
    using assms(1-4) by (simp add: check_changes_def check_path_def Let_def handle_change_quiet [OF q] c)
qed

lemma early_loop:
  assumes "watched_files w = [(p, old)]" and "compute_hash md5 files p \<noteq> old"
    and "pending_changes w = [(p, t0)]" and "running w"
    and "\<forall>t \<in> set ts. t - t0 < debounce_seconds w"
  shows "watch_loop md5 call call_async (map (\<lambda>t. (t, files)) ts) w = Some w"
  using assms(5)
proof (induction ts)
  case (Cons t ts)
  have "check_changes md5 files call call_async t w = Some (Inr (), w\<lparr>pending_changes := [(p, t0)]\<rparr>)"
    using assms Cons.prems by (intro check_too_early) auto
  moreover have "w\<lparr>pending_changes := [(p, t0)]\<rparr> = w" using assms(3) by (cases w) simp
  ultimately show ?case using Cons assms(4) by simp
qed simp

lemma watch_loop_append:
  "watch_loop md5 call call_async xs w = Some w1 \<Longrightarrow> running w \<Longrightarrow>
   (\<And>t f u. (t, f) \<in> set xs \<Longrightarrow> check_changes md5 f call call_async t w = Some (Inr (), w)) \<Longrightarrow>
   watch_loop md5 call call_async (xs @ ys) w = watch_loop md5 call call_async ys w"
  by (induction xs) auto

subsection \<open>Properties\<close>

text \<open>
  Claim C22. Debouncing: when a watched file changes once, the checks that follow within
  \<open>debounce_seconds\<close> of the first one that sees it call nothing; the first check after that
  calls every callback of the path and every global one once, in order, with the old and the
  new hash; and from then on the file counts as unchanged.
\<close>

theorem change_reported_once:
  assumes w: "watched_files w = [(p, old)]" "pending_changes w = []" "running w"
    and new: "new = compute_hash md5 files p" "new \<noteq> old"
    and q: "quiet_callback call" "quiet_callback call_async"
    and ts: "0 < debounce_seconds w" "\<forall>t \<in> set ts. t - t0 < debounce_seconds w"
    and fire: "debounce_seconds w \<le> t1 - t0"
    and w1: "w1 = w\<lparr>pending_changes := [(p, t0)]\<rparr>"
    and c: "c = \<lparr>chg_path = p, old_hash = old, new_hash = new, chg_timestamp = t1\<rparr>"
    and w2: "w2 = (notify_all call call_async p c w1)\<lparr>watched_files := [(p, new)], pending_changes := []\<rparr>"
  shows "watch_loop md5 call call_async (map (\<lambda>t. (t, files)) (t0 # ts)) w = Some w1 \<and>
    check_changes md5 files call call_async t1 w1 = Some (Inr (), w2) \<and>
    (\<forall>t. check_changes md5 files call call_async t w2 = Some (Inr (), w2))"
proof -
  have "check_changes md5 files call call_async t0 w = Some (Inr (), w1)"
    unfolding w1 using w new ts by (intro check_too_early) auto
  moreover have "watch_loop md5 call call_async (map (\<lambda>t. (t, files)) ts) w1 = Some w1"
    by (rule early_loop) (use w new ts in \<open>simp_all add: w1\<close>)
  moreover have "check_changes md5 files call call_async t1 w1 = Some (Inr (), w2)"
    unfolding w2 new(1) by (rule check_fires [OF _ _ _ _ q]) (use w new fire in \<open>simp_all add: w1 c\<close>)
  moreover have "check_changes md5 files call call_async t w2 = Some (Inr (), w2)" for t
    by (rule check_same [where p = p]) (simp add: w2 new(1))
  ultimately show ?thesis using w(3) by simp
qed


text \<open>A callback that counts its calls in the world outside the watcher.\<close>

definition counting :: "nat callback" where
  "counting h p c w = (Inr (), watcher.extend (watcher.truncate w) (Suc (watcher.more w)))"

definition config_file :: "string \<Rightarrow> string \<Rightarrow> file_read" where
  "config_file contents p = Content contents"

definition watching :: "nat \<Rightarrow> nat watcher_scheme" where
  "watching n = watcher.extend
     ((new_watcher 1 5)\<lparr>watched_files := [(''c'', ''old'')], callbacks := [(''c'', [1])],
        async_callbacks := [(''c'', [2])], running := True\<rparr>) n"

lemma counting_quiet: "quiet_callback counting"
  by (simp add: quiet_callback_def counting_def watcher_part_def watcher.defs)

theorem change_reported_once_witness:
  "\<exists>w2. check_changes id (config_file ''new'') counting counting 6
     ((watching 0)\<lparr>pending_changes := [(''c'', 5)]\<rparr>) = Some (Inr (), w2) \<and> watcher.more w2 = 2"
proof -
  have "watched_files (watching 0) = [(''c'', ''old'')]" "pending_changes (watching 0) = []"
    "running (watching 0)" "debounce_seconds (watching 0) = 1"
    by (simp_all add: watching_def watcher.defs new_watcher_def)
  moreover have "compute_hash id (config_file ''new'') ''c'' = ''new''"
    by (simp add: compute_hash_def config_file_def)
  ultimately have "check_changes id (config_file ''new'') counting counting 6
     ((watching 0)\<lparr>pending_changes := [(''c'', 5)]\<rparr>) = Some (Inr (),
       (notify_all counting counting ''c''
          \<lparr>chg_path = ''c'', old_hash = ''old'', new_hash = ''new'', chg_timestamp = 6\<rparr>
          ((watching 0)\<lparr>pending_changes := [(''c'', 5)]\<rparr>))
       \<lparr>watched_files := [(''c'', ''new'')], pending_changes := []\<rparr>)"
    using change_reported_once [of "watching 0" "''c''" "''old''" "''new''" id "config_file ''new''"
        counting counting "[]" 5 6] counting_quiet by simp
  then show ?thesis
    by (simp add: notify_all_def swallow_def counting_def watching_def watcher.defs new_watcher_def
        handlers_of_def)
qed


text \<open>
  \<open>force_reload\<close> of a watched file runs its synchronous callbacks and records the new
  hash, but no asynchronous callback is called, then or by any later check of the same contents:
  the asynchronous callbacks never hear of the change, although the documentation of
  \<open>force_reload\<close> says that it triggers all callbacks.
\<close>

theorem force_reload_skips_async:
  assumes w: "watched_files w = [(p, old)]" and p: "abspath p = p"
    and new: "new = compute_hash md5 files p"
    and q: "quiet_callback call"
    and c: "c = \<lparr>chg_path = p, old_hash = old, new_hash = new, chg_timestamp = t0\<rparr>"
    and w1: "w1 = foldl (swallow (\<lambda>h. call h p c)) (w\<lparr>watched_files := [(p, new)]\<rparr>)
      (handlers_of (callbacks w) p @ global_callbacks w)"
  shows "force_reload abspath md5 files call t0 w p = Some (Inr (Some c), w1) \<and>
    (\<forall>t call_async. check_changes md5 files call call_async t w1 = Some (Inr (), w1))"
proof -
  let ?w0 = "w\<lparr>watched_files := [(p, new)]\<rparr>"
  note part = watcher_part_eq [OF quiet_part [OF q]]
  have "watched_files w1 = [(p, new)]" unfolding w1 by (simp add: part)
  then have "check_changes md5 files call call_async t w1 = Some (Inr (), w1)" for t call_async
    unfolding new by (rule check_same)
  moreover have "force_reload abspath md5 files call t0 w p = Some (Inr (Some c), w1)"
    by (simp add: force_reload_def Let_def w p new [symmetric] c [symmetric] quiet_walks [OF q] w1 part)
  ultimately show ?thesis by blast
qed

theorem force_reload_skips_async_witness:
  "\<exists>c w1. force_reload id id (config_file ''new'') counting 9 (watching 0) ''c'' =
     Some (Inr (Some c), w1) \<and> watcher.more w1 = 1"
proof -
  have "watched_files (watching 0) = [(''c'', ''old'')]"
    by (simp add: watching_def watcher.defs new_watcher_def)
  from force_reload_skips_async [where abspath = id and ?md5.0 = id and ?t0.0 = 9
      and files = "config_file ''new''", OF this _ refl counting_quiet refl refl]
  show ?thesis
    by (simp add: swallow_def counting_def watching_def watcher.defs new_watcher_def handlers_of_def)
qed

text \<open>
  A change that is undone before the debounce time is over is not reported, but its
  time stays recorded; so the next change of the file, whenever it comes later, is reported by
  the first check that sees it, without any debouncing.
\<close>

theorem reverted_change_leaves_time:
  assumes w: "watched_files w = [(p, old)]" "pending_changes w = []" "0 < debounce_seconds w"
    and "compute_hash md5 changed p \<noteq> old" and "compute_hash md5 reverted p = old"
    and "compute_hash md5 later p \<noteq> old" and "t0 + debounce_seconds w \<le> t2"
    and q: "quiet_callback call" "quiet_callback call_async"
    and w1: "w1 = w\<lparr>pending_changes := [(p, t0)]\<rparr>"
    and c: "c = \<lparr>chg_path = p, old_hash = old, new_hash = compute_hash md5 later p, chg_timestamp = t2\<rparr>"
  shows "check_changes md5 changed call call_async t0 w = Some (Inr (), w1) \<and>
    check_changes md5 reverted call call_async t1 w1 = Some (Inr (), w1) \<and>
    check_changes md5 later call call_async t2 w1 = Some (Inr (),
      (notify_all call call_async p c w1)\<lparr>watched_files := [(p, compute_hash md5 later p)],
                                           pending_changes := []\<rparr>)"
proof -
  have "check_changes md5 changed call call_async t0 w = Some (Inr (), w1)"
    unfolding w1 using assms by (intro check_too_early) auto
  moreover have "check_changes md5 reverted call call_async t1 w1 = Some (Inr (), w1)"
    by (rule check_same [where p = p]) (simp add: w1 assms)
  moreover have "check_changes md5 later call call_async t2 w1 = Some (Inr (),
      (notify_all call call_async p c w1)\<lparr>watched_files := [(p, compute_hash md5 later p)],
                                           pending_changes := []\<rparr>)"
    using assms by (intro check_fires [OF _ _ _ _ q, where ?t0.0 = t0]) auto
  ultimately show ?thesis by blast
qed

theorem reverted_change_leaves_time_witness:
  "\<exists>w2. check_changes id (config_file ''b'') counting counting 60
     ((watching 0)\<lparr>pending_changes := [(''c'', 5)]\<rparr>) = Some (Inr (), w2)"
proof -
  have w: "watched_files (watching 0) = [(''c'', ''old'')]" "pending_changes (watching 0) = []"
    "0 < debounce_seconds (watching 0)" "5 + debounce_seconds (watching 0) \<le> 60"
    by (simp_all add: watching_def watcher.defs new_watcher_def)
  from reverted_change_leaves_time [where ?md5.0 = id and changed = "config_file ''a''"
      and reverted = "config_file ''old''" and later = "config_file ''b''" and ?t1.0 = 7,
      OF w(1-3) _ _ _ w(4) counting_quiet counting_quiet refl refl]
  show ?thesis by (simp add: compute_hash_def config_file_def)
qed

end
