(* ===== verification/Container.thy ===== *)
theory Container
  imports Config
begin

text \<open>
  The service container of \<open>core/container.py\<close>. A built service is the constructor call that
  made it: the class and its keyword arguments, which are values of the configuration, objects
  built for the call, or services held by the container (\<open>Shared name\<close> is the very object held
  under the name). What a constructor does is the parameter \<open>ctor\<close>, the exception it
  raises, if any; so is the directory made for the database.
\<close>

subsection \<open>Services\<close>

datatype obj =
    Val pyval
  | Shared string
  | New string "(string \<times> obj) list"
  | Objs "obj list"

type_synonym services = "(string, obj) pydict"

text \<open>
  A computation over the container: it may raise, and leaves the services built so far either
  way.
\<close>

type_synonym 'a build = "services \<Rightarrow> (exn + 'a) \<times> services"

definition ret :: "'a \<Rightarrow> 'a build" where
  "ret x c = (Inr x, c)"

definition lift :: "exn + 'a \<Rightarrow> 'a build" where
  "lift r c = (r, c)"

definition bind :: "'a build \<Rightarrow> ('a \<Rightarrow> 'b build) \<Rightarrow> 'b build" where
  "bind m f c = (case m c of (Inl e, c1) \<Rightarrow> (Inl e, c1) | (Inr x, c1) \<Rightarrow> f x c1)"

fun each :: "('a \<Rightarrow> exn + 'b) \<Rightarrow> 'a list \<Rightarrow> exn + 'b list" where
  "each f [] = Inr []"
| "each f (x # xs) =
     (case f x of Inl e \<Rightarrow> Inl e
      | Inr y \<Rightarrow> (case each f xs of Inl e \<Rightarrow> Inl e | Inr ys \<Rightarrow> Inr (y # ys)))"

text \<open>Keyword arguments read from one section of the configuration, \<open>(keyword, attribute)\<close> each.\<close>

definition from_section :: "pyval \<Rightarrow> string \<Rightarrow> (string \<times> string) list \<Rightarrow> exn + (string \<times> obj) list" where
  "from_section cfg section ks =
     each (\<lambda>(k, a). case attr2 section a cfg of Inl e \<Rightarrow> Inl e | Inr v \<Rightarrow> Inr (k, Val v)) ks"

text \<open>The constructor call of class \<open>cls\<close>.\<close>

type_synonym constructor = "string \<Rightarrow> (string \<times> obj) list \<Rightarrow> exn option"

definition make :: "constructor \<Rightarrow> string \<Rightarrow> (string \<times> obj) list \<Rightarrow> exn + obj" where
  "make ctor cls args = (case ctor cls args of Some e \<Rightarrow> Inl e | None \<Rightarrow> Inr (New cls args))"

text \<open>\<open>get\<close>, for a given builder: the service is built at its first use and kept; a builder may
  itself have built services on the way.\<close>

definition fetch :: "string \<Rightarrow> obj build \<Rightarrow> obj build" where
  "fetch name builder c =
     (case map_of c name of
        Some _ \<Rightarrow> (Inr (Shared name), c)
      | None \<Rightarrow> (case builder c of
            (Inl e, c1) \<Rightarrow> (Inl e, c1)
          | (Inr x, c1) \<Rightarrow> (Inr (Shared name), AList.update name x c1)))"

text \<open>A service that the configuration can switch off is \<open>None\<close> then.\<close>

definition if_enabled :: "pyval \<Rightarrow> string \<Rightarrow> obj build \<Rightarrow> obj build" where
  "if_enabled cfg section b =
     bind (lift (attr2 section ''enabled'' cfg)) (\<lambda>on. if truthy on then b else ret (Val PNone))"

definition build_section :: "constructor \<Rightarrow> pyval \<Rightarrow> string \<Rightarrow> string \<Rightarrow> (string \<times> string) list \<Rightarrow> obj build" where
  "build_section ctor cfg section cls ks =
     bind (lift (from_section cfg section ks)) (\<lambda>args. lift (make ctor cls args))"

definition same :: "string list \<Rightarrow> (string \<times> string) list" where
  "same ks = map (\<lambda>k. (k, k)) ks"

subsection \<open>Builders that need no other service\<close>

text \<open>\<open>Path(cfg.db_path)\<close> takes a text; \<open>mkdir\<close> is what making the directory raises.\<close>

definition build_store :: "constructor \<Rightarrow> (string \<Rightarrow> exn option) \<Rightarrow> pyval \<Rightarrow> obj build" where
  "build_store ctor mkdir cfg =
     bind (lift (attr2 ''storage'' ''db_path'' cfg)) (\<lambda>path.
       case path of
         PStr p \<Rightarrow> (case mkdir p of
             Some e \<Rightarrow> lift (Inl e)
           | None \<Rightarrow> bind (lift (attr2 ''storage'' ''retention_days'' cfg)) (\<lambda>days.
               lift (make ctor ''DetectionStore''
                 [(''db_path'', Val path), (''retention_days'', Val days)])))
       | _ \<Rightarrow> lift (Inl (Type_Error ''expected str'')))"

definition build_session_manager :: "constructor \<Rightarrow> pyval \<Rightarrow> obj build" where
  "build_session_manager ctor cfg =
     build_section ctor cfg ''sessions'' ''DeviceSessionManager'' (same [''max_devices'', ''expiry_timeout''])"

definition build_circuit_breaker :: "constructor \<Rightarrow> pyval \<Rightarrow> obj build" where
  "build_circuit_breaker ctor cfg =
     build_section ctor cfg ''circuit_breaker'' ''CircuitBreaker''
       (same [''failure_threshold'', ''recovery_timeout'', ''half_open_max''])"

definition alert_rule_of :: "pyval \<Rightarrow> exn + obj" where
  "alert_rule_of r =
     (case attr ''name'' r of Inl e \<Rightarrow> Inl e
      | Inr n \<Rightarrow> (case attr ''cooldown_seconds'' r of Inl e \<Rightarrow> Inl e
          | Inr s \<Rightarrow> Inr (New ''AlertRule'' [(''name'', Val n), (''cooldown_seconds'', Val s)])))"

text \<open>\<open>AlertSeverity(sev)\<close> looks the member up by its value.\<close>

definition severity_member :: "pyval \<Rightarrow> exn + pyval" where
  "severity_member sev =
     (case sev of
        PStr s \<Rightarrow> if s \<in> {''info'', ''warning'', ''critical''} then Inr sev
                  else Inl (Value_Error (apostrophe # s @ apostrophe # '' is not a valid AlertSeverity''))
      | _ \<Rightarrow> Inl (Value_Error ''not a valid AlertSeverity''))"

fun is_text :: "pyval \<Rightarrow> bool" where
  "is_text (PStr s) = True"
| "is_text _ = False"

definition alert_route_of :: "bool \<Rightarrow> pyval \<Rightarrow> exn + obj" where
  "alert_route_of always rt =
     (case attr ''severity'' rt of Inl e \<Rightarrow> Inl e
      | Inr sev \<Rightarrow>
          (case (if always \<or> is_text sev then severity_member sev else Inr sev) of Inl e \<Rightarrow> Inl e
           | Inr member \<Rightarrow> (case attr ''webhook_url'' rt of Inl e \<Rightarrow> Inl e
               | Inr url \<Rightarrow> Inr (New ''AlertRoute'' [(''severity'', Val member), (''webhook_url'', Val url)]))))"

definition entries :: "pyval \<Rightarrow> string \<Rightarrow> string \<Rightarrow> (pyval \<Rightarrow> exn + obj) \<Rightarrow> exn + obj list" where
  "entries cfg section name f =
     (case attr2 section name cfg of Inl e \<Rightarrow> Inl e
      | Inr v \<Rightarrow> (case iterate v of Inl e \<Rightarrow> Inl e | Inr xs \<Rightarrow> each f xs))"

definition build_alert_manager :: "constructor \<Rightarrow> pyval \<Rightarrow> obj build" where
  "build_alert_manager ctor cfg = if_enabled cfg ''alerting''
     (bind (lift (entries cfg ''alerting'' ''rules'' alert_rule_of)) (\<lambda>rules.
      bind (lift (entries cfg ''alerting'' ''routes'' (alert_route_of False))) (\<lambda>routes.
      bind (lift (attr2 ''alerting'' ''webhook_url'' cfg)) (\<lambda>url.
      lift (make ctor ''AlertManager'' [(''rules'', Objs rules), (''webhook_url'', Val url),
        (''routes'', if routes = [] then Val PNone else Objs routes)])))))"

definition build_cloud_storage :: "constructor \<Rightarrow> pyval \<Rightarrow> obj build" where
  "build_cloud_storage ctor cfg = if_enabled cfg ''cloud_storage''
     (build_section ctor cfg ''cloud_storage'' ''CloudStorageClient''
       (same [''bucket'', ''prefix'', ''endpoint_url'', ''region'']))"

definition build_reasoning_chain :: "constructor \<Rightarrow> pyval \<Rightarrow> obj build" where
  "build_reasoning_chain ctor cfg = if_enabled cfg ''reasoning''
     (build_section ctor cfg ''reasoning'' ''ReasoningChain'' (same [''max_steps'', ''timeout_per_step'']))"

definition build_reid_engine :: "constructor \<Rightarrow> pyval \<Rightarrow> obj build" where
  "build_reid_engine ctor cfg = if_enabled cfg ''reid''
     (build_section ctor cfg ''reid'' ''ReIDEngine'' (same [''similarity_threshold'', ''time_window_seconds'']))"

definition build_rate_limiter :: "constructor \<Rightarrow> pyval \<Rightarrow> obj build" where
  "build_rate_limiter ctor cfg = if_enabled cfg ''rate_limiting''
     (build_section ctor cfg ''rate_limiting'' ''TokenBucketRateLimiter''
       [(''max_per_sec'', ''max_rps''), (''burst'', ''burst'')])"

definition build_model_registry :: "constructor \<Rightarrow> pyval \<Rightarrow> obj build" where
  "build_model_registry ctor cfg = if_enabled cfg ''model_management''
     (build_section ctor cfg ''model_management'' ''ModelRegistry'' (same [''max_models_per_device'']))"

definition build_ab_test_manager :: "constructor \<Rightarrow> pyval \<Rightarrow> obj build" where
  "build_ab_test_manager ctor cfg = if_enabled cfg ''ab_test''
     (build_section ctor cfg ''ab_test'' ''ABTestManager'' (same [''traffic_split'', ''min_samples'', ''metric'']))"

subsection \<open>Builders over other services\<close>

definition get_store :: "constructor \<Rightarrow> (string \<Rightarrow> exn option) \<Rightarrow> pyval \<Rightarrow> obj build" where
  "get_store ctor mkdir cfg = fetch ''store'' (build_store ctor mkdir cfg)"

definition get_cloud_storage :: "constructor \<Rightarrow> pyval \<Rightarrow> obj build" where
  "get_cloud_storage ctor cfg = fetch ''cloud_storage'' (build_cloud_storage ctor cfg)"

text \<open>A constructor that takes the store and attributes of one section.\<close>

definition build_with_store ::
    "constructor \<Rightarrow> (string \<Rightarrow> exn option) \<Rightarrow> pyval \<Rightarrow> string \<Rightarrow> string \<Rightarrow> (string \<times> string) list \<Rightarrow> obj build" where
  "build_with_store ctor mkdir cfg section cls ks =
     bind (get_store ctor mkdir cfg) (\<lambda>s.
     bind (lift (from_section cfg section ks)) (\<lambda>args.
     lift (make ctor cls ((''detection_store'', s) # args))))"

definition build_behavior_analyzer :: "constructor \<Rightarrow> (string \<Rightarrow> exn option) \<Rightarrow> pyval \<Rightarrow> obj build" where
  "build_behavior_analyzer ctor mkdir cfg =
     bind (get_store ctor mkdir cfg) (\<lambda>s. lift (make ctor ''BehaviorAnalyzer'' [(''detection_store'', s)]))"

definition build_rag_retriever :: "constructor \<Rightarrow> (string \<Rightarrow> exn option) \<Rightarrow> pyval \<Rightarrow> obj build" where
  "build_rag_retriever ctor mkdir cfg = if_enabled cfg ''rag''
     (build_with_store ctor mkdir cfg ''rag'' ''RAGRetriever''
       [(''max_items'', ''max_history_items''), (''time_window_hours'', ''time_window_hours'')])"

definition build_anomaly_baseline :: "constructor \<Rightarrow> (string \<Rightarrow> exn option) \<Rightarrow> pyval \<Rightarrow> obj build" where
  "build_anomaly_baseline ctor mkdir cfg = if_enabled cfg ''anomaly''
     (build_with_store ctor mkdir cfg ''anomaly'' ''AnomalyBaseline''
       (same [''baseline_window_hours'', ''z_score_threshold'', ''min_samples'']))"

definition build_timeseries_engine :: "constructor \<Rightarrow> (string \<Rightarrow> exn option) \<Rightarrow> pyval \<Rightarrow> obj build" where
  "build_timeseries_engine ctor mkdir cfg = if_enabled cfg ''timeseries''
     (build_with_store ctor mkdir cfg ''timeseries'' ''TimeSeriesEngine'' [])"

definition build_auto_annotator :: "constructor \<Rightarrow> (string \<Rightarrow> exn option) \<Rightarrow> pyval \<Rightarrow> obj build" where
  "build_auto_annotator ctor mkdir cfg = if_enabled cfg ''auto_annotator''
     (build_with_store ctor mkdir cfg ''auto_annotator'' ''AutoAnnotator'' (same [''min_confidence'']))"

definition build_report_generator :: "constructor \<Rightarrow> (string \<Rightarrow> exn option) \<Rightarrow> pyval \<Rightarrow> obj build" where
  "build_report_generator ctor mkdir cfg = if_enabled cfg ''reporting''
     (bind (get_store ctor mkdir cfg) (\<lambda>s.
      bind (get_cloud_storage ctor cfg) (\<lambda>cloud.
      lift (make ctor ''ReportGenerator'' [(''detection_store'', s), (''cloud_storage'', cloud)]))))"

text \<open>A list of services, each under its keyword.\<close>

fun services_for :: "(string \<times> obj build) list \<Rightarrow> (string \<times> obj) list build" where
  "services_for [] = ret []"
| "services_for ((k, b) # bs) = bind b (\<lambda>x. bind (services_for bs) (\<lambda>xs. ret ((k, x) # xs)))"

definition trigger_rule_of :: "pyval \<Rightarrow> exn + obj" where
  "trigger_rule_of r =
     (case each (\<lambda>a. case attr a r of Inl e \<Rightarrow> Inl e | Inr v \<Rightarrow> Inr (a, Val v))
        [''class_name'', ''min_confidence'', ''prompt_template''] of
        Inl e \<Rightarrow> Inl e
      | Inr args \<Rightarrow> Inr (New ''VLMTriggerRule'' args))"

definition rules_of :: "pyval \<Rightarrow> exn + obj list" where
  "rules_of cfg = (case attr ''vlm_rules'' cfg of Inl e \<Rightarrow> Inl e
     | Inr v \<Rightarrow> (case iterate v of Inl e \<Rightarrow> Inl e | Inr xs \<Rightarrow> each trigger_rule_of xs))"

definition path_of :: "pyval \<Rightarrow> exn + obj" where
  "path_of v = (case v of PStr s \<Rightarrow> Inr (New ''Path'' [(''path'', Val v)]) | _ \<Rightarrow> Inl (Type_Error ''expected str''))"

definition build_orchestrator :: "constructor \<Rightarrow> (string \<Rightarrow> exn option) \<Rightarrow> pyval \<Rightarrow> obj build" where
  "build_orchestrator ctor mkdir cfg =
     bind (lift (rules_of cfg)) (\<lambda>rules.
     bind (lift (attr2 ''central'' ''vlm_model_path'' cfg)) (\<lambda>vlm.
     bind (if truthy vlm then lift (path_of vlm) else ret (Val PNone)) (\<lambda>vlm_path.
     bind (lift (attr2 ''central'' ''model_path'' cfg)) (\<lambda>mp.
     bind (lift (path_of mp)) (\<lambda>model_path.
     bind (get_store ctor mkdir cfg) (\<lambda>s.
     bind (lift (attr2 ''central'' ''inference_mode'' cfg)) (\<lambda>mode.
     bind (services_for
       [(''circuit_breaker'', fetch ''circuit_breaker'' (build_circuit_breaker ctor cfg)),
        (''alert_manager'', fetch ''alert_manager'' (build_alert_manager ctor cfg)),
        (''cloud_storage'', get_cloud_storage ctor cfg)]) (\<lambda>first.
     bind (lift (attr ''batch'' cfg)) (\<lambda>batch.
     bind (services_for
       [(''behavior_analyzer'', fetch ''behavior_analyzer'' (build_behavior_analyzer ctor mkdir cfg)),
        (''reasoning_chain'', fetch ''reasoning_chain'' (build_reasoning_chain ctor cfg)),
        (''rag_retriever'', fetch ''rag_retriever'' (build_rag_retriever ctor mkdir cfg)),
        (''anomaly_baseline'', fetch ''anomaly_baseline'' (build_anomaly_baseline ctor mkdir cfg))]) (\<lambda>second.
     lift (make ctor ''CentralOrchestrator''
       ([(''model_path'', model_path), (''vlm_rules'', Objs rules), (''detection_store'', s),
         (''inference_mode'', Val mode), (''vlm_model_path'', vlm_path)] @ first @
        [(''batch_config'', Val batch)] @ second))))))))))))"

definition build_grpc_server :: "constructor \<Rightarrow> (string \<Rightarrow> exn option) \<Rightarrow> pyval \<Rightarrow> obj build" where
  "build_grpc_server ctor mkdir cfg =
     bind (lift (from_section cfg ''central'' (same [''host'', ''port'']))) (\<lambda>place.
     bind (fetch ''orchestrator'' (build_orchestrator ctor mkdir cfg)) (\<lambda>orch.
     bind (lift (from_section cfg ''central'' (same [''max_message_size_mb'']))) (\<lambda>size.
     bind (lift (attr2 ''tls'' ''enabled'' cfg)) (\<lambda>on.
     bind (if truthy on then lift (attr ''tls'' cfg) else ret PNone) (\<lambda>tls.
     bind (services_for
       [(''session_manager'', fetch ''session_manager'' (build_session_manager ctor cfg)),
        (''rate_limiter'', fetch ''rate_limiter'' (build_rate_limiter ctor cfg)),
        (''model_registry'', fetch ''model_registry'' (build_model_registry ctor cfg)),
        (''detection_store'', get_store ctor mkdir cfg),
        (''ab_test_manager'', fetch ''ab_test_manager'' (build_ab_test_manager ctor cfg))]) (\<lambda>svcs.
     lift (make ctor ''NeuroPipelineServer''
       (place @ [(''orchestrator'', orch)] @ size @ [(''tls_config'', Val tls)] @ svcs))))))))"

text \<open>\<open>getattr(self, "_build_" + name, None)\<close>: the builders by name.\<close>

definition builders :: "constructor \<Rightarrow> (string \<Rightarrow> exn option) \<Rightarrow> pyval \<Rightarrow> (string \<times> obj build) list" where
  "builders ctor mkdir cfg =
     [(''store'', build_store ctor mkdir cfg),
      (''session_manager'', build_session_manager ctor cfg),
      (''circuit_breaker'', build_circuit_breaker ctor cfg),
      (''alert_manager'', build_alert_manager ctor cfg),
      (''cloud_storage'', build_cloud_storage ctor cfg),
      (''behavior_analyzer'', build_behavior_analyzer ctor mkdir cfg),
      (''reasoning_chain'', build_reasoning_chain ctor cfg),
      (''rag_retriever'', build_rag_retriever ctor mkdir cfg),
      (''anomaly_baseline'', build_anomaly_baseline ctor mkdir cfg),
      (''reid_engine'', build_reid_engine ctor cfg),
      (''timeseries_engine'', build_timeseries_engine ctor mkdir cfg),
      (''auto_annotator'', build_auto_annotator ctor mkdir cfg),
      (''report_generator'', build_report_generator ctor mkdir cfg),
      (''rate_limiter'', build_rate_limiter ctor cfg),
      (''model_registry'', build_model_registry ctor cfg),
      (''ab_test_manager'', build_ab_test_manager ctor cfg),
      (''orchestrator'', build_orchestrator ctor mkdir cfg),
      (''grpc_server'', build_grpc_server ctor mkdir cfg)]"

definition get_service :: "constructor \<Rightarrow> (string \<Rightarrow> exn option) \<Rightarrow> pyval \<Rightarrow> string \<Rightarrow> obj build" where
  "get_service ctor mkdir cfg name c =
     (case map_of c name of
        Some _ \<Rightarrow> (Inr (Shared name), c)
      | None \<Rightarrow> (case map_of (builders ctor mkdir cfg) name of
            None \<Rightarrow> (Inl (Key_Error (''Unknown service: '' @ name)), c)
          | Some b \<Rightarrow> fetch name b c))"

subsection \<open>What is kept by every access\<close>

fun refs :: "obj \<Rightarrow> string set" where
  "refs (Val v) = {}"
| "refs (Shared n) = {n}"
| "refs (New cls args) = (\<Union>a \<in> set args. refs (snd a))"
| "refs (Objs xs) = (\<Union>x \<in> set xs. refs x)"

definition arg_refs :: "(string \<times> obj) list \<Rightarrow> string set" where
  "arg_refs args = (\<Union>a \<in> set args. refs (snd a))"

definition obj_refs :: "obj list \<Rightarrow> string set" where
  "obj_refs xs = (\<Union>x \<in> set xs. refs x)"

text \<open>
  The container's invariant: names are distinct, each service was made by the builder of its
  name, and the services it refers to are there.
\<close>

definition made_by :: "constructor \<Rightarrow> (string \<Rightarrow> exn option) \<Rightarrow> pyval \<Rightarrow> string \<Rightarrow> obj \<Rightarrow> bool" where
  "made_by ctor mkdir cfg n x \<longleftrightarrow>
     (\<exists>b c c1. map_of (builders ctor mkdir cfg) n = Some b \<and> b c = (Inr x, c1))"

definition container_ok :: "constructor \<Rightarrow> (string \<Rightarrow> exn option) \<Rightarrow> pyval \<Rightarrow> services \<Rightarrow> bool" where
  "container_ok ctor mkdir cfg c \<longleftrightarrow> dict_ok c \<and>
     (\<forall>n x. map_of c n = Some x \<longrightarrow> made_by ctor mkdir cfg n x \<and> refs x \<subseteq> dom (map_of c))"

text \<open>
  A computation is well behaved when it keeps the invariant and all services, and its result
  refers to services that are there, given that those in \<open>S\<close> are.
\<close>

definition behaved ::
    "constructor \<Rightarrow> (string \<Rightarrow> exn option) \<Rightarrow> pyval \<Rightarrow> string set \<Rightarrow> ('a \<Rightarrow> string set) \<Rightarrow> 'a build \<Rightarrow> bool" where
  "behaved ctor mkdir cfg S R b \<longleftrightarrow>
     (\<forall>c r c1. b c = (r, c1) \<longrightarrow> container_ok ctor mkdir cfg c \<longrightarrow> S \<subseteq> dom (map_of c) \<longrightarrow>
        container_ok ctor mkdir cfg c1 \<and> map_of c \<subseteq>\<^sub>m map_of c1 \<and>
        (\<forall>x. r = Inr x \<longrightarrow> R x \<subseteq> dom (map_of c1)))"


lemma behaved_bind:
  assumes "behaved ctor mkdir cfg S R b" and "\<And>x. behaved ctor mkdir cfg (S \<union> R x) R2 (f x)"
  shows "behaved ctor mkdir cfg S R2 (bind b f)"
  unfolding behaved_def
proof (intro allI impI)
  fix c r c1
  assume run: "bind b f c = (r, c1)" and ok: "container_ok ctor mkdir cfg c" and S: "S \<subseteq> dom (map_of c)"
  obtain r0 c0 where b: "b c = (r0, c0)" by fastforce
  with assms(1) ok S have c0: "container_ok ctor mkdir cfg c0" "map_of c \<subseteq>\<^sub>m map_of c0"
    "\<And>x. r0 = Inr x \<Longrightarrow> R x \<subseteq> dom (map_of c0)" unfolding behaved_def by blast+
  show "container_ok ctor mkdir cfg c1 \<and> map_of c \<subseteq>\<^sub>m map_of c1 \<and> (\<forall>x. r = Inr x \<longrightarrow> R2 x \<subseteq> dom (map_of c1))"
  proof (cases r0)
    case (Inl e)
    with run b c0 show ?thesis by (auto simp: bind_def)
  next
    case (Inr x)
    with run b have "f x c0 = (r, c1)" by (simp add: bind_def)
    moreover have "S \<union> R x \<subseteq> dom (map_of c0)" using S c0 Inr map_le_implies_dom_le by blast
    ultimately have "container_ok ctor mkdir cfg c1" "map_of c0 \<subseteq>\<^sub>m map_of c1"
        "\<forall>y. r = Inr y \<longrightarrow> R2 y \<subseteq> dom (map_of c1)"
      using assms(2) [of x] c0(1) unfolding behaved_def by blast+
    with c0(2) show ?thesis using map_le_trans by blast
  qed
qed

lemmas behaved_binds =
  behaved_bind [where R = "\<lambda>_ :: pyval. {}"]
  behaved_bind [where R = refs]
  behaved_bind [where R = arg_refs]
  behaved_bind [where R = obj_refs]

lemma behaved_lift: "(\<And>x. r = Inr x \<Longrightarrow> R x \<subseteq> S) \<Longrightarrow> behaved ctor mkdir cfg S R (lift r)"
  by (auto simp: behaved_def lift_def)

lemma behaved_ret: "R x \<subseteq> S \<Longrightarrow> behaved ctor mkdir cfg S R (ret x)"
  by (auto simp: behaved_def ret_def)

lemma behaved_fetch:
  assumes "behaved ctor mkdir cfg S refs b" and "map_of (builders ctor mkdir cfg) name = Some b"
  shows "behaved ctor mkdir cfg S refs (fetch name b)"
  unfolding behaved_def
proof (intro allI impI)
  fix c r c1
  assume run: "fetch name b c = (r, c1)" and ok: "container_ok ctor mkdir cfg c" and S: "S \<subseteq> dom (map_of c)"
  show "container_ok ctor mkdir cfg c1 \<and> map_of c \<subseteq>\<^sub>m map_of c1 \<and> (\<forall>x. r = Inr x \<longrightarrow> refs x \<subseteq> dom (map_of c1))"
  proof (cases "map_of c name")
    case None
    obtain r0 c0 where b: "b c = (r0, c0)" by fastforce
    with assms(1) ok S have c0: "container_ok ctor mkdir cfg c0" "map_of c \<subseteq>\<^sub>m map_of c0"
      "\<And>x. r0 = Inr x \<Longrightarrow> refs x \<subseteq> dom (map_of c0)" unfolding behaved_def by blast+
    show ?thesis
    proof (cases r0)
      case (Inl e)
      with run None b c0 show ?thesis by (auto simp: fetch_def)
    next
      case (Inr x)
      with run None b have r: "r = Inr (Shared name)" "c1 = AList.update name x c0" by (simp_all add: fetch_def)
      have "made_by ctor mkdir cfg name x" using b Inr assms(2) by (auto simp: made_by_def)
      moreover have "dom (map_of c1) = insert name (dom (map_of c0))" by (auto simp: r(2) dom_def)
      ultimately have "container_ok ctor mkdir cfg c1"
        using c0(1,3) Inr unfolding container_ok_def by (auto simp: r(2) subset_insertI2)
      moreover have "map_of c \<subseteq>\<^sub>m map_of c1" using c0(2) None by (auto simp: r(2) map_le_def)
      ultimately show ?thesis by (simp add: r dom_def)
    qed
  qed (use run ok in \<open>auto simp: fetch_def dom_def\<close>)
qed

lemma make_refs:
  assumes "make ctor cls args = Inr x"
  shows "refs x = arg_refs args"
proof -
  have "x = New cls args" using assms by (simp add: make_def split: option.splits)
  then show ?thesis by (simp add: arg_refs_def)
qed

lemma each_all: "each f xs = Inr ys \<Longrightarrow> (\<And>x y. f x = Inr y \<Longrightarrow> P y) \<Longrightarrow> y \<in> set ys \<Longrightarrow> P y"
  by (induction xs arbitrary: ys) (auto split: sum.splits)

lemma from_section_refs: "from_section cfg section ks = Inr args \<Longrightarrow> arg_refs args = {}"
  unfolding from_section_def arg_refs_def
  by (auto dest!: each_all [where P = "\<lambda>a. refs (snd a) = {}"] split: sum.splits)

lemma refs_Objs: "refs (Objs xs) = obj_refs xs"
  by (simp add: obj_refs_def)

lemma obj_refs_entries:
  assumes "entries cfg section name f = Inr ys" and "\<And>x y. f x = Inr y \<Longrightarrow> refs y = {}"
  shows "obj_refs ys = {}"
proof -
  from assms(1) obtain xs where "each f xs = Inr ys" by (auto simp: entries_def split: sum.splits)
  from each_all [OF this, where P = "\<lambda>y. refs y = {}"] assms(2) show ?thesis
    by (auto simp: obj_refs_def)
qed

lemma alert_refs:
  "alert_rule_of r = Inr y \<Longrightarrow> refs y = {}"
  "alert_route_of always r = Inr y \<Longrightarrow> refs y = {}"
  by (auto simp: alert_rule_of_def alert_route_of_def split: sum.splits if_splits)

lemma trigger_refs: "trigger_rule_of r = Inr y \<Longrightarrow> refs y = {}"
  by (auto simp: trigger_rule_of_def split: sum.splits)

lemma rules_refs:
  assumes "rules_of cfg = Inr ys"
  shows "obj_refs ys = {}"
proof -
  from assms obtain xs where "each trigger_rule_of xs = Inr ys" by (auto simp: rules_of_def split: sum.splits)
  from each_all [OF this, where P = "\<lambda>y. refs y = {}"] trigger_refs show ?thesis
    by (auto simp: obj_refs_def)
qed

lemma path_refs: "path_of v = Inr y \<Longrightarrow> refs y = {}"
  by (auto simp: path_of_def split: pyval.splits)

lemma behaved_mono: "behaved ctor mkdir cfg {} R b \<Longrightarrow> behaved ctor mkdir cfg S R b"
  by (simp add: behaved_def)

lemma behaved_make: "arg_refs args \<subseteq> S \<Longrightarrow> behaved ctor mkdir cfg S refs (lift (make ctor cls args))"
  by (rule behaved_lift) (simp add: make_refs)

lemma behaved_val: "behaved ctor mkdir cfg S (\<lambda>_ :: pyval. {}) (lift r)"
  by (rule behaved_lift) simp

lemma behaved_from_section: "behaved ctor mkdir cfg S arg_refs (lift (from_section cfg section ks))"
  by (rule behaved_lift) (simp add: from_section_refs)

lemma behaved_if_enabled:
  "behaved ctor mkdir cfg S refs b \<Longrightarrow> behaved ctor mkdir cfg S refs (if_enabled cfg section b)"
  unfolding if_enabled_def by (rule behaved_binds(1) [OF behaved_val]) (simp add: behaved_ret)

lemma behaved_section: "behaved ctor mkdir cfg S refs (build_section ctor cfg section cls ks)"
  unfolding build_section_def by (rule behaved_binds(3) [OF behaved_from_section behaved_make]) simp

lemma behaved_services:
  "list_all (\<lambda>(k, b). behaved ctor mkdir cfg {} refs b) bs \<Longrightarrow>
     behaved ctor mkdir cfg S arg_refs (services_for bs)"
proof (induction bs arbitrary: S)
  case (Cons p bs)
  obtain k b where p: "p = (k, b)" by fastforce
  with Cons.prems have "behaved ctor mkdir cfg S refs b" by (simp add: behaved_mono)
  then show ?case unfolding p services_for.simps
    by (rule behaved_binds(2), intro behaved_binds(3) [OF Cons.IH behaved_ret])
       (use Cons.prems in \<open>auto simp: arg_refs_def\<close>)
qed (simp add: behaved_ret arg_refs_def)

subsection \<open>Every builder is well behaved\<close>


lemma behaved_store: "behaved ctor mkdir cfg S refs (build_store ctor mkdir cfg)"
  unfolding build_store_def
  by (rule behaved_binds(1) [OF behaved_val])
     (auto split: pyval.splits option.splits simp: arg_refs_def
        intro!: behaved_binds(1) [OF behaved_val] behaved_make intro: behaved_lift)

lemma behaved_alerts: "behaved ctor mkdir cfg S refs (build_alert_manager ctor cfg)"
  unfolding build_alert_manager_def
  by (intro behaved_if_enabled behaved_binds(4) [OF behaved_lift] behaved_binds(1) [OF behaved_val] behaved_make)
     (auto simp: arg_refs_def obj_refs_def alert_refs dest!: obj_refs_entries)

lemma behaved_get_store: "behaved ctor mkdir cfg S refs (get_store ctor mkdir cfg)"
  unfolding get_store_def by (rule behaved_fetch [OF behaved_store]) (simp add: builders_def)

lemma behaved_cloud: "behaved ctor mkdir cfg S refs (build_cloud_storage ctor cfg)"
  unfolding build_cloud_storage_def by (intro behaved_if_enabled behaved_section)

lemma behaved_get_cloud: "behaved ctor mkdir cfg S refs (get_cloud_storage ctor cfg)"
  unfolding get_cloud_storage_def by (rule behaved_fetch [OF behaved_cloud]) (simp add: builders_def)

lemma behaved_with_store: "behaved ctor mkdir cfg S refs (build_with_store ctor mkdir cfg section cls ks)"
  unfolding build_with_store_def
  by (intro behaved_binds(2) [OF behaved_get_store] behaved_binds(3) [OF behaved_from_section] behaved_make)
     (auto simp: arg_refs_def)

lemma behaved_report: "behaved ctor mkdir cfg S refs (build_report_generator ctor mkdir cfg)"
  unfolding build_report_generator_def
  by (intro behaved_if_enabled behaved_binds(2) [OF behaved_get_store] behaved_binds(2) [OF behaved_get_cloud] behaved_make)
     (auto simp: arg_refs_def)

lemma behaved_behavior: "behaved ctor mkdir cfg S refs (build_behavior_analyzer ctor mkdir cfg)"
  unfolding build_behavior_analyzer_def
  by (intro behaved_binds(2) [OF behaved_get_store] behaved_make) (auto simp: arg_refs_def)

lemmas simple_builders = build_session_manager_def build_circuit_breaker_def build_reasoning_chain_def
  build_reid_engine_def build_rate_limiter_def build_model_registry_def build_ab_test_manager_def
  build_rag_retriever_def build_anomaly_baseline_def build_timeseries_engine_def build_auto_annotator_def

lemma behaved_simple:
  "behaved ctor mkdir cfg S refs (build_session_manager ctor cfg)"
  "behaved ctor mkdir cfg S refs (build_circuit_breaker ctor cfg)"
  "behaved ctor mkdir cfg S refs (build_reasoning_chain ctor cfg)"
  "behaved ctor mkdir cfg S refs (build_reid_engine ctor cfg)"
  "behaved ctor mkdir cfg S refs (build_rate_limiter ctor cfg)"
  "behaved ctor mkdir cfg S refs (build_model_registry ctor cfg)"
  "behaved ctor mkdir cfg S refs (build_ab_test_manager ctor cfg)"
  "behaved ctor mkdir cfg S refs (build_rag_retriever ctor mkdir cfg)"
  "behaved ctor mkdir cfg S refs (build_anomaly_baseline ctor mkdir cfg)"
  "behaved ctor mkdir cfg S refs (build_timeseries_engine ctor mkdir cfg)"
  "behaved ctor mkdir cfg S refs (build_auto_annotator ctor mkdir cfg)"
  unfolding simple_builders by (intro behaved_if_enabled behaved_section behaved_with_store)+

lemma behaved_orchestrator: "behaved ctor mkdir cfg S refs (build_orchestrator ctor mkdir cfg)"
  unfolding build_orchestrator_def
  by (intro behaved_binds(4) [OF behaved_lift] behaved_binds(1) [OF behaved_val]
        behaved_binds(2) behaved_get_store behaved_binds(3) [OF behaved_services] behaved_make)
     (auto simp: arg_refs_def builders_def behaved_get_cloud rules_refs path_refs refs_Objs simp del: refs.simps(4)
        intro!: behaved_fetch behaved_simple behaved_alerts behaved_behavior behaved_lift behaved_ret)

lemma behaved_server: "behaved ctor mkdir cfg S refs (build_grpc_server ctor mkdir cfg)"
  unfolding build_grpc_server_def
  by (intro behaved_binds(3) [OF behaved_from_section] behaved_binds(2) [OF behaved_fetch [OF behaved_orchestrator]]
        behaved_binds(1) [OF behaved_val] behaved_binds(3) [OF behaved_services] behaved_make
        behaved_binds(1) [where b = "if b then _ else _" for b])
     (auto simp: arg_refs_def builders_def behaved_get_store
        intro!: behaved_fetch behaved_simple behaved_lift behaved_ret)

lemma behaved_builders: "(n, b) \<in> set (builders ctor mkdir cfg) \<Longrightarrow> behaved ctor mkdir cfg S refs b"
  unfolding builders_def
  by (auto simp: behaved_store behaved_alerts behaved_cloud behaved_behavior behaved_simple behaved_report
      behaved_orchestrator behaved_server)

lemma behaved_get_service: "behaved ctor mkdir cfg S refs (get_service ctor mkdir cfg name)"
proof (cases "map_of (builders ctor mkdir cfg) name")
  case None
  then show ?thesis
    by (auto simp: behaved_def get_service_def dom_def split: option.splits)
next
  case (Some b)
  then have "get_service ctor mkdir cfg name = fetch name b"
    by (auto simp: fun_eq_iff get_service_def fetch_def split: option.splits)
  with behaved_fetch [OF behaved_builders Some] Some show ?thesis by (metis map_of_SomeD)
qed

subsection \<open>Accesses\<close>

text \<open>A sequence of accesses, whatever each of them gives.\<close>

definition get_all :: "constructor \<Rightarrow> (string \<Rightarrow> exn option) \<Rightarrow> pyval \<Rightarrow> string list \<Rightarrow> services \<Rightarrow> services" where
  "get_all ctor mkdir cfg names c = foldl (\<lambda>d n. snd (get_service ctor mkdir cfg n d)) c names"

lemma container_ok_get:
  assumes "container_ok ctor mkdir cfg c"
  shows "container_ok ctor mkdir cfg (snd (get_service ctor mkdir cfg n c)) \<and>
    map_of c \<subseteq>\<^sub>m map_of (snd (get_service ctor mkdir cfg n c))"
  using behaved_get_service [of ctor mkdir cfg "{}" n] assms
  by (cases "get_service ctor mkdir cfg n c") (auto simp: behaved_def)

interpretation container: kept_invariant "\<lambda>c n. snd (get_service ctor mkdir cfg n c)" "container_ok ctor mkdir cfg"
  for ctor mkdir cfg
  by unfold_locales (simp add: container_ok_get)

lemma get_all_grows:
  "container_ok ctor mkdir cfg c \<Longrightarrow> map_of c \<subseteq>\<^sub>m map_of (get_all ctor mkdir cfg names c)"
proof (induction names arbitrary: c)
  case (Cons n names)
  note get = container_ok_get [OF Cons.prems, of n]
  with Cons.IH [of "snd (get_service ctor mkdir cfg n c)"]
  have "map_of (snd (get_service ctor mkdir cfg n c)) \<subseteq>\<^sub>m map_of (get_all ctor mkdir cfg (n # names) c)"
    by (simp add: get_all_def)
  with get show ?case using map_le_trans by blast
qed (simp add: get_all_def)

lemma container_ok_Nil: "container_ok ctor mkdir cfg []"
  by (simp add: container_ok_def)

lemma disabled_is_none:
  assumes "attr2 section ''enabled'' cfg = Inr off" and "\<not> truthy off"
    and "if_enabled cfg section b c = (Inr x, c1)"
  shows "x = Val PNone"
  using assms by (simp add: if_enabled_def bind_def lift_def ret_def)

text \<open>The services that a section of the configuration switches, with their sections.\<close>

definition switches :: "(string \<times> string) list" where
  "switches =
     [(''alert_manager'', ''alerting''), (''cloud_storage'', ''cloud_storage''),
      (''reasoning_chain'', ''reasoning''), (''rag_retriever'', ''rag''),
      (''anomaly_baseline'', ''anomaly''), (''reid_engine'', ''reid''),
      (''timeseries_engine'', ''timeseries''), (''auto_annotator'', ''auto_annotator''),
      (''report_generator'', ''reporting''), (''rate_limiter'', ''rate_limiting''),
      (''model_registry'', ''model_management''), (''ab_test_manager'', ''ab_test'')]"

lemma switched_builder:
  "(n, section) \<in> set switches \<Longrightarrow> map_of (builders ctor mkdir cfg) n = Some b \<Longrightarrow>
     \<exists>b0. b = if_enabled cfg section b0"
  by (auto simp: switches_def builders_def build_alert_manager_def build_cloud_storage_def simple_builders
      build_report_generator_def)


definition reid_off :: pyval where
  "reid_off = PObj ''AppConfig'' [(''reid'', PObj ''ReIDConfig'' [(''enabled'', PBool False)])]"


subsection \<open>The server and the orchestrator share their services\<close>

lemma bindE:
  assumes "bind b f c = (Inr y, c1)"
  obtains x c0 where "b c = (Inr x, c0)" "f x c0 = (Inr y, c1)"
  using assms by (auto simp: bind_def split: prod.splits sum.splits)

lemma fetch_shared: "fetch name b c = (Inr x, c1) \<Longrightarrow> x = Shared name"
  by (auto simp: fetch_def split: option.splits prod.splits sum.splits)

lemma make_new: "lift (make ctor cls args) c = (Inr x, c1) \<Longrightarrow> x = New cls args"
  by (auto simp: lift_def make_def split: option.splits)

lemma services_keys: "services_for bs c = (Inr xs, c1) \<Longrightarrow> map fst xs = map fst bs"
  by (induction bs arbitrary: c xs) (auto simp: ret_def elim!: bindE)

lemma from_section_keys: "from_section cfg section ks = Inr args \<Longrightarrow> map fst args = map fst ks"
  unfolding from_section_def by (induction ks arbitrary: args) (auto split: sum.splits prod.splits)

lemma services_shared:
  "services_for bs c = (Inr xs, c1) \<Longrightarrow> list_all (\<lambda>(k, b). \<exists>n f. b = fetch n f \<and> n = h k) bs \<Longrightarrow>
     xs = map (\<lambda>(k, _). (k, Shared (h k))) bs"
  by (induction bs arbitrary: c xs) (auto simp: ret_def elim!: bindE dest!: fetch_shared)

lemma orchestrator_made:
  assumes "build_orchestrator ctor mkdir cfg c = (Inr x, c1)"
  shows "\<exists>args. x = New ''CentralOrchestrator'' args \<and> map_of args ''detection_store'' = Some (Shared ''store'') \<and>
    map_of args ''reasoning_chain'' = Some (Shared ''reasoning_chain'') \<and>
    map_of args ''vlm_config_guide'' = None"
proof -
  from assms obtain mp rules s mode vlm first batch second c0 c2 c3 c4 c5 c6 where
    x: "x = New ''CentralOrchestrator''
      ([(''model_path'', mp), (''vlm_rules'', Objs rules), (''detection_store'', s),
         (''inference_mode'', Val mode), (''vlm_model_path'', vlm)] @ first @ [(''batch_config'', Val batch)] @ second)"
    and s: "get_store ctor mkdir cfg c0 = (Inr s, c2)"
    and f: "services_for
       [(''circuit_breaker'', fetch ''circuit_breaker'' (build_circuit_breaker ctor cfg)),
        (''alert_manager'', fetch ''alert_manager'' (build_alert_manager ctor cfg)),
        (''cloud_storage'', get_cloud_storage ctor cfg)] c3 = (Inr first, c4)"
    and g: "services_for
       [(''behavior_analyzer'', fetch ''behavior_analyzer'' (build_behavior_analyzer ctor mkdir cfg)),
        (''reasoning_chain'', fetch ''reasoning_chain'' (build_reasoning_chain ctor cfg)),
        (''rag_retriever'', fetch ''rag_retriever'' (build_rag_retriever ctor mkdir cfg)),
        (''anomaly_baseline'', fetch ''anomaly_baseline'' (build_anomaly_baseline ctor mkdir cfg))] c5 = (Inr second, c6)"
    unfolding build_orchestrator_def
    by (elim bindE) (rule that, erule make_new, assumption+)
  have "first = map (\<lambda>k. (k, Shared k)) [''circuit_breaker'', ''alert_manager'', ''cloud_storage'']"
    using services_shared [OF f, where h = id] by (auto simp: get_cloud_storage_def)
  moreover have "second = map (\<lambda>k. (k, Shared k))
      [''behavior_analyzer'', ''reasoning_chain'', ''rag_retriever'', ''anomaly_baseline'']"
    using services_shared [OF g, where h = id] by auto
  moreover have "s = Shared ''store''"
    using s fetch_shared by (simp add: get_store_def)
  ultimately show ?thesis unfolding x by simp
qed

lemma server_made:
  assumes "build_grpc_server ctor mkdir cfg c = (Inr x, c1)"
  shows "\<exists>args. x = New ''NeuroPipelineServer'' args \<and> map_of args ''detection_store'' = Some (Shared ''store'') \<and>
    map_of args ''orchestrator'' = Some (Shared ''orchestrator'') \<and>
    map_of args ''session_manager'' = Some (Shared ''session_manager'')"
proof -
  from assms obtain place orch size tls svcs c0 c2 c3 c4 c5 c7 c8 where
    x: "x = New ''NeuroPipelineServer''
       (place @ [(''orchestrator'', orch)] @ size @ [(''tls_config'', Val tls)] @ svcs)"
    and p: "lift (from_section cfg ''central'' (same [''host'', ''port''])) c = (Inr place, c0)"
    and orch: "fetch ''orchestrator'' (build_orchestrator ctor mkdir cfg) c2 = (Inr orch, c3)"
    and sz: "lift (from_section cfg ''central'' (same [''max_message_size_mb''])) c4 = (Inr size, c5)"
    and svcs: "services_for
       [(''session_manager'', fetch ''session_manager'' (build_session_manager ctor cfg)),
        (''rate_limiter'', fetch ''rate_limiter'' (build_rate_limiter ctor cfg)),
        (''model_registry'', fetch ''model_registry'' (build_model_registry ctor cfg)),
        (''detection_store'', get_store ctor mkdir cfg),
        (''ab_test_manager'', fetch ''ab_test_manager'' (build_ab_test_manager ctor cfg))] c7 = (Inr svcs, c8)"
    unfolding build_grpc_server_def
    by (elim bindE) (rule that, erule make_new, assumption+)
  have keys: "map fst place = [''host'', ''port'']" "map fst size = [''max_message_size_mb'']"
    using p sz from_section_keys by (auto simp: lift_def same_def)
  have "svcs = map (\<lambda>k. (k, Shared (if k = ''detection_store'' then ''store'' else k)))
      [''session_manager'', ''rate_limiter'', ''model_registry'', ''detection_store'', ''ab_test_manager'']"
    using services_shared [OF svcs, where h = "\<lambda>k. if k = ''detection_store'' then ''store'' else k"]
    by (auto simp: get_store_def)
  moreover have "orch = Shared ''orchestrator''" using orch fetch_shared by simp
  moreover have "map_of place k = None" "map_of size k = None" if "k \<notin> {''host'', ''port'', ''max_message_size_mb''}" for k
  proof -
    have "fst ` set place = {''host'', ''port''}" "fst ` set size = {''max_message_size_mb''}"
      by (simp_all only: keys set_map [symmetric] list.set)
    with that show "map_of place k = None" "map_of size k = None" by (simp_all add: map_of_eq_None_iff)
  qed
  ultimately show ?thesis unfolding x by (simp add: map_add_def)
qed


text \<open>
  The wiring of a running server: when the pool holds the gRPC server, the server's
  orchestrator is the pool's, and both write to the one store of the pool. The orchestrator is
  given the reasoning chain but no VLM configuration guide, although the configuration has a
  section for it.
\<close>

theorem server_wiring:
  assumes "pool = get_all ctor mkdir cfg names []" and "map_of pool ''grpc_server'' = Some x"
  shows "\<exists>args oargs. x = New ''NeuroPipelineServer'' args \<and>
    map_of args ''orchestrator'' = Some (Shared ''orchestrator'') \<and>
    map_of pool ''orchestrator'' = Some (New ''CentralOrchestrator'' oargs) \<and>
    map_of args ''detection_store'' = Some (Shared ''store'') \<and>
    map_of oargs ''detection_store'' = Some (Shared ''store'') \<and> ''store'' \<in> dom (map_of pool) \<and>
    map_of oargs ''reasoning_chain'' = Some (Shared ''reasoning_chain'') \<and> map_of oargs ''vlm_config_guide'' = None"
proof -
  have ok: "container_ok ctor mkdir cfg pool"
    unfolding assms(1) get_all_def by (rule container.run_keeps [OF container_ok_Nil])
  have made: "\<exists>c d. b c = (Inr y, d)" if "map_of pool n = Some y" "map_of (builders ctor mkdir cfg) n = Some b" for n y b
    using ok that unfolding container_ok_def made_by_def by fastforce
  obtain c d where "build_grpc_server ctor mkdir cfg c = (Inr x, d)"
    using made [OF assms(2), of "build_grpc_server ctor mkdir cfg"] by (auto simp: builders_def)
  then obtain args where args: "x = New ''NeuroPipelineServer'' args"
    "map_of args ''detection_store'' = Some (Shared ''store'')"
    "map_of args ''orchestrator'' = Some (Shared ''orchestrator'')" using server_made by blast
  have "(''detection_store'', Shared ''store'') \<in> set args" "(''orchestrator'', Shared ''orchestrator'') \<in> set args"
    using args(2,3) by (simp_all add: map_of_SomeD)
  then have "''store'' \<in> refs x" "''orchestrator'' \<in> refs x" by (auto simp: args(1) intro: rev_bexI)
  moreover have "refs x \<subseteq> dom (map_of pool)" using ok assms(2) unfolding container_ok_def by blast
  ultimately have st: "''store'' \<in> dom (map_of pool)" and "''orchestrator'' \<in> dom (map_of pool)"
    by (simp_all only: subset_iff)
  from this(2) obtain y where y: "map_of pool ''orchestrator'' = Some y" by (auto simp: dom_def)
  obtain c d where "build_orchestrator ctor mkdir cfg c = (Inr y, d)"
    using made [OF y, of "build_orchestrator ctor mkdir cfg"] by (auto simp: builders_def)
  from orchestrator_made [OF this] obtain oargs where "y = New ''CentralOrchestrator'' oargs"
    "map_of oargs ''detection_store'' = Some (Shared ''store'')"
    "map_of oargs ''reasoning_chain'' = Some (Shared ''reasoning_chain'')"
    "map_of oargs ''vlm_config_guide'' = None" by (elim exE conjE)
  with args y st show ?thesis by (intro exI [of _ args] exI [of _ oargs]) simp
qed

lemma server_default: "''grpc_server'' \<in> dom (map_of (get_all (\<lambda>_ _. None) (\<lambda>_. None) default_config [''grpc_server''] []))"
  by code_simp

theorem server_wiring_witness:
  "\<exists>oargs. map_of (get_all (\<lambda>_ _. None) (\<lambda>_. None) default_config [''grpc_server''] []) ''orchestrator'' =
     Some (New ''CentralOrchestrator'' oargs) \<and> map_of oargs ''detection_store'' = Some (Shared ''store'')"
proof -
  define pool where "pool = get_all (\<lambda>_ _. None) (\<lambda>_. None) default_config [''grpc_server''] []"
  obtain x where x: "map_of pool ''grpc_server'' = Some x"
    using server_default unfolding pool_def [symmetric] dom_def by blast
  from server_wiring [OF pool_def x] show ?thesis unfolding pool_def [symmetric] by blast
qed

end
