(* ===== verification/Dashboard_Access.thy ===== *)
theory Dashboard_Access
  imports Config_Loader
begin

text \<open>
  Access to the dashboard: the authentication of \<open>middleware/auth.py\<close> and the user list of
  \<open>services/demo_data.py\<close> with the handlers of \<open>routers/v2/tracking.py\<close> that change it. A
  handler's answer is a reply, an HTTP error, or an exception that the framework turns into a
  server error.
\<close>

subsection \<open>Answers of the handlers\<close>

datatype http = Reply pyval | Fails nat string | Crash exn


text \<open>
  The framework's JSON response: it refuses numbers that are not finite, which gives a server
  error (the documented behaviour of Starlette's \<open>JSONResponse\<close>).
\<close>

fun json_finite :: "pyval \<Rightarrow> bool" where
  "json_finite (PFloat x) = is_finite x"
| "json_finite (PList xs) = list_all json_finite xs"
| "json_finite (PDict d) = list_all (\<lambda>(k, v). json_finite v) d"
| "json_finite (PObj n fs) = list_all (\<lambda>(k, v). json_finite v) fs"
| "json_finite _ = True"

definition respond :: "pyval \<Rightarrow> http" where
  "respond v = (if json_finite v then Reply v
     else Crash (Value_Error ''Out of range float values are not JSON compliant''))"

subsection \<open>Authentication\<close>

text \<open>
  \<open>secrets.compare_digest\<close> on texts raises for characters outside ASCII; the time it takes is
  not modelled.
\<close>

definition ascii :: "string \<Rightarrow> bool" where
  "ascii s \<longleftrightarrow> (\<forall>c \<in> set s. (of_char c :: nat) < 128)"

definition compare_digest :: "string \<Rightarrow> string \<Rightarrow> exn + bool" where
  "compare_digest a b =
     (if ascii a \<and> ascii b then Inr (a = b)
      else Inl (Type_Error ''comparing strings with non-ASCII characters is not supported''))"

text \<open>
  \<open>expected\<close> are the values of \<open>DASHBOARD_USER\<close> and \<open>DASHBOARD_PASS\<close>, empty when unset; the
  result is the refusal, if any.
\<close>

definition verify_credentials :: "string \<times> string \<Rightarrow> (string \<times> string) option \<Rightarrow> http option" where
  "verify_credentials expected creds =
     (if fst expected = '''' \<and> snd expected = '''' then None
      else case creds of
          None \<Rightarrow> Some (Fails 401 ''Authentication required'')
        | Some (user, pass) \<Rightarrow>
            (case compare_digest user (fst expected) of
               Inl e \<Rightarrow> Some (Crash e)
             | Inr correct_user \<Rightarrow>
                 (case compare_digest pass (snd expected) of
                    Inl e \<Rightarrow> Some (Crash e)
                  | Inr correct_pass \<Rightarrow>
                      if correct_user \<and> correct_pass then None
                      else Some (Fails 401 ''Invalid credentials''))))"

text \<open>\<open>Depends(verify_credentials)\<close>: the handler runs only after the check.\<close>

definition guarded :: "string \<times> string \<Rightarrow> (string \<times> string) option \<Rightarrow> ('s \<Rightarrow> http \<times> 's) \<Rightarrow> 's \<Rightarrow> http \<times> 's" where
  "guarded expected creds handler s =
     (case verify_credentials expected creds of Some refusal \<Rightarrow> (refusal, s) | None \<Rightarrow> handler s)"

text \<open>
  A guarded handler runs, and with it any change of the state, exactly when no
  credentials are configured or the request carries the configured ones; every other request is
  refused and leaves the state alone. This is for ASCII values; with another character in the
  configured user every request that carries credentials ends in a server error.
\<close>

theorem guarded_sound:
  assumes "handler s = (r, s1)" and "ascii (fst expected)" and "ascii (snd expected)"
    and "\<forall>u p. creds = Some (u, p) \<longrightarrow> ascii u \<and> ascii p"
  shows "guarded expected creds handler s =
    (if expected = ('''', '''') \<or> creds = Some expected then (r, s1)
     else (Fails 401 (if creds = None then ''Authentication required'' else ''Invalid credentials''), s))"
  using assms
  by (cases expected) (auto simp: guarded_def verify_credentials_def compare_digest_def split: option.splits)

theorem guarded_sound_witness:
  "guarded (''admin'', ''secret'') (Some (''admin'', ''guess'')) (\<lambda>s. (Reply PNone, Suc s)) 3 =
     (Fails 401 ''Invalid credentials'', 3)"
proof -
  have "ascii ''admin''" "ascii ''secret''" "ascii ''guess''" by (simp_all add: ascii_def)
  with guarded_sound [where handler = "\<lambda>s. (Reply PNone, Suc s)" and s = 3 and expected = "(''admin'', ''secret'')"
      and creds = "Some (''admin'', ''guess'')", OF refl] show ?thesis by simp
qed

subsection \<open>Users\<close>

type_synonym user = "(string \<times> pyval) list"

definition demo_users :: "user list" where
  "demo_users =
     [[(''id'', PStr ''user-1''), (''username'', PStr ''admin''), (''role'', PStr ''admin''),
       (''email'', PStr ''admin@example.com''), (''createdAt'', PStr ''2026-01-01T00:00:00Z'')],
      [(''id'', PStr ''user-2''), (''username'', PStr ''operator''), (''role'', PStr ''operator''),
       (''email'', PStr ''operator@example.com''), (''createdAt'', PStr ''2026-01-15T00:00:00Z'')]]"

definition user_id :: "nat \<Rightarrow> string" where
  "user_id n = ''user-'' @ dec n"

text \<open>\<open>now\<close> is the ISO text of the time.\<close>

definition add_demo_user :: "pyval \<Rightarrow> pyval \<Rightarrow> pyval \<Rightarrow> string \<Rightarrow> user list \<Rightarrow> user \<times> user list" where
  "add_demo_user name role email now us =
     (let u = [(''id'', PStr (user_id (length us + 1))), (''username'', name), (''role'', role),
               (''email'', email), (''createdAt'', PStr now)]
      in (u, us @ [u]))"

fun update_demo_user :: "string \<Rightarrow> (string \<times> pyval) list \<Rightarrow> user list \<Rightarrow> user option \<times> user list" where
  "update_demo_user uid updates [] = (None, [])"
| "update_demo_user uid updates (u # us) =
     (if map_of u ''id'' = Some (PStr uid)
      then let v = foldl (\<lambda>d (k, x). AList.update k x d) u updates in (Some v, v # us)
      else let (r, us1) = update_demo_user uid updates us in (r, u # us1))"

definition delete_demo_user :: "string \<Rightarrow> user list \<Rightarrow> bool \<times> user list" where
  "delete_demo_user uid us =
     (let us1 = filter (\<lambda>u. map_of u ''id'' \<noteq> Some (PStr uid)) us in (length us1 < length us, us1))"

subsection \<open>Handlers\<close>

definition body_get :: "string \<Rightarrow> pyval \<Rightarrow> (string \<times> pyval) list \<Rightarrow> pyval" where
  "body_get k dflt body = (case map_of body k of None \<Rightarrow> dflt | Some v \<Rightarrow> v)"

definition api_users :: "user list \<Rightarrow> http \<times> user list" where
  "api_users us = (respond (PList (map PDict us)), us)"

definition api_users_create :: "(string \<times> pyval) list \<Rightarrow> string \<Rightarrow> user list \<Rightarrow> http \<times> user list" where
  "api_users_create body now us =
     (let name = body_get ''username'' PNone body
      in if \<not> truthy name then (Fails 400 ''Username required'', us)
         else let (u, us1) = add_demo_user name (body_get ''role'' (PStr ''viewer'') body)
                     (body_get ''email'' (PStr '''') body) now us
              in (respond (PDict u), us1))"

definition api_users_update :: "string \<Rightarrow> (string \<times> pyval) list \<Rightarrow> user list \<Rightarrow> http \<times> user list" where
  "api_users_update uid body us =
     (case update_demo_user uid body us of
        (Some u, us1) \<Rightarrow> (respond (PDict u), us1)
      | (None, us1) \<Rightarrow> (Fails 404 ''User not found'', us1))"

definition api_users_delete :: "string \<Rightarrow> user list \<Rightarrow> http \<times> user list" where
  "api_users_delete uid us =
     (let (ok, us1) = delete_demo_user uid us in (Reply (PDict [(''success'', PBool ok)]), us1))"

subsection \<open>User ids\<close>

definition ids :: "user list \<Rightarrow> pyval option list" where
  "ids us = map (\<lambda>u. map_of u ''id'') us"

definition numbered :: "user list \<Rightarrow> bool" where
  "numbered us \<longleftrightarrow> ids us = map (\<lambda>i. Some (PStr (user_id i))) [1..<Suc (length us)]"

lemma user_id_inj: "user_id m = user_id n \<longleftrightarrow> m = n"
  by (auto simp: user_id_def dest: dec_inj)

lemma numbered_nth:
  assumes "numbered us" and "i < length us"
  shows "map_of (us ! i) ''id'' = Some (PStr (user_id (Suc i)))"
proof -
  have "ids us ! i = map (\<lambda>i. Some (PStr (user_id i))) [1..<Suc (length us)] ! i"
    using assms(1) by (simp only: numbered_def)
  with assms(2) show ?thesis by (simp add: ids_def del: upt_Suc)
qed

lemma numbered_add: "numbered us \<Longrightarrow> numbered (snd (add_demo_user name role email now us))"
  by (auto simp: add_demo_user_def numbered_def ids_def Let_def)

lemma map_of_updates: "k \<notin> fst ` set ups \<Longrightarrow> map_of (foldl (\<lambda>d (k, x). AList.update k x d) u ups) k = map_of u k"
  by (induction ups arbitrary: u) (auto split: prod.splits)

lemma ids_update:
  assumes "''id'' \<notin> fst ` set ups"
  shows "ids (snd (update_demo_user uid ups us)) = ids us"
  by (induction us) (auto simp: ids_def map_of_updates [OF assms] Let_def split: prod.splits)

lemma length_delete_one:
  assumes "numbered us" and "k < length us"
  shows "length (snd (delete_demo_user (user_id (Suc k)) us)) = length us - 1"
proof -
  have "{i. i < length us \<and> map_of (us ! i) ''id'' \<noteq> Some (PStr (user_id (Suc k)))} = {..<length us} - {k}"
    using numbered_nth [OF assms(1)] assms(2) by (auto simp: user_id_inj)
  then show ?thesis using assms(2)
    by (simp add: delete_demo_user_def Let_def length_filter_conv_card)
qed

text \<open>
  User ids are \<open>user-1\<close>, \<open>user-2\<close>, ... as long as users are only added, and updated
  without their id. But ids are made from the number of users: after any user but the last is
  deleted, the next user that is added gets the id of the last one.
\<close>

theorem user_ids_reused:
  assumes "numbered us"
  shows "numbered (snd (api_users_create body now us)) \<and>
    (''id'' \<notin> fst ` set body \<longrightarrow> ids (snd (api_users_update uid body us)) = ids us) \<and>
    (\<forall>k. Suc k < length us \<longrightarrow>
       (let us1 = snd (api_users_delete (user_id (Suc k)) us); u = fst (add_demo_user name role email now us1)
        in last us \<in> set us1 \<and> map_of u ''id'' = map_of (last us) ''id''))"
proof -
  have update: "ids (snd (api_users_update uid body us)) = ids us" if "''id'' \<notin> fst ` set body"
    using ids_update [OF that, of uid us] by (auto simp: api_users_update_def split: prod.splits option.splits)
  have delete: "let us1 = snd (api_users_delete (user_id (Suc k)) us); u = fst (add_demo_user name role email now us1)
      in last us \<in> set us1 \<and> map_of u ''id'' = map_of (last us) ''id''" if k: "Suc k < length us" for k
  proof -
    let ?us1 = "snd (delete_demo_user (user_id (Suc k)) us)"
    have ne: "us \<noteq> []" using k by auto
    have last: "map_of (last us) ''id'' = Some (PStr (user_id (length us)))"
      using numbered_nth [OF assms, of "length us - 1"] k ne by (simp add: last_conv_nth)
    have "last us \<in> set ?us1"
      using last k ne by (auto simp: delete_demo_user_def Let_def user_id_inj)
    moreover have "length ?us1 + 1 = length us" using length_delete_one [OF assms, of k] k by simp
    ultimately show ?thesis using last
      by (simp add: api_users_delete_def add_demo_user_def case_prod_unfold Let_def)
  qed
  have "numbered (snd (api_users_create body now us))"
    using assms numbered_add [OF assms] by (simp add: api_users_create_def Let_def case_prod_unfold)
  with update delete show ?thesis by blast
qed

theorem user_ids_reused_witness:
  "map_of (fst (add_demo_user PNone PNone PNone '''' (snd (api_users_delete (user_id 1) demo_users)))) ''id'' =
     map_of (last demo_users) ''id''"
proof -
  have "numbered demo_users"
    by (simp add: numbered_def ids_def demo_users_def user_id_def dec.simps digit_def)
  moreover have "Suc 0 < length demo_users" by (simp add: demo_users_def)
  ultimately show ?thesis
    using user_ids_reused [of demo_users] by (metis One_nat_def)
qed

end
