(* ===== verification/Dashboard_Validators.thy ===== *)
theory Dashboard_Validators
  imports Config Detection_Store
begin

text \<open>
  The dashboard's own check of a configuration, \<open>services/validators.py\<close>, on the JSON values
  of a request. It collects messages instead of raising; where a section is not a dictionary
  the code that reads it raises, which is an \<open>Inl\<close> here. It is compared with a written-out
  specification and with the server's own validation.
\<close>

subsection \<open>The checks\<close>

text \<open>\<open>d[k]\<close> and \<open>d.get(k, {})\<close> on JSON values.\<close>

definition index :: "string \<Rightarrow> pyval \<Rightarrow> exn + pyval" where
  "index k v =
     (case v of
        PDict d \<Rightarrow> (case map_of d k of None \<Rightarrow> Inl (Key_Error k) | Some x \<Rightarrow> Inr x)
      | PStr s \<Rightarrow> Inl (Type_Error ''string indices must be integers'')
      | PList xs \<Rightarrow> Inl (Type_Error ''list indices must be integers or slices'')
      | _ \<Rightarrow> Inl (Type_Error ''object is not subscriptable''))"

definition get_or :: "string \<Rightarrow> pyval \<Rightarrow> pyval \<Rightarrow> exn + pyval" where
  "get_or k dflt v =
     (case v of
        PDict d \<Rightarrow> Inr (case map_of d k of None \<Rightarrow> dflt | Some x \<Rightarrow> x)
      | _ \<Rightarrow> Inl (Attribute_Error ''get''))"

text \<open>The messages of the checks in order; the first one that raises ends the validation.\<close>

fun collect :: "(exn + string list) list \<Rightarrow> exn + string list" where
  "collect [] = Inr []"
| "collect (c # cs) =
     (case c of Inl e \<Rightarrow> Inl e
      | Inr ms \<Rightarrow> (case collect cs of Inl e \<Rightarrow> Inl e | Inr ns \<Rightarrow> Inr (ms @ ns)))"

fun is_pydict :: "pyval \<Rightarrow> bool" where
  "is_pydict (PDict _) = True"
| "is_pydict _ = False"

definition in_quotes :: "string \<Rightarrow> string" where
  "in_quotes s = apostrophe # s @ [apostrophe]"

definition section_check :: "pyval \<Rightarrow> string \<Rightarrow> exn + string list" where
  "section_check cfg section =
     (case has_key section cfg of
        Inl e \<Rightarrow> Inl e
      | Inr present \<Rightarrow>
          if \<not> present then Inr [''Missing '' @ in_quotes section @ '' section'']
          else (case index section cfg of
              Inl e \<Rightarrow> Inl e
            | Inr s \<Rightarrow> Inr (if is_pydict s then [] else [in_quotes section @ '' must be an object''])))"

text \<open>\<open>if key in sec: v = sec[key]; if bad(v): errors.append(msg)\<close>, where \<open>sec\<close> is read with \<open>get\<close>.\<close>

definition key_check :: "pyval \<Rightarrow> string \<Rightarrow> string \<Rightarrow> (pyval \<Rightarrow> bool) \<Rightarrow> string \<Rightarrow> exn + string list" where
  "key_check cfg section key bad msg =
     (case get_or section (PDict []) cfg of
        Inl e \<Rightarrow> Inl e
      | Inr s \<Rightarrow> (case has_key key s of
            Inl e \<Rightarrow> Inl e
          | Inr present \<Rightarrow>
              if \<not> present then Inr []
              else (case index key s of
                  Inl e \<Rightarrow> Inl e
                | Inr v \<Rightarrow> Inr (if bad v then [msg] else []))))"

text \<open>
  \<open>not isinstance(v, (int, float)) or ...\<close>; a truth value is an \<open>int\<close>. The last test gets the
  number; every comparison with NaN is false.
\<close>

definition bad_number :: "(pyfloat \<Rightarrow> bool) \<Rightarrow> pyval \<Rightarrow> bool" where
  "bad_number out v = (case number v of Inl _ \<Rightarrow> True | Inr x \<Rightarrow> out x)"

fun is_int :: "pyval \<Rightarrow> bool" where
  "is_int (PInt _) = True"
| "is_int (PBool _) = True"
| "is_int _ = False"

definition bad_int :: "(pyfloat \<Rightarrow> bool) \<Rightarrow> pyval \<Rightarrow> bool" where
  "bad_int out v = (\<not> is_int v \<or> bad_number out v)"

definition outside :: "real \<Rightarrow> real \<Rightarrow> pyfloat \<Rightarrow> bool" where
  "outside a b x = (x < Fin a \<or> Fin b < x)"

definition required_certs :: "string list" where
  "required_certs = [''ca_cert'', ''server_cert'', ''server_key'']"

definition tls_check :: "pyval \<Rightarrow> exn + string list" where
  "tls_check cfg =
     (case get_or ''tls'' (PDict []) cfg of
        Inl e \<Rightarrow> Inl e
      | Inr tls \<Rightarrow> (case get_or ''enabled'' PNone tls of
            Inl e \<Rightarrow> Inl e
          | Inr on \<Rightarrow>
              if \<not> truthy on then Inr []
              else collect (map (\<lambda>cert. case get_or cert PNone tls of
                  Inl e \<Rightarrow> Inl e
                | Inr v \<Rightarrow> Inr (if truthy v then [] else [''tls.'' @ cert @ '' is required when TLS is enabled'']))
                required_certs)))"

definition validate_config :: "pyval \<Rightarrow> exn + string list" where
  "validate_config cfg = collect
     [section_check cfg ''edge'',
      section_check cfg ''central'',
      key_check cfg ''edge'' ''fps'' (bad_number (\<lambda>x. x \<le> Fin 0 \<or> Fin 120 < x))
        ''edge.fps must be between 1 and 120'',
      key_check cfg ''edge'' ''confidence_threshold'' (bad_number (outside 0 1))
        ''edge.confidence_threshold must be between 0 and 1'',
      key_check cfg ''edge'' ''nms_threshold'' (bad_number (outside 0 1))
        ''edge.nms_threshold must be between 0 and 1'',
      key_check cfg ''central'' ''port'' (bad_int (outside 1 65535))
        ''central.port must be between 1 and 65535'',
      key_check cfg ''central'' ''inference_mode'' (\<lambda>v. v \<notin> {PStr ''llm'', PStr ''vlm''})
        (''central.inference_mode must be '' @ in_quotes ''llm'' @ '' or '' @ in_quotes ''vlm''),
      key_check cfg ''storage'' ''retention_days'' (bad_number (\<lambda>x. x < Fin 1))
        ''storage.retention_days must be at least 1'',
      tls_check cfg,
      key_check cfg ''circuit_breaker'' ''failure_threshold'' (bad_int (\<lambda>x. x < Fin 1))
        ''circuit_breaker.failure_threshold must be at least 1'',
      key_check cfg ''circuit_breaker'' ''recovery_timeout'' (bad_number (\<lambda>x. x < Fin 1))
        ''circuit_breaker.recovery_timeout must be at least 1'',
      key_check cfg ''ab_test'' ''traffic_split'' (bad_number (outside 0 1))
        ''ab_test.traffic_split must be between 0 and 1'',
      key_check cfg ''anomaly'' ''z_score_threshold'' (bad_number (\<lambda>x. x < Fin 1))
        ''anomaly.z_score_threshold must be at least 1'']"

subsection \<open>Specification\<close>

text \<open>A value that is not a number under the tested bounds, NaN included.\<close>

definition num_in :: "(pyfloat \<Rightarrow> bool) \<Rightarrow> pyval \<Rightarrow> bool" where
  "num_in P v \<longleftrightarrow> (\<exists>x. number v = Inr x \<and> (x = Nan \<or> P x))"

definition section_of :: "(string \<times> pyval) list \<Rightarrow> string \<Rightarrow> (string \<times> pyval) list" where
  "section_of cfg name = (case map_of cfg name of Some (PDict d) \<Rightarrow> d | _ \<Rightarrow> [])"

definition ok_key :: "(string \<times> pyval) list \<Rightarrow> string \<Rightarrow> string \<Rightarrow> (pyval \<Rightarrow> bool) \<Rightarrow> bool" where
  "ok_key cfg section key P \<longleftrightarrow> (\<forall>v. map_of (section_of cfg section) key = Some v \<longrightarrow> P v)"

definition acceptable :: "(string \<times> pyval) list \<Rightarrow> bool" where
  "acceptable cfg \<longleftrightarrow>
     map_of cfg ''edge'' \<noteq> None \<and> map_of cfg ''central'' \<noteq> None \<and>
     ok_key cfg ''edge'' ''fps'' (num_in (\<lambda>x. Fin 0 < x \<and> x \<le> Fin 120)) \<and>
     ok_key cfg ''edge'' ''confidence_threshold'' (num_in (\<lambda>x. Fin 0 \<le> x \<and> x \<le> Fin 1)) \<and>
     ok_key cfg ''edge'' ''nms_threshold'' (num_in (\<lambda>x. Fin 0 \<le> x \<and> x \<le> Fin 1)) \<and>
     ok_key cfg ''central'' ''port'' (\<lambda>v. is_int v \<and> num_in (\<lambda>x. Fin 1 \<le> x \<and> x \<le> Fin 65535) v) \<and>
     ok_key cfg ''central'' ''inference_mode'' (\<lambda>v. v \<in> {PStr ''llm'', PStr ''vlm''}) \<and>
     ok_key cfg ''storage'' ''retention_days'' (num_in (\<lambda>x. Fin 1 \<le> x)) \<and>
     (truthy (or_else (map_of (section_of cfg ''tls'') ''enabled'') PNone) \<longrightarrow>
        (\<forall>c \<in> set required_certs. truthy (or_else (map_of (section_of cfg ''tls'') c) PNone))) \<and>
     ok_key cfg ''circuit_breaker'' ''failure_threshold'' (\<lambda>v. is_int v \<and> num_in (\<lambda>x. Fin 1 \<le> x) v) \<and>
     ok_key cfg ''circuit_breaker'' ''recovery_timeout'' (num_in (\<lambda>x. Fin 1 \<le> x)) \<and>
     ok_key cfg ''ab_test'' ''traffic_split'' (num_in (\<lambda>x. Fin 0 \<le> x \<and> x \<le> Fin 1)) \<and>
     ok_key cfg ''anomaly'' ''z_score_threshold'' (num_in (\<lambda>x. Fin 1 \<le> x))"

subsection \<open>Lemmas\<close>

lemma collect_clean: "collect cs = Inr [] \<longleftrightarrow> (\<forall>c \<in> set cs. c = Inr [])"
  by (induction cs) (auto split: sum.splits)

lemma collect_total: "(\<forall>c \<in> set cs. \<exists>ms. c = Inr ms) \<Longrightarrow> \<exists>ms. collect cs = Inr ms"
  by (induction cs) (auto split: sum.splits)

definition sections_read :: "string list" where
  "sections_read = [''edge'', ''central'', ''storage'', ''tls'', ''circuit_breaker'', ''ab_test'', ''anomaly'']"

definition sections_are_dicts :: "(string \<times> pyval) list \<Rightarrow> bool" where
  "sections_are_dicts cfg \<longleftrightarrow> (\<forall>s \<in> set sections_read. \<forall>v. map_of cfg s = Some v \<longrightarrow> is_pydict v)"

lemma section_lookup:
  assumes "sections_are_dicts cfg" and "s \<in> set sections_read"
  shows "get_or s (PDict []) (PDict cfg) = Inr (PDict (section_of cfg s))"
proof (cases "map_of cfg s")
  case (Some v)
  with assms have "is_pydict v" by (auto simp: sections_are_dicts_def)
  with Some show ?thesis by (cases v) (simp_all add: get_or_def section_of_def)
qed (simp add: get_or_def section_of_def)

lemma section_check_eq:
  assumes "sections_are_dicts cfg" and "s \<in> set sections_read"
  shows "section_check (PDict cfg) s = Inr (if map_of cfg s = None then [''Missing '' @ in_quotes s @ '' section''] else [])"
proof (cases "map_of cfg s")
  case (Some v)
  with assms have "is_pydict v" by (auto simp: sections_are_dicts_def)
  with Some show ?thesis by (simp add: section_check_def index_def)
qed (simp add: section_check_def)

lemma key_check_eq:
  assumes "sections_are_dicts cfg" and "s \<in> set sections_read"
  shows "key_check (PDict cfg) s key bad msg =
    Inr (case map_of (section_of cfg s) key of None \<Rightarrow> [] | Some v \<Rightarrow> if bad v then [msg] else [])"
  by (simp add: key_check_def section_lookup [OF assms] index_def split: option.split)

lemma key_check_clean:
  assumes "sections_are_dicts cfg" and "s \<in> set sections_read" and "\<And>v. bad v \<longleftrightarrow> \<not> P v"
  shows "key_check (PDict cfg) s key bad msg = Inr [] \<longleftrightarrow> ok_key cfg s key P"
  by (auto simp: key_check_eq [OF assms(1,2)] ok_key_def assms(3) split: option.splits)

lemma tls_check_eq:
  assumes "sections_are_dicts cfg"
  shows "tls_check (PDict cfg) =
    (if truthy (or_else (map_of (section_of cfg ''tls'') ''enabled'') PNone)
     then collect (map (\<lambda>c. Inr (if truthy (or_else (map_of (section_of cfg ''tls'') c) PNone) then []
            else [''tls.'' @ c @ '' is required when TLS is enabled''])) required_certs)
     else Inr [])"
  using section_lookup [OF assms, of "''tls''"]
  by (simp add: tls_check_def sections_read_def get_or_def or_else_def)

lemma bad_number_iff: "(\<And>x. out x \<longleftrightarrow> \<not> (x = Nan \<or> P x)) \<Longrightarrow> bad_number out v \<longleftrightarrow> \<not> num_in P v"
  by (simp add: bad_number_def num_in_def split: sum.split)

lemma bounds_iff:
  "outside a b x \<longleftrightarrow> \<not> (x = Nan \<or> (Fin a \<le> x \<and> x \<le> Fin b))"
  "(x \<le> Fin 0 \<or> Fin 120 < x) \<longleftrightarrow> \<not> (x = Nan \<or> (Fin 0 < x \<and> x \<le> Fin 120))"
  "x < Fin a \<longleftrightarrow> \<not> (x = Nan \<or> Fin a \<le> x)"
  by (cases x; auto simp: outside_def less_pyfloat_def)+

lemmas bad_iffs = bad_number_iff [OF bounds_iff(1)] bad_number_iff [OF bounds_iff(2)] bad_number_iff [OF bounds_iff(3)]

lemma bad_int_iff:
  "bad_int (outside a b) v \<longleftrightarrow> \<not> (is_int v \<and> num_in (\<lambda>x. Fin a \<le> x \<and> x \<le> Fin b) v)"
  "bad_int (\<lambda>x. x < Fin a) v \<longleftrightarrow> \<not> (is_int v \<and> num_in (\<lambda>x. Fin a \<le> x) v)"
  by (simp_all add: bad_int_def bad_iffs)

text \<open>
  Claim C40. On a configuration whose sections are dictionaries the dashboard's validation
  returns, and its list of messages is empty exactly when the configuration satisfies the
  written-out specification. A NaN passes every range test.
\<close>

theorem dashboard_validation_spec:
  assumes "sections_are_dicts cfg"
  shows "\<exists>ms. validate_config (PDict cfg) = Inr ms \<and> (ms = [] \<longleftrightarrow> acceptable cfg)"
proof -
  note clean = key_check_clean [OF assms]
  have mem: "s \<in> set sections_read" if "s \<in> {''edge'', ''central'', ''storage'', ''tls'', ''circuit_breaker'', ''ab_test'', ''anomaly''}" for s
    using that by (auto simp: sections_read_def)
  have tls: "\<exists>ms. tls_check (PDict cfg) = Inr ms"
    unfolding tls_check_eq [OF assms] by (auto intro!: collect_total)
  have "\<exists>ms. validate_config (PDict cfg) = Inr ms"
    unfolding validate_config_def
    by (rule collect_total) (simp add: section_check_eq [OF assms] key_check_eq [OF assms] mem tls)
  moreover have "validate_config (PDict cfg) = Inr [] \<longleftrightarrow> acceptable cfg"
    unfolding validate_config_def collect_clean acceptable_def
    by (simp add: clean [OF mem bad_iffs(1)] clean [OF mem bad_iffs(2)] clean [OF mem bad_iffs(3)]
        clean [OF mem bad_int_iff(1)] clean [OF mem bad_int_iff(2)] clean [OF mem, where P = "\<lambda>v. v = PStr _ \<or> v = PStr _"]
        section_check_eq [OF assms] mem tls_check_eq [OF assms] collect_clean)
  ultimately show ?thesis by auto
qed

theorem dashboard_validation_spec_witness:
  "\<exists>ms. validate_config (PDict [(''edge'', PDict [(''fps'', PInt 30)]), (''central'', PDict [])]) = Inr ms \<and> ms = []"
proof -
  have "sections_are_dicts [(''edge'', PDict [(''fps'', PInt 30)]), (''central'', PDict [])]"
    by (simp add: sections_are_dicts_def sections_read_def)
  moreover have "acceptable [(''edge'', PDict [(''fps'', PInt 30)]), (''central'', PDict [])]"
    by (simp add: acceptable_def ok_key_def section_of_def num_in_def or_else_def)
  ultimately show ?thesis using dashboard_validation_spec by blast
qed

text \<open>A configuration that the dashboard lets through and the server does not start with.\<close>

definition refused_later :: pyval where
  "refused_later = PDict
     [(''edge'', PDict [(''fps'', PFloat (Fin (1/2))), (''confidence_threshold'', PFloat Nan)]),
      (''central'', PDict []), (''metrics'', PDict [(''port'', PInt 0)])]"

text \<open>
  The dashboard's validation is weaker than the server's and than its own messages: it
  accepts a frame rate of one half, a NaN threshold and a metrics port of 0, and the last of
  these makes the server refuse the configuration; and a section that is a number makes it raise
  a \<open>TypeError\<close> right after the message that the section must be an object.
\<close>

theorem dashboard_check_too_weak:
  "validate_config refused_later = Inr [] \<and>
   (\<exists>cfg m. from_yaml rep (Some (Inr refused_later)) = Inr cfg \<and> validate rep ex cfg = Inl (Config_Error m)) \<and>
   section_check (PDict [(''edge'', PInt 5), (''central'', PDict [])]) ''edge'' =
     Inr [in_quotes ''edge'' @ '' must be an object''] \<and>
   (\<exists>m. validate_config (PDict [(''edge'', PInt 5), (''central'', PDict [])]) = Inl (Type_Error m))"
proof (intro conjI)
  show "validate_config refused_later = Inr []"
    by (simp add: validate_config_def refused_later_def section_check_def key_check_def index_def get_or_def
        bad_number_def outside_def tls_check_def less_pyfloat_def)
  show "\<exists>cfg m. from_yaml rep (Some (Inr refused_later)) = Inr cfg \<and> validate rep ex cfg = Inl (Config_Error m)"
    by (simp add: refused_later_def from_yaml_eq mapping_of_def schema_defs coerce_scalar.simps validate_def reads_def
        attr2_def check_port_def check_def between_def reject_if_def less_eq_pyfloat.simps)
qed (simp_all add: section_check_def validate_config_def index_def key_check_def get_or_def)

end
