(* ===== verification/Reid.thy ===== *)
theory Reid
  imports Py_Text
begin

text \<open>
  Cross-camera re-identification, \<open>analytics/reid_engine.py\<close>: features of detected objects with
  the track they belong to, and the tracks with their sightings. The lemmas bound the cosine
  similarity and show the link between the feature store and the tracks that \<open>register_feature\<close>
  relies on when it looks a track up.
\<close>

subsection \<open>State\<close>

record feature =
  f_device :: string
  f_class :: string
  f_vector :: "real list"
  f_timestamp :: real
  f_track :: string

record sighting =
  si_device :: string
  si_timestamp :: real
  si_similarity :: real

record track =
  track_id :: string
  track_class :: string
  sightings :: "sighting list"

record reid_match =
  source_device :: string
  target_device :: string
  similarity :: real
  source_timestamp :: real
  target_timestamp :: real
  match_class :: string

record reid_engine =
  threshold :: real
  time_window :: real
  feature_store :: "feature list"
  tracks :: "(string, track) pydict"
  next_track_id :: nat

definition new_reid_engine :: "real \<Rightarrow> real \<Rightarrow> reid_engine" where
  "new_reid_engine thr window = \<lparr>threshold = thr, time_window = window, feature_store = [],
     tracks = [], next_track_id = 1\<rparr>"

subsection \<open>Operations\<close>

definition dot :: "real list \<Rightarrow> real list \<Rightarrow> real" where
  "dot a b = sum_list (map (\<lambda>(x, y). x * y) (zip a b))"

definition cosine_similarity :: "real list \<Rightarrow> real list \<Rightarrow> real" where
  "cosine_similarity a b =
     (if length a \<noteq> length b \<or> a = [] then 0
      else let norm_a = sqrt (dot a a); norm_b = sqrt (dot b b)
           in if norm_a = 0 \<or> norm_b = 0 then 0 else dot a b / (norm_a * norm_b))"

text \<open>The loop that keeps the first of the best matches, with its two variables.\<close>

fun best_match ::
    "real \<Rightarrow> real \<Rightarrow> string \<Rightarrow> string \<Rightarrow> real list \<Rightarrow> feature option \<Rightarrow> real \<Rightarrow> feature list
       \<Rightarrow> feature option \<times> real" where
  "best_match thr cutoff dev cls vec best sim [] = (best, sim)"
| "best_match thr cutoff dev cls vec best sim (f # fs) =
     (if f_device f = dev \<or> f_timestamp f < cutoff \<or> f_class f \<noteq> cls
      then best_match thr cutoff dev cls vec best sim fs
      else let s = cosine_similarity vec (f_vector f)
           in if thr \<le> s \<and> sim < s then best_match thr cutoff dev cls vec (Some f) s fs
              else best_match thr cutoff dev cls vec best sim fs)"

definition prune_old :: "reid_engine \<Rightarrow> real \<Rightarrow> reid_engine" where
  "prune_old e now =
     e\<lparr>feature_store := filter (\<lambda>f. now - time_window e * 2 \<le> f_timestamp f) (feature_store e)\<rparr>"

definition new_track_name :: "nat \<Rightarrow> string" where
  "new_track_name n = ''track-'' @ pad4 n"

definition register_feature ::
    "reid_engine \<Rightarrow> string \<Rightarrow> string \<Rightarrow> real list \<Rightarrow> real \<Rightarrow> real \<Rightarrow> exn + (string \<times> reid_engine)" where
  "register_feature e dev cls vec timestamp now =
     (let ts = (if timestamp = 0 then now else timestamp);
          (best, sim) = best_match (threshold e) (ts - time_window e) dev cls vec None 0 (feature_store e)
      in case best of
          Some m \<Rightarrow>
            (case map_of (tracks e) (f_track m) of
               None \<Rightarrow> Inl (Key_Error (f_track m))
             | Some t \<Rightarrow>
                 let t1 = t\<lparr>sightings := sightings t @
                       [\<lparr>si_device = dev, si_timestamp = ts, si_similarity = sim\<rparr>]\<rparr>;
                     f = \<lparr>f_device = dev, f_class = cls, f_vector = vec, f_timestamp = ts,
                          f_track = f_track m\<rparr>
                 in Inr (f_track m, prune_old (e\<lparr>tracks := AList.update (f_track m) t1 (tracks e),
                      feature_store := feature_store e @ [f]\<rparr>) ts))
        | None \<Rightarrow>
            let tid = new_track_name (next_track_id e);
                t = \<lparr>track_id = tid, track_class = cls, sightings =
                      [\<lparr>si_device = dev, si_timestamp = ts, si_similarity = 1\<rparr>]\<rparr>;
                f = \<lparr>f_device = dev, f_class = cls, f_vector = vec, f_timestamp = ts, f_track = tid\<rparr>
            in Inr (tid, prune_old (e\<lparr>next_track_id := Suc (next_track_id e),
                 tracks := AList.update tid t (tracks e),
                 feature_store := feature_store e @ [f]\<rparr>) ts))"

definition find_matches ::
    "reid_engine \<Rightarrow> real list \<Rightarrow> string \<Rightarrow> string \<Rightarrow> int \<Rightarrow> real \<Rightarrow> reid_match list" where
  "find_matches e vec cls exclude top_k now =
     (let candidates = filter (\<lambda>f. \<not> f_timestamp f < now - time_window e \<and>
                (exclude \<noteq> '''' \<longrightarrow> f_device f \<noteq> exclude) \<and> (cls \<noteq> '''' \<longrightarrow> f_class f = cls) \<and>
                threshold e \<le> cosine_similarity vec (f_vector f)) (feature_store e);
          matches = map (\<lambda>f. \<lparr>source_device = exclude, target_device = f_device f,
                similarity = cosine_similarity vec (f_vector f), source_timestamp = now,
                target_timestamp = f_timestamp f, match_class = f_class f\<rparr>) candidates
      in slice_to (sort_key (\<lambda>m. - similarity m) matches) top_k)"

definition get_track :: "reid_engine \<Rightarrow> string \<Rightarrow> track option" where
  "get_track e tid = map_of (tracks e) tid"

definition list_tracks :: "reid_engine \<Rightarrow> int \<Rightarrow> track list" where
  "list_tracks e n = filter (\<lambda>t. n \<le> int (length (sightings t))) (map snd (tracks e))"

subsection \<open>The similarity is at most one\<close>

lemma dot_self_nonneg [simp]: "0 \<le> dot a a"
  by (induction a) (auto simp: dot_def)

lemma dot_Cons [simp]: "dot (x # xs) (y # ys) = x * y + dot xs ys"
  by (simp add: dot_def)

lemma dot_Nil [simp]: "dot [] ys = 0"
  by (simp add: dot_def)

lemma quadratic_nonneg:
  "length a = length b \<Longrightarrow> 0 \<le> t\<^sup>2 * dot a a + 2 * t * dot a b + dot b b"
proof (induction a b rule: list_induct2)
  case (Cons x xs y ys)
  have "0 \<le> (t * x + y)\<^sup>2" by simp
  with Cons.IH show ?case by (simp add: power2_eq_square algebra_simps)
qed simp

lemma cauchy_schwarz: "length a = length b \<Longrightarrow> (dot a b)\<^sup>2 \<le> dot a a * dot b b"
proof -
  assume len: "length a = length b"
  show ?thesis
  proof (cases "dot a a = 0")
    case True
    have "0 \<le> 2 * t * dot a b + dot b b" for t
      using quadratic_nonneg [OF len, of t] True by simp
    from this [of "- (dot b b + 1) / (2 * dot a b)"] have "dot a b = 0"
      by (cases "dot a b = 0") (simp_all add: field_simps)
    with True show ?thesis by simp
  next
    case False
    then have "0 < dot a a" using dot_self_nonneg [of a] by linarith
    moreover have "0 \<le> (- dot a b / dot a a)\<^sup>2 * dot a a + 2 * (- dot a b / dot a a) * dot a b + dot b b"
      by (rule quadratic_nonneg [OF len])
    ultimately show ?thesis by (simp add: power2_eq_square field_simps)
  qed
qed

lemma cosine_similarity_bounds: "\<bar>cosine_similarity a b\<bar> \<le> 1"
proof (cases "length a \<noteq> length b \<or> a = [] \<or> sqrt (dot a a) = 0 \<or> sqrt (dot b b) = 0")
  case True
  then show ?thesis by (auto simp: cosine_similarity_def Let_def)
next
  case False
  then have pos: "0 < sqrt (dot a a) * sqrt (dot b b)"
    using dot_self_nonneg [of a] dot_self_nonneg [of b] by (auto simp: less_le)
  have "\<bar>dot a b\<bar> = sqrt ((dot a b)\<^sup>2)" by simp
  also have "\<dots> \<le> sqrt (dot a a * dot b b)" using cauchy_schwarz False by (intro real_sqrt_le_mono) blast
  finally have "\<bar>dot a b\<bar> \<le> sqrt (dot a a) * sqrt (dot b b)" by (simp add: real_sqrt_mult)
  then show ?thesis using False pos by (auto simp: cosine_similarity_def Let_def abs_mult)
qed

lemma cosine_self: "a \<noteq> [] \<Longrightarrow> dot a a \<noteq> 0 \<Longrightarrow> cosine_similarity a a = 1"
  by (simp add: cosine_similarity_def Let_def)

subsection \<open>The feature store and the tracks agree\<close>

lemma best_match_from:
  assumes "best_match thr cutoff dev cls vec best sim fs = (Some m, s)"
  shows "(best = Some m \<and> s = sim) \<or>
    (m \<in> set fs \<and> f_device m \<noteq> dev \<and> cutoff \<le> f_timestamp m \<and> f_class m = cls \<and> thr \<le> s \<and>
     sim < s \<and> s = cosine_similarity vec (f_vector m))"
  using assms
  by (induction fs arbitrary: best sim) (fastforce simp: Let_def split: if_splits)+

lemma best_match_is_best:
  assumes "best_match thr cutoff dev cls vec best sim fs = (r, s)"
  shows "sim \<le> s \<and> (\<forall>f \<in> set fs. f_device f \<noteq> dev \<and> cutoff \<le> f_timestamp f \<and> f_class f = cls \<and>
    thr \<le> cosine_similarity vec (f_vector f) \<longrightarrow> cosine_similarity vec (f_vector f) \<le> s)"
  using assms
  by (induction fs arbitrary: best sim) (fastforce simp: Let_def split: if_splits)+

lemma best_match_None_sim:
  "best_match thr cutoff dev cls vec None sim fs = (None, s) \<Longrightarrow> s = sim"
proof -
  have "best_match thr cutoff dev cls vec best sim fs = (None, s) \<Longrightarrow> best = None \<and> s = sim" for best
    by (induction fs arbitrary: best sim) (fastforce simp: Let_def split: if_splits)+
  then show "best_match thr cutoff dev cls vec None sim fs = (None, s) \<Longrightarrow> ?thesis" by blast
qed

definition reid_ok :: "reid_engine \<Rightarrow> bool" where
  "reid_ok e \<longleftrightarrow>
     (\<forall>f \<in> set (feature_store e). \<exists>t. map_of (tracks e) (f_track f) = Some t \<and> track_class t = f_class f) \<and>
     (\<forall>k t. map_of (tracks e) k = Some t \<longrightarrow> track_id t = k \<and> sightings t \<noteq> [] \<and>
        (\<exists>n < next_track_id e. k = new_track_name n)) \<and>
     dict_ok (tracks e)"

lemma reid_okD:
  assumes "reid_ok e"
  shows "f \<in> set (feature_store e) \<Longrightarrow>
      \<exists>t. map_of (tracks e) (f_track f) = Some t \<and> track_class t = f_class f"
    and "map_of (tracks e) k = Some t \<Longrightarrow> track_id t = k \<and> sightings t \<noteq> [] \<and>
      (\<exists>n < next_track_id e. k = new_track_name n)"
    and "dict_ok (tracks e)"
  using assms by (simp_all add: reid_ok_def)

lemma new_track_name_inj [simp]: "new_track_name m = new_track_name n \<longleftrightarrow> m = n"
  by (auto simp: new_track_name_def dest: pad4_inj)

lemma prune_old_fields [simp]:
  "tracks (prune_old e now) = tracks e" "next_track_id (prune_old e now) = next_track_id e"
  "set (feature_store (prune_old e now)) \<subseteq> set (feature_store e)"
  by (auto simp: prune_old_def)

lemma reid_ok_prune: "reid_ok e \<Longrightarrow> reid_ok (prune_old e now)"
  using prune_old_fields(3) [of e now] unfolding reid_ok_def by (simp add: subset_iff)

lemma fresh_track: "reid_ok e \<Longrightarrow> map_of (tracks e) (new_track_name (next_track_id e)) = None"
proof (rule ccontr)
  assume "reid_ok e" "map_of (tracks e) (new_track_name (next_track_id e)) \<noteq> None"
  then obtain t where "map_of (tracks e) (new_track_name (next_track_id e)) = Some t" by blast
  from reid_okD(2) [OF \<open>reid_ok e\<close> this] show False by simp
qed

lemma register_ok:
  assumes ok: "reid_ok e"
  shows "\<exists>tid e1. register_feature e dev cls vec timestamp now = Inr (tid, e1) \<and> reid_ok e1 \<and>
    next_track_id e \<le> next_track_id e1"
proof -
  define ts where "ts = (if timestamp = 0 then now else timestamp)"
  obtain best sim where bm:
    "best_match (threshold e) (ts - time_window e) dev cls vec None 0 (feature_store e) = (best, sim)"
    by fastforce
  show ?thesis
  proof (cases best)
    case (Some m)
    then have m: "m \<in> set (feature_store e)" "f_class m = cls"
      using best_match_from [OF bm [unfolded Some]] by auto
    then obtain t where t: "map_of (tracks e) (f_track m) = Some t" "track_class t = cls"
      using ok by (auto simp: reid_ok_def)
    let ?t1 = "t\<lparr>sightings := sightings t @ [\<lparr>si_device = dev, si_timestamp = ts, si_similarity = sim\<rparr>]\<rparr>"
    have "reid_ok (e\<lparr>tracks := AList.update (f_track m) ?t1 (tracks e), feature_store := feature_store e @
        [\<lparr>f_device = dev, f_class = cls, f_vector = vec, f_timestamp = ts, f_track = f_track m\<rparr>]\<rparr>)"
      using reid_okD(2) [OF ok t(1)] ok t by (auto simp: reid_ok_def)
    then show ?thesis
      using bm Some t by (simp add: register_feature_def Let_def ts_def reid_ok_prune)
  next
    case None
    let ?tid = "new_track_name (next_track_id e)"
    let ?t = "\<lparr>track_id = ?tid, track_class = cls, sightings =
        [\<lparr>si_device = dev, si_timestamp = ts, si_similarity = 1\<rparr>]\<rparr>"
    note fresh = fresh_track [OF ok]
    have "reid_ok (e\<lparr>next_track_id := Suc (next_track_id e), tracks := AList.update ?tid ?t (tracks e),
        feature_store := feature_store e @
        [\<lparr>f_device = dev, f_class = cls, f_vector = vec, f_timestamp = ts, f_track = ?tid\<rparr>]\<rparr>)"
      using ok fresh by (fastforce simp: reid_ok_def less_Suc_eq)
    then show ?thesis
      using bm None by (simp add: register_feature_def Let_def ts_def reid_ok_prune)
  qed
qed

datatype reid_op = Register_Feature string string "real list" real real

fun reid_step :: "reid_engine \<Rightarrow> reid_op \<Rightarrow> reid_engine" where
  "reid_step e (Register_Feature dev cls vec timestamp now) =
     (case register_feature e dev cls vec timestamp now of Inl _ \<Rightarrow> e | Inr (_, e1) \<Rightarrow> e1)"

interpretation reid: kept_invariant reid_step reid_ok
proof
  fix e op assume ok: "reid_ok e"
  obtain dev cls vec timestamp now where op: "op = Register_Feature dev cls vec timestamp now"
    by (cases op)
  from register_ok [OF ok, of dev cls vec timestamp now] show "reid_ok (reid_step e op)"
    by (auto simp: op)
qed


lemma register_track:
  assumes ok: "reid_ok e" and "timestamp \<noteq> 0"
    and bm: "best_match (threshold e) (timestamp - time_window e) dev cls vec None 0 (feature_store e) = (best, sim)"
    and r: "register_feature e dev cls vec timestamp now = Inr (tid, e1)"
  shows "(case best of
      Some m \<Rightarrow> tid = f_track m \<and> next_track_id e1 = next_track_id e
    | None \<Rightarrow> tid = new_track_name (next_track_id e) \<and> next_track_id e1 = Suc (next_track_id e) \<and>
        map_of (tracks e) tid = None) \<and>
    (\<exists>t. map_of (tracks e1) tid = Some t \<and> track_class t = cls \<and>
      si_device (last (sightings t)) = dev \<and> si_timestamp (last (sightings t)) = timestamp)"
proof (cases best)
  case (Some m)
  then have "m \<in> set (feature_store e)" "f_class m = cls"
    using best_match_from [OF bm [unfolded Some]] by auto
  then obtain t where "map_of (tracks e) (f_track m) = Some t" "track_class t = cls"
    using reid_okD(1) [OF ok] by blast
  then show ?thesis
    using r bm Some assms(2) by (auto simp: register_feature_def Let_def)
next
  case None
  then show ?thesis
    using r bm fresh_track [OF ok] assms(2) by (auto simp: register_feature_def Let_def)
qed

subsection \<open>Properties\<close>

text \<open>
  From a fresh engine, after any registrations, one more never raises a \<open>KeyError\<close>:
  the feature joins the track of a feature that another device registered within the time
  window, of the same class, whose similarity is at least the threshold and at least that of
  every other such feature; and when there is none, a track with a name never used before is
  created. Either way the track's class is the feature's class.
\<close>

theorem reid_registration:
  assumes e: "e = foldl reid_step (new_reid_engine thr window) ops" and "timestamp \<noteq> 0" and "0 < thr"
    and c: "candidates = filter (\<lambda>f. f_device f \<noteq> dev \<and> timestamp - window \<le> f_timestamp f \<and>
      f_class f = cls \<and> thr \<le> cosine_similarity vec (f_vector f)) (feature_store e)"
  shows "\<exists>tid e1. register_feature e dev cls vec timestamp now = Inr (tid, e1) \<and>
    (candidates \<noteq> [] \<longrightarrow> (\<exists>m \<in> set candidates. tid = f_track m \<and>
      (\<forall>f \<in> set candidates. cosine_similarity vec (f_vector f) \<le> cosine_similarity vec (f_vector m)))) \<and>
    (candidates = [] \<longrightarrow> map_of (tracks e) tid = None) \<and>
    (\<exists>t. map_of (tracks e1) tid = Some t \<and> track_class t = cls \<and>
      si_device (last (sightings t)) = dev)"
proof -
  have ok: "reid_ok e" unfolding e
    by (rule reid.run_keeps) (simp add: reid_ok_def new_reid_engine_def)
  have fixed: "threshold (foldl reid_step e0 ops) = threshold e0 \<and>
      time_window (foldl reid_step e0 ops) = time_window e0" for e0
  proof (induction ops arbitrary: e0)
    case (Cons op ops)
    have "threshold (reid_step e0 op) = threshold e0 \<and> time_window (reid_step e0 op) = time_window e0"
      by (cases op) (auto simp: register_feature_def prune_old_def Let_def
          split: sum.splits prod.splits option.splits)
    with Cons show ?case by simp
  qed simp
  have p: "threshold e = thr" "time_window e = window"
    using fixed [of "new_reid_engine thr window"] by (simp_all add: e new_reid_engine_def)
  obtain best sim where bm: "best_match thr (timestamp - window) dev cls vec None 0 (feature_store e) = (best, sim)"
    by fastforce
  obtain tid e1 where r: "register_feature e dev cls vec timestamp now = Inr (tid, e1)"
    using register_ok [OF ok] by blast
  note tr = register_track [OF ok assms(2) bm [folded p] r]
  have "f \<in> set candidates \<Longrightarrow> cosine_similarity vec (f_vector f) \<le> sim" for f
    using best_match_is_best [OF bm] by (auto simp: c)
  moreover have "\<exists>m. best = Some m \<and> m \<in> set candidates \<and> sim = cosine_similarity vec (f_vector m)"
    if "candidates \<noteq> []"
  proof (cases best)
    case None
    then have "sim = 0" using bm best_match_None_sim by blast
    with calculation that \<open>0 < thr\<close> show ?thesis by (fastforce simp: c filter_empty_conv)
  next
    case (Some m)
    with best_match_from [OF bm [unfolded Some]] show ?thesis by (auto simp: c)
  qed
  moreover have "best = None" if "candidates = []"
  proof (cases best)
    case (Some m)
    with best_match_from [OF bm [unfolded Some]] that show ?thesis by (auto simp: c filter_empty_conv)
  qed simp
  ultimately have "candidates \<noteq> [] \<Longrightarrow> \<exists>m \<in> set candidates. tid = f_track m \<and>
      (\<forall>f \<in> set candidates. cosine_similarity vec (f_vector f) \<le> cosine_similarity vec (f_vector m))"
    and "candidates = [] \<Longrightarrow> map_of (tracks e) tid = None"
    using tr by fastforce+
  with r tr show ?thesis by (intro exI [of _ tid] exI [of _ e1]) blast
qed

theorem reid_registration_witness:
  "\<exists>tid e1. register_feature (foldl reid_step (new_reid_engine (1/2) 300)
       [Register_Feature ''cam1'' ''person'' [1] 10 0]) ''cam2'' ''person'' [2] 20 0 = Inr (tid, e1)"
  using reid_registration [OF refl _ _ refl, of 20 "1/2"] by fastforce

text \<open>
  Similarities lie between -1 and 1, a vector that is not zero has similarity 1 with
  itself, and \<open>find_matches\<close> returns the best matches first: at most \<open>top_k\<close> of them, each from
  the time window, of the class asked for, not from the excluded device, and at or above the
  threshold.
\<close>

theorem find_matches_sound:
  assumes "0 \<le> top_k" and ms: "ms = find_matches e vec cls exclude top_k now"
  shows "(\<forall>a b. -1 \<le> cosine_similarity a b \<and> cosine_similarity a b \<le> 1) \<and>
    (\<forall>a. a \<noteq> [] \<and> dot a a \<noteq> 0 \<longrightarrow> cosine_similarity a a = 1) \<and>
    int (length ms) \<le> top_k \<and> sorted_wrt (\<lambda>a b. similarity b \<le> similarity a) ms \<and>
    (\<forall>m \<in> set ms. threshold e \<le> similarity m \<and> similarity m \<le> 1 \<and>
      now - time_window e \<le> target_timestamp m \<and>
      (exclude \<noteq> '''' \<longrightarrow> target_device m \<noteq> exclude) \<and> (cls \<noteq> '''' \<longrightarrow> match_class m = cls))"
proof -
  have bounds: "-1 \<le> cosine_similarity a b \<and> cosine_similarity a b \<le> 1" for a b
    using cosine_similarity_bounds [of a b] by linarith
  have "sorted (map (\<lambda>m. - similarity m) ms)"
    using assms by (auto simp: find_matches_def Let_def slice_to_def take_map [symmetric]
        intro: sorted_wrt_take)
  then have "sorted_wrt (\<lambda>a b. similarity b \<le> similarity a) ms" by (simp add: sorted_wrt_map)
  moreover have "\<forall>m \<in> set ms. threshold e \<le> similarity m \<and> similarity m \<le> 1 \<and>
      now - time_window e \<le> target_timestamp m \<and>
      (exclude \<noteq> '''' \<longrightarrow> target_device m \<noteq> exclude) \<and> (cls \<noteq> '''' \<longrightarrow> match_class m = cls)"
  proof
    fix m assume "m \<in> set ms"
    let ?g = "\<lambda>f. \<lparr>source_device = exclude, target_device = f_device f,
        similarity = cosine_similarity vec (f_vector f), source_timestamp = now,
        target_timestamp = f_timestamp f, match_class = f_class f\<rparr>"
    let ?P = "\<lambda>f. \<not> f_timestamp f < now - time_window e \<and>
        (exclude \<noteq> '''' \<longrightarrow> f_device f \<noteq> exclude) \<and> (cls \<noteq> '''' \<longrightarrow> f_class f = cls) \<and>
        threshold e \<le> cosine_similarity vec (f_vector f)"
    have "set ms \<subseteq> ?g ` set (filter ?P (feature_store e))"
      unfolding ms find_matches_def Let_def by (rule order_trans [OF set_slice_to]) simp
    then have "m \<in> ?g ` set (filter ?P (feature_store e))" using \<open>m \<in> set ms\<close> by (rule subsetD)
    then obtain f where "m = ?g f" "f \<in> set (filter ?P (feature_store e))" by (rule imageE)
    then have "m = ?g f" "?P f" by simp_all
    then show "threshold e \<le> similarity m \<and> similarity m \<le> 1 \<and>
      now - time_window e \<le> target_timestamp m \<and>
      (exclude \<noteq> '''' \<longrightarrow> target_device m \<noteq> exclude) \<and> (cls \<noteq> '''' \<longrightarrow> match_class m = cls)"
      using bounds by simp
  qed
  moreover have "int (length ms) \<le> top_k"
    unfolding ms find_matches_def Let_def by (rule length_slice_to_le [OF assms(1)])
  ultimately show ?thesis using bounds cosine_self by blast
qed

theorem find_matches_sound_witness:
  "find_matches (new_reid_engine 1 1) [1] '''' '''' 0 5 = [] \<and> cosine_similarity [3, 4] [3, 4] = 1"
  using find_matches_sound [OF _ refl, of 0 "new_reid_engine 1 1" "[1]" "''''" "''''" 5]
  by simp

end
