(* ===== verification/Report.thy ===== *)
theory Report
  imports Behavior Config_Loader
begin

text \<open>
  Event reports, \<open>analytics/report_generator.py\<close>. The store's query and \<open>repr\<close> of floats in
  JSON are parameters; the three readings of the clock are arguments. A cloud client that has no
  method \<open>upload_report\<close> is \<open>Some None\<close>.
\<close>

subsection \<open>Reports\<close>

record report_section =
  title :: string
  section_content :: string
  event_count :: nat
  severity :: string

record event_report =
  report_id :: string
  report_device :: string
  time_range_hours :: real
  generated_at :: real
  sections :: "report_section list"
  total_events :: nat
  summary :: string

definition to_dict :: "event_report \<Rightarrow> pyval" where
  "to_dict r = PDict
     [(''report_id'', PStr (report_id r)), (''device_id'', PStr (report_device r)),
      (''time_range_hours'', PFloat (Fin (time_range_hours r))),
      (''generated_at'', PFloat (Fin (generated_at r))),
      (''total_events'', PInt (int (total_events r))), (''summary'', PStr (summary r)),
      (''sections'', PList (map (\<lambda>s. PDict
         [(''title'', PStr (title s)), (''content'', PStr (section_content s)),
          (''event_count'', PInt (int (event_count s))), (''severity'', PStr (severity s))]) (sections r)))]"

definition of_type :: "string \<Rightarrow> det_row list \<Rightarrow> det_row list" where
  "of_type t rows = filter (\<lambda>r. row_event_type r = t) rows"

definition distribution :: "det_row list \<Rightarrow> (string \<times> nat) list" where
  "distribution rows = take 10 (sort_key (\<lambda>(c, n). - int n) (class_counts (concat (map row_detections rows))))"

definition detection_section :: "det_row list \<Rightarrow> report_section list" where
  "detection_section rows =
     (if rows = [] then []
      else [\<lparr>title = ''Detection Summary'',
             section_content = ''Detection class distribution:'' @ [newline] @
               concat (map (\<lambda>(c, n). ''  '' @ c @ '': '' @ dec n @ [newline]) (distribution rows)),
             event_count = length rows, severity = ''info''\<rparr>])"

text \<open>A stored event without an analysis has \<open>None\<close> there, which cannot be sliced.\<close>

definition none_slice :: exn where
  "none_slice = Type_Error ''NoneType object is not subscriptable''"

fun vlm_lines :: "det_row list \<Rightarrow> exn + string list" where
  "vlm_lines [] = Inr []"
| "vlm_lines (r # rows) =
     (case row_vlm_result r of
        None \<Rightarrow> Inl none_slice
      | Some v \<Rightarrow> (case vlm_lines rows of
            Inl e \<Rightarrow> Inl e
          | Inr ls \<Rightarrow> Inr ((''  ['' @ or_else (row_rule_matched r) ''None'' @ ''] '' @ take 120 v) # ls)))"

definition vlm_section :: "bool \<Rightarrow> det_row list \<Rightarrow> exn + report_section list" where
  "vlm_section include_vlm rows =
     (if \<not> include_vlm \<or> rows = [] then Inr []
      else case vlm_lines (take 20 rows) of
          Inl e \<Rightarrow> Inl e
        | Inr ls \<Rightarrow> Inr [\<lparr>title = ''VLM Analysis Highlights'', section_content = join [newline] ls,
                         event_count = length rows, severity = ''info''\<rparr>])"

definition counted_section :: "string \<Rightarrow> string \<Rightarrow> string \<Rightarrow> det_row list \<Rightarrow> report_section list" where
  "counted_section name what sev rows =
     (if rows = [] then []
      else [\<lparr>title = name, section_content = dec (length rows) @ what,
             event_count = length rows, severity = sev\<rparr>])"

definition generate_report ::
    "event_query option \<Rightarrow> string \<Rightarrow> real \<Rightarrow> bool \<Rightarrow> real \<Rightarrow> real \<Rightarrow> real \<Rightarrow> exn + event_report" where
  "generate_report st dev hours include_vlm now_id now_made now =
     (let report = \<lparr>report_id = ''rpt-'' @ (if dev = '''' then ''all'' else dev) @ ''-'' @
              str_int (trunc_int now_id), report_device = dev, time_range_hours = hours,
            generated_at = now_made, sections = [], total_events = 0, summary = ''''\<rparr>
      in case st of
          None \<Rightarrow> Inr (report\<lparr>summary := ''No detection store available.''\<rparr>)
        | Some query \<Rightarrow>
          (case query (now - hours * 3600) 0 1000 dev of
            Inl e \<Rightarrow> Inl e
          | Inr events \<Rightarrow>
              if events = [] then Inr (report\<lparr>summary :=
                ''No events in the last '' @ fmt_fixed 0 hours @ ''h.''\<rparr>)
              else
                let dets = of_type ''detection'' events;
                    vlm = of_type ''vlm_analysis'' events;
                    behavior = of_type ''behavior_alert'' events;
                    anomalies = of_type ''anomaly_alert'' events
                in case vlm_section include_vlm vlm of
                    Inl e \<Rightarrow> Inl e
                  | Inr vs \<Rightarrow> Inr (report\<lparr>total_events := length events,
                      sections := detection_section dets @ vs @
                        counted_section ''Behavior Alerts'' '' behavior alerts detected.'' ''warning'' behavior @
                        counted_section ''Anomalies'' '' anomalous events detected.'' ''critical'' anomalies,
                      summary := ''Report for '' @ (if dev = '''' then ''all devices'' else dev) @ '': '' @
                        dec (length dets) @ '' detections, '' @ dec (length vlm) @ '' VLM analyses, '' @
                        dec (length behavior) @ '' behavior alerts, '' @ dec (length anomalies) @
                        '' anomalies over '' @ fmt_fixed 0 hours @ ''h.''\<rparr>)))"

text \<open>\<open>upload id text\<close> is the result of the client's method; every error but a cancellation is logged.\<close>

definition generate_and_upload ::
    "event_query option \<Rightarrow> (string \<Rightarrow> pyval \<Rightarrow> exn + string) option option \<Rightarrow> string \<Rightarrow> real
       \<Rightarrow> real \<Rightarrow> real \<Rightarrow> real \<Rightarrow> exn + string option" where
  "generate_and_upload st cloud dev hours now_id now_made now =
     (case generate_report st dev hours True now_id now_made now of
        Inl e \<Rightarrow> Inl e
      | Inr report \<Rightarrow>
          (case cloud of
             Some (Some upload) \<Rightarrow>
               (case upload (report_id report) (to_dict report) of
                  Inr key \<Rightarrow> Inr (Some key)
                | Inl e \<Rightarrow> if is_exception e then Inr None else Inl e)
           | _ \<Rightarrow> Inr None))"

subsection \<open>Lemmas\<close>

text \<open>What a section says, without its text.\<close>

definition headline :: "report_section \<Rightarrow> string \<times> nat \<times> string" where
  "headline s = (title s, event_count s, severity s)"

definition expected_headlines :: "bool \<Rightarrow> det_row list \<Rightarrow> (string \<times> nat \<times> string) list" where
  "expected_headlines include_vlm events = filter (\<lambda>(_, n, _). 0 < n)
     [(''Detection Summary'', length (of_type ''detection'' events), ''info''),
      (''VLM Analysis Highlights'', (if include_vlm then length (of_type ''vlm_analysis'' events) else 0), ''info''),
      (''Behavior Alerts'', length (of_type ''behavior_alert'' events), ''warning''),
      (''Anomalies'', length (of_type ''anomaly_alert'' events), ''critical'')]"

lemma vlm_lines_raises: "vlm_lines rows = Inl e \<Longrightarrow> e = none_slice"
  by (induction rows) (auto split: option.splits sum.splits)

lemma vlm_lines_ok: "(\<exists>ls. vlm_lines rows = Inr ls) \<longleftrightarrow> (\<forall>r \<in> set rows. row_vlm_result r \<noteq> None)"
  by (induction rows) (auto split: option.splits sum.splits)

lemma vlm_section_headlines:
  "vlm_section inc rows = Inr ss \<Longrightarrow> map headline ss =
     (if inc \<and> rows \<noteq> [] then [(''VLM Analysis Highlights'', length rows, ''info'')] else [])"
  by (auto simp: vlm_section_def headline_def split: if_splits sum.splits)

lemma section_headlines:
  "map headline (detection_section rows) =
     (if rows = [] then [] else [(''Detection Summary'', length rows, ''info'')])"
  "map headline (counted_section name what sev rows) = (if rows = [] then [] else [(name, length rows, sev)])"
  by (simp_all add: detection_section_def counted_section_def headline_def)

lemma of_type_length: "length (of_type t rows) \<le> length rows"
  by (simp add: of_type_def)

text \<open>
  A report on the events of a query lists the sections with at least one event, in the
  order detections, analyses, behavior alerts, anomalies, each with the number of its events and
  its severity. It fails only on an analysis event without a result among the twenty newest,
  when the analyses are included, and then with a \<open>TypeError\<close>.
\<close>

theorem report_sections:
  assumes "query (now - hours * 3600) 0 1000 dev = Inr events"
  shows "case generate_report (Some query) dev hours include_vlm now_id now_made now of
      Inr r \<Rightarrow> total_events r = length events \<and>
        map headline (sections r) = expected_headlines include_vlm events
    | Inl e \<Rightarrow> e = none_slice \<and> include_vlm \<and>
        (\<exists>x \<in> set (take 20 (of_type ''vlm_analysis'' events)). row_vlm_result x = None)"
proof (cases "vlm_section include_vlm (of_type ''vlm_analysis'' events)")
  case (Inl e)
  then have "include_vlm" "vlm_lines (take 20 (of_type ''vlm_analysis'' events)) = Inl e"
    by (auto simp: vlm_section_def split: if_splits sum.splits)
  moreover from this(2) have "e = none_slice"
    "\<exists>x \<in> set (take 20 (of_type ''vlm_analysis'' events)). row_vlm_result x = None"
    using vlm_lines_raises vlm_lines_ok [of "take 20 (of_type ''vlm_analysis'' events)"] by auto
  moreover have "events \<noteq> []" using Inl by (auto simp: vlm_section_def of_type_def)
  ultimately show ?thesis using assms Inl by (simp add: generate_report_def Let_def)
next
  case (Inr ss)
  show ?thesis
  proof (cases "events = []")
    case True
    with assms show ?thesis by (simp add: generate_report_def expected_headlines_def of_type_def)
  next
    case False
    with assms Inr show ?thesis
      by (simp add: generate_report_def Let_def section_headlines vlm_section_headlines [OF Inr] expected_headlines_def)
  qed
qed

definition foreign_row :: det_row where
  "foreign_row = \<lparr>row_timestamp = 5, row_frame_id = None, row_trace_id = None,
     row_event_type = ''vlm_analysis'', row_detections = [], row_vlm_result = None,
     row_rule_matched = None, row_device_id = ''cam''\<rparr>"

theorem report_sections_witness:
  "\<exists>r. generate_report (Some (\<lambda>_ _ _ _. Inr [foreign_row])) ''cam'' 24 False 1 1 1 = Inr r \<and> map headline (sections r) = []"
proof -
  obtain r where r: "generate_report (Some (\<lambda>_ _ _ _. Inr [foreign_row])) ''cam'' 24 False 1 1 1 = Inr r"
    by (simp add: generate_report_def Let_def vlm_section_def)
  have "expected_headlines False [foreign_row] = []"
    by (simp add: expected_headlines_def of_type_def foreign_row_def)
  with report_sections [of "\<lambda>_ _ _ _. Inr [foreign_row]" 1 24 "''cam''" "[foreign_row]" False 1 1] r
  show ?thesis by simp
qed

end
