(* ===== verification/Dashboard_Analytics.thy ===== *)
theory Dashboard_Analytics
  imports Dashboard_Access Dashboard_Validators Reid Annotator Report Anomaly
begin

text \<open>
  The dashboard's handlers over the analytics: re-identification, annotation and reports
  (\<open>routers/v2/tracking.py\<close>), behaviour, anomalies and guidance (\<open>routers/v2/intelligence.py\<close>). A
  service is an argument, \<open>None\<close> when it is not there; then the answer is made-up demo data, the
  argument \<open>demo\<close>. \<open>iso_text\<close> is the ISO text of a time.
\<close>

definition rounded :: "nat \<Rightarrow> real \<Rightarrow> real" where
  "rounded n x = real_of_int (round_half_even (x * 10 ^ n)) / 10 ^ n"

fun rounded_float :: "nat \<Rightarrow> pyfloat \<Rightarrow> pyfloat" where
  "rounded_float n (Fin x) = Fin (rounded n x)"
| "rounded_float n x = x"

definition limit_ok :: "int \<Rightarrow> bool" where
  "limit_ok n \<longleftrightarrow> 1 \<le> n \<and> n \<le> 200"

subsection \<open>Tracks\<close>

definition sighting_json :: "(real \<Rightarrow> string) \<Rightarrow> sighting \<Rightarrow> pyval" where
  "sighting_json iso_text s = PDict [(''deviceId'', PStr (si_device s)), (''timestamp'', PStr (iso_text (si_timestamp s))),
     (''similarity'', PFloat (Fin (si_similarity s)))]"

definition track_json :: "(real \<Rightarrow> string) \<Rightarrow> track \<Rightarrow> pyval" where
  "track_json iso_text t =
     (let ss = sightings t; seen = (\<lambda>pick. if ss = [] then PNone else PStr (iso_text (si_timestamp (pick ss))))
      in PDict [(''trackId'', PStr (track_id t)), (''globalId'', PStr (track_id t)), (''className'', PStr (track_class t)),
           (''appearances'', PList (map (sighting_json iso_text) ss)), (''firstSeen'', seen hd), (''lastSeen'', seen last),
           (''totalSightings'', PInt (int (length ss)))])"

definition api_reid_tracks :: "(real \<Rightarrow> string) \<Rightarrow> pyval \<Rightarrow> int \<Rightarrow> reid_engine option \<Rightarrow> http" where
  "api_reid_tracks iso_text demo limit eng =
     (if \<not> limit_ok limit then Fails 422 ''limit''
      else case eng of
          None \<Rightarrow> Reply demo
        | Some e \<Rightarrow> respond (PList (map (track_json iso_text) (slice_to (list_tracks e 2) limit))))"

definition api_reid_track :: "(real \<Rightarrow> string) \<Rightarrow> pyval \<Rightarrow> string \<Rightarrow> reid_engine option \<Rightarrow> http" where
  "api_reid_track iso_text demo tid eng =
     (case eng of
        None \<Rightarrow> Reply demo
      | Some e \<Rightarrow> (case get_track e tid of
            None \<Rightarrow> Fails 404 ''Track not found''
          | Some t \<Rightarrow> respond (track_json iso_text t)))"

subsection \<open>Annotations\<close>

definition annotation_json :: "annotation \<Rightarrow> pyval" where
  "annotation_json a = PDict [(''className'', PStr (ann_class a)), (''confidence'', PFloat (ann_confidence a)),
     (''boundingBox'', PDict [(''xMin'', PFloat (ann_x_min a)), (''yMin'', PFloat (ann_y_min a)),
        (''xMax'', PFloat (ann_x_max a)), (''yMax'', PFloat (ann_y_max a))])]"

text \<open>The flag \<open>verified\<close> only sets what the reply says of every sample; it selects nothing.\<close>

definition sample_json :: "(real \<Rightarrow> string) \<Rightarrow> bool option \<Rightarrow> sample \<Rightarrow> pyval" where
  "sample_json iso_text verified s = PDict
     [(''id'', PStr (''sample-'' @ dec (image_id s))),
      (''imageUrl'', PStr (''/api/v2/annotator/samples/'' @ dec (image_id s) @ ''/image'')),
      (''annotations'', PList (map annotation_json (annotations s))), (''sourceDevice'', PStr (sample_device s)),
      (''capturedAt'', PStr (iso_text (sample_time s))), (''verified'', PBool (or_else verified False))]"

definition api_annotator_samples ::
    "(real \<Rightarrow> string) \<Rightarrow> pyval \<Rightarrow> bool option \<Rightarrow> int \<Rightarrow> real \<Rightarrow> event_query option \<Rightarrow> annotator option
       \<Rightarrow> http \<times> annotator option" where
  "api_annotator_samples iso_text demo verified limit now st ann =
     (if \<not> limit_ok limit then (Fails 422 ''limit'', ann)
      else case ann of
          None \<Rightarrow> (Reply demo, None)
        | Some a \<Rightarrow> (case collect_samples a st '''' 24 limit now of
              (Inl e, a1) \<Rightarrow> (Crash e, Some a1)
            | (Inr ss, a1) \<Rightarrow> (respond (PList (map (sample_json iso_text verified) ss)), Some a1)))"

definition coco_json :: "coco \<Rightarrow> pyval" where
  "coco_json c = PDict
     [(''images'', PList (map (\<lambda>i. PDict [(''id'', PInt (int (ci_id i))), (''width'', PInt (ci_width i)),
         (''height'', PInt (ci_height i)), (''file_name'', PStr (file_name i))]) (coco_images c))),
      (''annotations'', PList (map (\<lambda>x. PDict [(''id'', PInt (int (ca_id x))), (''image_id'', PInt (int (ca_image x))),
         (''category_id'', PInt (ca_category x)), (''bbox'', PList (map PFloat (ca_bbox x))),
         (''area'', PFloat (ca_area x)), (''iscrowd'', PInt (ca_iscrowd x))]) (coco_annotations c))),
      (''categories'', PList (map (\<lambda>(i, n). PDict [(''id'', PInt i), (''name'', PStr n)]) (coco_categories c)))]"

definition api_annotator_export ::
    "string \<Rightarrow> real \<Rightarrow> event_query option \<Rightarrow> annotator option \<Rightarrow> http \<times> annotator option" where
  "api_annotator_export fmt now st ann =
     (if fmt \<noteq> ''coco'' \<and> fmt \<noteq> ''yolo'' then (Fails 400 (''Format must be '' @ in_quotes ''coco'' @ '' or '' @ in_quotes ''yolo''), ann)
      else case ann of
          None \<Rightarrow> (Reply (PDict [(''url'', PStr (''/exports/annotations.'' @ fmt @ ''.zip'')), (''count'', PInt 150)]), None)
        | Some a \<Rightarrow> (case collect_samples a st '''' 24 500 now of
              (Inl e, a1) \<Rightarrow> (Crash e, Some a1)
            | (Inr ss, a1) \<Rightarrow> (respond (PDict [(''format'', PStr fmt), (''count'', PInt (int (length ss))),
                  (''data'', if fmt = ''coco'' then coco_json (export_coco a1 ss)
                             else PList (map PStr (export_yolo ss)))]), Some a1)))"

subsection \<open>Reports\<close>

text \<open>
  \<open>difference start end\<close> is the difference of the two ISO texts in seconds, \<open>None\<close> when they cannot be
  parsed or compared. The import of \<open>datetime\<close> inside the branch with a generator makes the name local
  to the whole handler, so the other branch, which uses it for the demo report, raises.
\<close>

definition report_hours :: "(string \<Rightarrow> string \<Rightarrow> real option) \<Rightarrow> pyval \<Rightarrow> pyval \<Rightarrow> real" where
  "report_hours difference start stop =
     (case (start, stop) of
        (PStr a, PStr b) \<Rightarrow> (case difference a b of Some s \<Rightarrow> s / 3600 | None \<Rightarrow> 24)
      | _ \<Rightarrow> 24)"

definition api_reports_generate ::
    "(real \<Rightarrow> string) \<Rightarrow> (string \<Rightarrow> string \<Rightarrow> real option) \<Rightarrow> (string \<times> pyval) list \<Rightarrow> real
       \<Rightarrow> event_query option option \<Rightarrow> http" where
  "api_reports_generate iso_text difference body now gen =
     (let start = body_get ''start'' PNone body;
          stop = body_get ''end'' PNone body;
          title1 = body_get ''title'' (PStr ''Detection Report'') body;
          period = PDict [(''start'', start), (''end'', stop)]
      in if \<not> truthy start \<or> \<not> truthy stop then Fails 400 ''Missing start or end date''
         else case gen of
             None \<Rightarrow> Crash (Other_Error ''cannot access local variable datetime'')
           | Some st \<Rightarrow>
             (case body_get ''device_id'' (PStr '''') body of
                PStr dev \<Rightarrow>
                  (case generate_report st dev (report_hours difference start stop) True now now now of
                     Inl e \<Rightarrow> Crash e
                   | Inr r \<Rightarrow> respond (PDict
                       [(''id'', PStr (report_id r)), (''title'', title1), (''generatedAt'', PStr (iso_text (generated_at r))),
                        (''period'', period), (''summary'', PStr (summary r)),
                        (''totalEvents'', PInt (int (total_events r))),
                        (''sections'', PList (map (\<lambda>s. PDict [(''title'', PStr (title s)),
                           (''content'', PStr (section_content s)), (''eventCount'', PInt (int (event_count s))),
                           (''severity'', PStr (severity s))]) (sections r)))]))
              | _ \<Rightarrow> Crash (Type_Error ''device_id'')))"


text \<open>A stored report is the same canned one for every id; \<open>canned\<close> are its sections.\<close>

definition api_reports_get :: "pyval \<Rightarrow> string \<Rightarrow> string \<Rightarrow> http" where
  "api_reports_get canned now_iso rid = Reply (PDict
     [(''id'', PStr rid), (''title'', PStr ''Detection Report''), (''generatedAt'', PStr now_iso),
      (''period'', PDict [(''start'', PStr ''2026-02-01''), (''end'', PStr ''2026-02-18'')]), (''sections'', canned)])"

subsection \<open>Behaviour\<close>

definition metadata_json :: "(string \<times> event_value) list \<Rightarrow> pyval" where
  "metadata_json m = PDict (map (\<lambda>(k, v). (k, case v of Text t \<Rightarrow> PStr t | Number x \<Rightarrow> PFloat x)) m)"

definition behavior_json :: "(real \<Rightarrow> string) \<Rightarrow> real \<Rightarrow> behavior_event \<Rightarrow> pyval" where
  "behavior_json iso_text ts e = PDict
     [(''id'', PStr (''be-'' @ str_int (trunc_int (ts * 1000)) @ ''-'' @ behavior_value (behavior_type e))),
      (''type'', PStr (behavior_value (behavior_type e))), (''deviceId'', PStr (be_device e)),
      (''confidence'', PFloat (Fin (be_confidence e))), (''description'', PStr (be_description e)),
      (''timestamp'', PStr (iso_text (be_timestamp e))), (''metadata'', metadata_json (be_metadata e))]"

text \<open>The loop over the stored events; the first analysis that raises ends the request.\<close>

fun analyze_rows ::
    "(real \<Rightarrow> string) \<Rightarrow> event_query option \<Rightarrow> analyzer \<Rightarrow> string \<Rightarrow> real \<Rightarrow> det_row list \<Rightarrow> exn + pyval list" where
  "analyze_rows iso_text st a kind now [] = Inr []"
| "analyze_rows iso_text st a kind now (r # rs) =
     (case analyze st a (row_device_id r) (row_detections r) (row_timestamp r) now of
        Inl e \<Rightarrow> Inl e
      | Inr es \<Rightarrow> (case analyze_rows iso_text st a kind now rs of
            Inl e \<Rightarrow> Inl e
          | Inr vs \<Rightarrow> Inr (map (behavior_json iso_text (row_timestamp r))
              (filter (\<lambda>e. kind = '''' \<or> behavior_value (behavior_type e) = kind) es) @ vs)))"

definition api_behavior_events ::
    "(real \<Rightarrow> string) \<Rightarrow> pyval \<Rightarrow> string \<Rightarrow> string \<Rightarrow> int \<Rightarrow> real \<Rightarrow> event_query option
       \<Rightarrow> (event_query option \<times> analyzer) option \<Rightarrow> http" where
  "api_behavior_events iso_text demo dev kind limit now store analysis =
     (if \<not> limit_ok limit then Fails 422 ''limit''
      else case (analysis, store) of
          (Some (st, a), Some query) \<Rightarrow>
            (case query (now - 3600) now 500 dev of
               Inl e \<Rightarrow> Crash e
             | Inr history \<Rightarrow>
                 (case analyze_rows iso_text st a kind now (slice_to history limit) of
                    Inl e \<Rightarrow> Crash e
                  | Inr vs \<Rightarrow> respond (PList (slice_to vs limit))))
        | _ \<Rightarrow> Reply demo)"

subsection \<open>Anomalies\<close>

definition baseline_json :: "(real \<Rightarrow> string) \<Rightarrow> baseline \<Rightarrow> pyval" where
  "baseline_json iso_text b = PDict
     [(''metricName'', PStr (b_metric b)), (''deviceId'', PStr (b_device b)),
      (''mean'', PFloat (Fin (rounded 4 (b_mean b)))), (''stdDev'', PFloat (Fin (rounded 4 (b_std b)))),
      (''sampleCount'', PInt (sample_count b)), (''lastUpdated'', PStr (iso_text (last_updated b)))]"

definition api_anomaly_baselines :: "(real \<Rightarrow> string) \<Rightarrow> pyval \<Rightarrow> anomaly_baseline option \<Rightarrow> http" where
  "api_anomaly_baselines iso_text demo a =
     (case a of None \<Rightarrow> Reply demo | Some b \<Rightarrow> respond (PList (map (baseline_json iso_text) (list_baselines b))))"

text \<open>
  The numbers of detections of each device's stored events, in the order the devices appear. The
  hour of an event is computed and not used.
\<close>

definition counts_by_device :: "det_row list \<Rightarrow> (string, nat list) pydict" where
  "counts_by_device rows = foldl (\<lambda>d r. AList.update (row_device_id r)
     ((case map_of d (row_device_id r) of None \<Rightarrow> [] | Some ns \<Rightarrow> ns) @ [length (row_detections r)]) d) [] rows"

definition average :: "nat list \<Rightarrow> real" where
  "average ns = real (sum_list ns) / real (length ns)"

definition per_frame :: string where
  "per_frame = ''detections_per_frame''"

definition device_score :: "anomaly_baseline \<Rightarrow> string \<times> nat list \<Rightarrow> anomaly_score" where
  "device_score a = (\<lambda>(dev, ns). score a dev per_frame (average ns))"

definition score_json :: "string \<Rightarrow> anomaly_score \<Rightarrow> pyval" where
  "score_json now_iso s = PDict
     [(''deviceId'', PStr (s_device s)), (''metric'', PStr per_frame), (''value'', PFloat (Fin (rounded 2 (s_value s)))),
      (''zScore'', PFloat (rounded_float 2 (z_score s))), (''isAnomaly'', PBool (is_anomaly s)),
      (''baselineMean'', PFloat (Fin (rounded 2 (baseline_mean s)))),
      (''baselineStd'', PFloat (Fin (rounded 2 (baseline_std s)))), (''timestamp'', PStr now_iso)]"

text \<open>Stable and descending by the magnitude of the rounded score; an infinite score comes first.\<close>

fun finite_size :: "pyfloat \<Rightarrow> real" where
  "finite_size (Fin x) = \<bar>x\<bar>"
| "finite_size _ = 0"

definition by_magnitude :: "anomaly_score list \<Rightarrow> anomaly_score list" where
  "by_magnitude ss =
     filter (\<lambda>s. \<not> is_finite (z_score s)) ss @
     sort_key (\<lambda>s. - finite_size (rounded_float 2 (z_score s))) (filter (\<lambda>s. is_finite (z_score s)) ss)"

definition api_anomaly_scores ::
    "pyval \<Rightarrow> string \<Rightarrow> int \<Rightarrow> real \<Rightarrow> string \<Rightarrow> event_query option \<Rightarrow> anomaly_baseline option \<Rightarrow> http" where
  "api_anomaly_scores demo dev hours now now_iso store a =
     (if hours < 1 \<or> 168 < hours then Fails 422 ''hours''
      else case (a, store) of
          (Some b, Some query) \<Rightarrow>
            (case query (now - real_of_int hours * 3600) now 10000 dev of
               Inl e \<Rightarrow> Crash e
             | Inr history \<Rightarrow>
                 respond (PList (map (score_json now_iso)
                   (slice_to (by_magnitude (map (device_score b) (counts_by_device history))) 50))))
        | _ \<Rightarrow> Reply demo)"

subsection \<open>Guidance\<close>

text \<open>
  The retriever is called with the keyword \<open>query\<close>, which \<open>RAGRetriever.retrieve\<close> does not have, so
  the call raises and the suggestions after it are never made.
\<close>

definition api_vlm_guidance :: "pyval \<Rightarrow> bool \<Rightarrow> bool \<Rightarrow> http" where
  "api_vlm_guidance demo has_retriever has_store =
     (if has_retriever \<and> has_store
      then Crash (Type_Error ''RAGRetriever.retrieve() got an unexpected keyword argument query'')
      else Reply demo)"

definition api_vlm_guidance_apply :: "string \<Rightarrow> http" where
  "api_vlm_guidance_apply gid =
     Reply (PDict [(''success'', PBool True), (''message'', PStr (''Guidance '' @ gid @ '' applied''))])"


subsection \<open>Properties\<close>

text \<open>A learned baseline without spread, and an average that is not its mean.\<close>

definition degenerate :: "anomaly_baseline \<Rightarrow> string \<times> nat list \<Rightarrow> bool" where
  "degenerate a = (\<lambda>(dev, ns). case map_of (baselines a) (baseline_key dev per_frame) of
     None \<Rightarrow> False
   | Some b \<Rightarrow> min_samples a \<le> sample_count b \<and> b_std b = 0 \<and> average ns \<noteq> b_mean b)"

lemma score_finite: "is_finite (z_score (device_score a x)) \<longleftrightarrow> \<not> degenerate a x"
  by (cases x) (auto simp: device_score_def score_def degenerate_def Let_def split: option.splits)

lemma json_finite_score:
  "json_finite (score_json now_iso s) \<longleftrightarrow> is_finite (z_score s)"
  by (cases "z_score s") (simp_all add: score_json_def)

lemma first_magnitudes_finite:
  assumes "0 < n"
  shows "(\<forall>s \<in> set (take n (by_magnitude ss)). is_finite (z_score s)) \<longleftrightarrow> (\<forall>s \<in> set ss. is_finite (z_score s))"
proof (cases "filter (\<lambda>s. \<not> is_finite (z_score s)) ss")
  case Nil
  then have fin: "\<forall>s \<in> set ss. is_finite (z_score s)" by (simp add: filter_empty_conv)
  then have "set (by_magnitude ss) \<subseteq> set ss" by (auto simp: by_magnitude_def)
  then show ?thesis using fin by (meson in_set_takeD subsetD)
next
  case (Cons s rest)
  then have mem: "s \<in> set ss" and inf: "\<not> is_finite (z_score s)"
    by (auto dest!: arg_cong [where f = set])
  have "by_magnitude ss = s # tl (by_magnitude ss)" using Cons by (simp add: by_magnitude_def)
  then have "s \<in> set (take n (by_magnitude ss))"
    using assms by (metis gr0_implies_Suc list.set_intros(1) take_Suc_Cons)
  then show ?thesis using mem inf by blast
qed

text \<open>
  The anomaly scores are answered exactly when no device seen in the period has a learned baseline
  without spread that its average misses; otherwise its score is infinite, sorted first, and the
  response cannot be written: a server error, although this is the clearest anomaly there is.
\<close>

theorem anomaly_scores_answered_iff:
  assumes "1 \<le> hours" and "hours \<le> 168"
    and "query (now - real_of_int hours * 3600) now 10000 dev = Inr history"
  shows "(\<exists>v. api_anomaly_scores demo dev hours now now_iso (Some query) (Some a) = Reply v) \<longleftrightarrow>
    \<not> (\<exists>x \<in> set (counts_by_device history). degenerate a x)"
proof -
  let ?ss = "map (device_score a) (counts_by_device history)"
  have "(\<exists>v. api_anomaly_scores demo dev hours now now_iso (Some query) (Some a) = Reply v) \<longleftrightarrow>
      (\<forall>s \<in> set (take 50 (by_magnitude ?ss)). is_finite (z_score s))"
    using assms by (simp add: api_anomaly_scores_def respond_def list_all_iff json_finite_score slice_to_def)
  also have "\<dots> \<longleftrightarrow> (\<forall>s \<in> set ?ss. is_finite (z_score s))" by (rule first_magnitudes_finite) simp
  finally show ?thesis by (auto simp: score_finite)
qed

definition seen_row :: det_row where
  "seen_row = \<lparr>row_timestamp = 90, row_frame_id = None, row_trace_id = None, row_event_type = ''detection'',
     row_detections = [], row_vlm_result = None, row_rule_matched = None, row_device_id = ''cam''\<rparr>"

definition flat_baseline :: anomaly_baseline where
  "flat_baseline = \<lparr>window_hours = 24, z_threshold = 3, min_samples = 30, baselines =
     [(''cam:detections_per_frame'', \<lparr>b_metric = per_frame, b_device = ''cam'', b_mean = 2, b_std = 0,
        sample_count = 30, last_updated = 50\<rparr>)]\<rparr>"

theorem anomaly_scores_answered_iff_witness:
  "\<not> (\<exists>v. api_anomaly_scores PNone '''' 1 100 ''t'' (Some (\<lambda>s u n d. Inr [seen_row])) (Some flat_baseline) = Reply v)"
proof -
  have "\<exists>x \<in> set (counts_by_device [seen_row]). degenerate flat_baseline x"
    by (simp add: counts_by_device_def seen_row_def degenerate_def flat_baseline_def baseline_key_def per_frame_def average_def)
  then show ?thesis
    using anomaly_scores_answered_iff [of 1 "\<lambda>s u n d. Inr [seen_row]" 100 "''''" "[seen_row]" PNone "''t''" flat_baseline]
    by simp
qed

text \<open>
  The period of a report only counts by its length: two stores that answer alike from that long
  ago until now give the same reply, whatever they hold of the period asked for.
\<close>

theorem report_ignores_period:
  assumes "body_get ''start'' PNone body = PStr a" and "body_get ''end'' PNone body = PStr b"
    and "body_get ''device_id'' (PStr '''') body = PStr dev"
    and "difference a b = Some d"
    and "query1 (now - d) 0 1000 dev = query2 (now - d) 0 1000 dev"
  shows "api_reports_generate iso_text difference body now (Some (Some query1)) =
    api_reports_generate iso_text difference body now (Some (Some query2))"
proof -
  have "generate_report (Some query1) dev (d / 3600) True now now now = generate_report (Some query2) dev (d / 3600) True now now now"
    using assms(5) by (simp add: generate_report_def)
  then show ?thesis using assms by (simp add: api_reports_generate_def report_hours_def Let_def)
qed

theorem report_ignores_period_witness:
  "api_reports_generate (\<lambda>t. ''t'') (\<lambda>a b. Some 3600)
      [(''start'', PStr ''2020-01-01T00''), (''end'', PStr ''2020-01-01T01'')] 9000 (Some (Some (\<lambda>s u n d. if s = 5400 then Inr [] else Inr [seen_row]))) =
   api_reports_generate (\<lambda>t. ''t'') (\<lambda>a b. Some 3600)
      [(''start'', PStr ''2020-01-01T00''), (''end'', PStr ''2020-01-01T01'')] 9000 (Some (Some (\<lambda>s u n d. Inr [])))"
  by (rule report_ignores_period [of _ "''2020-01-01T00''" "''2020-01-01T01''" "''''" _ 3600])
    (simp_all add: body_get_def)

end
