(* ===== verification/Dashboard_Events.thy ===== *)
theory Dashboard_Events
  imports Dashboard_Access Dashboard_Validators
begin

text \<open>
  The dashboard's events, \<open>routers/v2/status.py\<close> and \<open>routers/legacy.py\<close>: the in-memory list
  that both interfaces append to, the normalisation for the frontend, the queries, the counts in
  the status, and the broadcast to WebSocket clients. Parameters are \<open>str\<close> on values (\<open>rep\<close>),
  the ISO text of a time (\<open>iso\<close>, which can raise) and the digest that makes ids (\<open>digest\<close>, the
  first 12 digits of an MD5).
\<close>

subsection \<open>Normalisation\<close>

type_synonym raw_event = "(string \<times> pyval) list"

record formats =
  rep :: "pyval \<Rightarrow> string"
  iso :: "pyfloat \<Rightarrow> exn + string"
  digest :: "string \<Rightarrow> string"

definition event_types :: "string list" where
  "event_types = [''DETECTION_ALERT'', ''SYSTEM_ERROR'', ''MODEL_LOADED'', ''HEALTH_UPDATE'']"

definition severities :: "string list" where
  "severities = [''critical'', ''warning'', ''info'']"

text \<open>\<open>isinstance(x, (int, float))\<close>, with the number.\<close>

definition as_number :: "pyval \<Rightarrow> pyfloat option" where
  "as_number v = (case number v of Inl _ \<Rightarrow> None | Inr x \<Rightarrow> Some x)"

definition time_text :: "formats \<Rightarrow> pyval \<Rightarrow> exn + string" where
  "time_text f ts = (case as_number ts of Some x \<Rightarrow> iso f x | None \<Rightarrow> Inr (rep f ts))"

definition upper_of :: "pyval \<Rightarrow> exn + string" where
  "upper_of v = (case v of PStr s \<Rightarrow> Inr (upper s) | _ \<Rightarrow> Inl (Attribute_Error ''upper''))"

definition known_type :: "string \<Rightarrow> string" where
  "known_type t = (if t \<in> set event_types then t else ''DETECTION_ALERT'')"

definition severity_of :: "raw_event \<Rightarrow> string \<Rightarrow> pyval" where
  "severity_of raw etype =
     (let sev = body_get ''severity'' (PStr ''info'') raw
      in if sev \<in> set (map PStr severities) then sev
         else if etype = ''SYSTEM_ERROR'' then PStr ''critical''
         else case as_number (body_get ''confidence'' (PInt 0) raw) of
             Some c \<Rightarrow> if Fin (9/10) \<le> c then PStr ''warning'' else PStr ''info''
           | None \<Rightarrow> PStr ''info'')"

definition box_of :: "pyval \<Rightarrow> exn + pyval" where
  "box_of b =
     (case b of
        PDict d \<Rightarrow> Inr (PDict
          [(''classId'', body_get ''class_id'' (PInt 0) d), (''className'', body_get ''class_name'' (PStr '''') d),
           (''confidence'', body_get ''confidence'' (PInt 0) d), (''xMin'', body_get ''x_min'' (PInt 0) d),
           (''yMin'', body_get ''y_min'' (PInt 0) d), (''xMax'', body_get ''x_max'' (PInt 0) d),
           (''yMax'', body_get ''y_max'' (PInt 0) d)])
      | _ \<Rightarrow> Inl (Attribute_Error ''get''))"

fun all_of :: "('a \<Rightarrow> exn + 'b) \<Rightarrow> 'a list \<Rightarrow> exn + 'b list" where
  "all_of f [] = Inr []"
| "all_of f (x # xs) =
     (case f x of Inl e \<Rightarrow> Inl e
      | Inr y \<Rightarrow> (case all_of f xs of Inl e \<Rightarrow> Inl e | Inr ys \<Rightarrow> Inr (y # ys)))"

definition boxes_of :: "raw_event \<Rightarrow> exn + pyval list" where
  "boxes_of raw =
     (let boxes = body_get ''boxes'' PNone raw;
          dets = body_get ''detections'' PNone raw;
          chosen = (if truthy boxes then boxes else if truthy dets then dets else PList [])
      in case iterate chosen of Inl e \<Rightarrow> Inl e | Inr xs \<Rightarrow> all_of box_of xs)"

definition metadata_of :: "formats \<Rightarrow> raw_event \<Rightarrow> exn + pyval" where
  "metadata_of f raw =
     (case body_get ''metadata'' (PDict []) raw of
        PDict d \<Rightarrow> Inr (PDict (map (\<lambda>(k, v). (k, PStr (rep f v))) d))
      | _ \<Rightarrow> Inl (Attribute_Error ''items''))"

definition normalize_event :: "formats \<Rightarrow> real \<Rightarrow> raw_event \<Rightarrow> exn + pyval" where
  "normalize_event f now raw =
     (let ts = body_get ''timestamp'' (PFloat (Fin now)) raw;
          dev = body_get ''device_id'' (PStr ''unknown'') raw
      in case time_text f ts of Inl e \<Rightarrow> Inl e
       | Inr ts_iso \<Rightarrow> (case upper_of (body_get ''type'' (PStr ''DETECTION_ALERT'') raw) of Inl e \<Rightarrow> Inl e
       | Inr t \<Rightarrow>
           let etype = known_type t;
               sev = severity_of raw etype;
               eid = body_get ''id'' (PStr (digest f (rep f dev @ '':'' @ rep f ts @ '':'' @ etype))) raw
           in case boxes_of raw of Inl e \<Rightarrow> Inl e
            | Inr boxes \<Rightarrow> (case metadata_of f raw of Inl e \<Rightarrow> Inl e
            | Inr meta \<Rightarrow> Inr (PDict
                [(''id'', eid), (''deviceId'', dev), (''deviceName'', body_get ''device_name'' dev raw),
                 (''type'', PStr etype), (''severity'', sev),
                 (''description'', body_get ''description'' (body_get ''message''
                    (body_get ''class'' (PStr '''') raw) raw) raw),
                 (''timestamp'', PStr ts_iso), (''metadata'', meta), (''boxes'', PList boxes),
                 (''frameData'', body_get ''frame_data'' PNone raw)]))))"

subsection \<open>Posting\<close>

record event_state =
  events :: "raw_event list"
  clients :: "nat list"

text \<open>\<open>event.setdefault("timestamp", now)\<close>.\<close>

definition stamped :: "real \<Rightarrow> raw_event \<Rightarrow> raw_event" where
  "stamped now ev = (if map_of ev ''timestamp'' = None then ev @ [(''timestamp'', PFloat (Fin now))] else ev)"

text \<open>
  The broadcast goes over a copy of the client list; \<open>send c\<close> says whether the client takes the
  text, and a client that does not is dropped.
\<close>

definition broadcast :: "(nat \<Rightarrow> bool) \<Rightarrow> nat list \<Rightarrow> nat list" where
  "broadcast send cs = foldl (\<lambda>left c. if send c then left else remove1 c left) cs cs"

definition post_event :: "formats \<Rightarrow> (nat \<Rightarrow> bool) \<Rightarrow> real \<Rightarrow> raw_event \<Rightarrow> event_state \<Rightarrow> http \<times> event_state" where
  "post_event f send now ev s =
     (let ev1 = stamped now ev;
          es = events s @ [ev1];
          s1 = s\<lparr>events := (if 500 < length es then tl es else es)\<rparr>
      in case normalize_event f now ev1 of
          Inl e \<Rightarrow> (Crash e, s1)
        | Inr _ \<Rightarrow> (Reply (PDict [(''ok'', PBool True)]), s1\<lparr>clients := broadcast send (clients s1)\<rparr>))"

definition legacy_post :: "real \<Rightarrow> raw_event \<Rightarrow> event_state \<Rightarrow> http \<times> event_state" where
  "legacy_post now body s =
     (let ev = AList.update ''timestamp'' (body_get ''timestamp'' (PFloat (Fin now)) body) body;
          s1 = s\<lparr>events := events s @ [ev]\<rparr>
      in (Reply (PDict [(''status'', PStr ''ok''), (''count'', PInt (int (length (events s1))))]), s1))"

definition ws_connect :: "nat \<Rightarrow> event_state \<Rightarrow> event_state" where
  "ws_connect c s = s\<lparr>clients := clients s @ [c]\<rparr>"

definition ws_disconnect :: "nat \<Rightarrow> event_state \<Rightarrow> event_state" where
  "ws_disconnect c s = (if c \<in> set (clients s) then s\<lparr>clients := remove1 c (clients s)\<rparr> else s)"

subsection \<open>Queries\<close>

definition has_value :: "string \<Rightarrow> string \<Rightarrow> raw_event \<Rightarrow> bool" where
  "has_value k s ev \<longleftrightarrow> map_of ev k = Some (PStr s)"

fun keep_if :: "('a \<Rightarrow> exn + bool) \<Rightarrow> 'a list \<Rightarrow> exn + 'a list" where
  "keep_if p [] = Inr []"
| "keep_if p (x # xs) =
     (case p x of Inl e \<Rightarrow> Inl e
      | Inr b \<Rightarrow> (case keep_if p xs of Inl e \<Rightarrow> Inl e | Inr ys \<Rightarrow> Inr (if b then x # ys else ys)))"

text \<open>\<open>limit\<close> is between 1 and 200, else the framework answers 422.\<close>

definition api_events :: "formats \<Rightarrow> real \<Rightarrow> int \<Rightarrow> string \<Rightarrow> string \<Rightarrow> string \<Rightarrow> event_state \<Rightarrow> http" where
  "api_events f now limit dev sev etype s =
     (if limit < 1 \<or> 200 < limit then Fails 422 ''limit''
      else
        let es = (if dev = '''' then events s else filter (has_value ''device_id'' dev) (events s));
            es1 = (if sev = '''' then es else filter (has_value ''severity'' sev) es)
        in case (if etype = '''' then Inr es1
                 else keep_if (\<lambda>e. case upper_of (body_get ''type'' (PStr '''') e) of
                        Inl x \<Rightarrow> Inl x | Inr t \<Rightarrow> Inr (t = upper etype)) es1) of
            Inl e \<Rightarrow> Crash e
          | Inr es2 \<Rightarrow> (case all_of (normalize_event f now) (slice_from es2 (- limit)) of
                Inl e \<Rightarrow> Crash e
              | Inr xs \<Rightarrow> respond (PList xs)))"

text \<open>The legacy list has no bounds on \<open>limit\<close>: \<open>events[-0:]\<close> is the whole list.\<close>

definition legacy_events :: "int \<Rightarrow> string \<Rightarrow> event_state \<Rightarrow> http" where
  "legacy_events limit dev s =
     respond (PList (map PDict (slice_from
       (if dev = '''' then events s else filter (has_value ''device_id'' dev) (events s)) (- limit))))"

definition legacy_device_events :: "string \<Rightarrow> int \<Rightarrow> event_state \<Rightarrow> http" where
  "legacy_device_events dev limit s =
     respond (PList (map PDict (slice_from (filter (has_value ''device_id'' dev) (events s)) (- limit))))"

text \<open>The alert counts of \<open>api_v2_status\<close>, over the last 200 events.\<close>

fun count_if :: "('a \<Rightarrow> exn + bool) \<Rightarrow> 'a list \<Rightarrow> exn + nat" where
  "count_if p xs = (case keep_if p xs of Inl e \<Rightarrow> Inl e | Inr ys \<Rightarrow> Inr (length ys))"

definition type_upper :: "raw_event \<Rightarrow> exn + string" where
  "type_upper e = upper_of (body_get ''type'' (PStr '''') e)"

definition is_critical :: "raw_event \<Rightarrow> exn + bool" where
  "is_critical e =
     (if has_value ''severity'' ''critical'' e then Inr True
      else case type_upper e of Inl x \<Rightarrow> Inl x | Inr t \<Rightarrow> Inr (t = ''SYSTEM_ERROR''))"

definition is_info :: "raw_event \<Rightarrow> exn + bool" where
  "is_info e =
     (if body_get ''severity'' (PStr ''info'') e \<noteq> PStr ''info'' then Inr False
      else case type_upper e of Inl x \<Rightarrow> Inl x | Inr t \<Rightarrow> Inr (t \<noteq> ''SYSTEM_ERROR''))"

definition alert_counts :: "event_state \<Rightarrow> exn + (nat \<times> nat \<times> nat)" where
  "alert_counts s =
     (let es = slice_from (events s) (- 200)
      in case count_if is_critical es of Inl e \<Rightarrow> Inl e
       | Inr c \<Rightarrow>
           let w = length (filter (has_value ''severity'' ''warning'') es)
           in (case count_if is_info es of Inl e \<Rightarrow> Inl e | Inr i \<Rightarrow> Inr (c, w, i)))"

subsection \<open>The list of events\<close>

datatype event_op = Post_V2 real raw_event | Post_Legacy real raw_event | Connect nat | Disconnect nat

fun board_step :: "formats \<Rightarrow> (nat \<Rightarrow> bool) \<Rightarrow> event_state \<Rightarrow> event_op \<Rightarrow> event_state" where
  "board_step f send s (Post_V2 now ev) = snd (post_event f send now ev s)"
| "board_step f send s (Post_Legacy now ev) = snd (legacy_post now ev s)"
| "board_step f send s (Connect c) = ws_connect c s"
| "board_step f send s (Disconnect c) = ws_disconnect c s"

fun is_legacy :: "event_op \<Rightarrow> bool" where
  "is_legacy (Post_Legacy _ _) = True"
| "is_legacy _ = False"

definition keep_last :: "nat \<Rightarrow> 'a list \<Rightarrow> 'a list" where
  "keep_last n xs = drop (length xs - n) xs"

lemma keep_last_snoc: "0 < n \<Longrightarrow> keep_last n (keep_last n xs @ [x]) = keep_last n (xs @ [x])"
  by (cases "length xs < n") (auto simp: keep_last_def drop_append Suc_diff_le not_less)

lemma length_keep_last: "length (keep_last n xs) \<le> n"
  by (simp add: keep_last_def)

lemma events_post: "events (snd (post_event f send now ev s)) =
    (if 500 < length (events s @ [stamped now ev]) then tl (events s @ [stamped now ev]) else events s @ [stamped now ev])"
  by (simp add: post_event_def Let_def split: sum.splits)

lemma events_post_window:
  assumes "length (events s) \<le> 500"
  shows "events (snd (post_event f send now ev s)) = keep_last 500 (events s @ [stamped now ev])"
proof (cases "length (events s) = 500")
  case True
  then have "events s \<noteq> []" by auto
  with True show ?thesis by (simp add: events_post keep_last_def drop_Suc)
qed (use assms in \<open>simp add: events_post keep_last_def\<close>)

lemma stamped_has_time: "map_of (stamped now ev) ''timestamp'' \<noteq> None"
  by (simp add: stamped_def map_add_def split: option.split)

lemma ws_events [simp]: "events (ws_connect c s) = events s" "events (ws_disconnect c s) = events s"
  by (simp_all add: ws_connect_def ws_disconnect_def)

lemma events_length_step:
  "length (events (board_step f send s op)) \<le> max 500 (length (events s)) + (if is_legacy op then 1 else 0)"
  by (cases op) (auto simp: events_post legacy_post_def Let_def)

lemma length_events_le:
  "length (events (foldl (board_step f send) s ops)) \<le> max 500 (length (events s)) + length (filter is_legacy ops)"
proof (induction ops arbitrary: s)
  case (Cons op ops)
  show ?case using Cons.IH [of "board_step f send s op"] events_length_step [of f send s op]
    by (auto split: if_splits)
qed simp

lemma post_run_window:
  "length (events s) \<le> 500 \<Longrightarrow>
     events (foldl (board_step f send) s (map (\<lambda>(t, ev). Post_V2 t ev) posts)) =
       keep_last 500 (events s @ map (\<lambda>(t, ev). stamped t ev) posts)"
proof (induction posts rule: rev_induct)
  case (snoc p posts)
  obtain t ev where p: "p = (t, ev)" by fastforce
  let ?s = "foldl (board_step f send) s (map (\<lambda>(t, ev). Post_V2 t ev) posts)"
  have "length (events ?s) \<le> 500" by (simp only: snoc length_keep_last)
  from events_post_window [OF this, of f send t ev]
  show ?case by (simp only: snoc p map_append foldl_append list.map foldl_Cons foldl_Nil case_prod_conv
        board_step.simps keep_last_snoc [OF zero_less_numeral] append.assoc [symmetric])
qed (simp add: keep_last_def)



subsection \<open>What the frontend gets\<close>

text \<open>
  Every event that is normalised has the fields of the frontend's type in their order,
  one of the four types and one of the three severities, whatever was posted.
\<close>

theorem normalized_event_typed:
  assumes "normalize_event f now raw = Inr v"
  shows "\<exists>d t sev. v = PDict d \<and>
    map fst d = [''id'', ''deviceId'', ''deviceName'', ''type'', ''severity'', ''description'', ''timestamp'',
      ''metadata'', ''boxes'', ''frameData''] \<and>
    map_of d ''type'' = Some (PStr t) \<and> t \<in> set event_types \<and>
    map_of d ''severity'' = Some (PStr sev) \<and> sev \<in> set severities"
proof -
  have sev: "\<exists>s. severity_of raw t = PStr s \<and> s \<in> set severities" for t
    by (auto simp: severity_of_def severities_def Let_def split: option.split)
  have kt: "known_type t \<in> set event_types" for t by (auto simp: known_type_def event_types_def)
  from assms obtain t isot eid desc boxes meta fd dev name where
    v: "v = PDict [(''id'', eid), (''deviceId'', dev), (''deviceName'', name), (''type'', PStr (known_type t)),
      (''severity'', severity_of raw (known_type t)), (''description'', desc), (''timestamp'', isot),
      (''metadata'', meta), (''boxes'', boxes), (''frameData'', fd)]"
    by (auto simp: normalize_event_def Let_def split: sum.splits)
  obtain s where "severity_of raw (known_type t) = PStr s" "s \<in> set severities" using sev by blast
  with kt [of t] show ?thesis unfolding v by (intro exI [of _ "known_type t"] exI [of _ s] exI conjI) (rule refl | simp)+
qed

definition plain_formats :: formats where
  "plain_formats = \<lparr>rep = \<lambda>_. '''', iso = \<lambda>_. Inr '''', digest = id\<rparr>"

theorem normalized_event_typed_witness:
  "\<exists>v. normalize_event plain_formats 3 [(''type'', PStr ''reboot''), (''severity'', PStr ''fatal'')] = Inr v \<and>
    (\<exists>d t. v = PDict d \<and> map_of d ''type'' = Some (PStr t) \<and> t \<in> set event_types)"
proof -
  have "\<exists>v. normalize_event plain_formats 3 [(''type'', PStr ''reboot''), (''severity'', PStr ''fatal'')] = Inr v"
    by (simp add: normalize_event_def plain_formats_def body_get_def time_text_def as_number_def upper_of_def
        boxes_of_def metadata_of_def Let_def)
  then obtain v where "normalize_event plain_formats 3 [(''type'', PStr ''reboot''), (''severity'', PStr ''fatal'')] = Inr v"
    by (elim exE)
  then show ?thesis using normalized_event_typed [of plain_formats 3 _ v] by fast
qed

text \<open>An event with a type that is not a text.\<close>

lemma normalize_with_time:
  assumes "map_of ev ''timestamp'' \<noteq> None"
  shows "normalize_event f t1 ev = normalize_event f t2 ev"
proof -
  obtain y where "map_of ev ''timestamp'' = Some y" using assms by blast
  then have "body_get ''timestamp'' d ev = y" for d by (simp add: body_get_def)
  then show ?thesis by (simp only: normalize_event_def)
qed

lemma all_of_fails: "x \<in> set xs \<Longrightarrow> f x = Inl e \<Longrightarrow> \<exists>e1. all_of f xs = Inl e1"
  by (induction xs) (auto split: sum.splits)

lemma slice_last: "0 < n \<Longrightarrow> slice_from xs (- n) = keep_last (nat n) xs"
  by (simp add: slice_from_def keep_last_def)

lemma keep_last_keep_last: "m \<le> n \<Longrightarrow> keep_last m (keep_last n xs) = keep_last m xs"
  by (cases "n \<le> length xs"; cases "m \<le> length xs") (simp_all add: keep_last_def)

lemma in_keep_last: "length ys < n \<Longrightarrow> x \<in> set (keep_last n (xs @ x # ys))"
  by (auto simp: keep_last_def drop_append)

text \<open>
  A malformed event is kept all the same and poisons the interface: an event that
  cannot be normalised is answered with a server error, but stays in the list, and from then on
  every query without filters fails until \<open>limit\<close> more events have been posted.
\<close>

theorem poisoned_queries:
  assumes "normalize_event f now (stamped now ev) = Inl e" and "length (events s) \<le> 500"
    and "1 \<le> limit" and "limit \<le> 200" and "int (length posts) < limit"
    and "s1 = snd (post_event f send now ev s)"
    and "s2 = foldl (board_step f send) s1 (map (\<lambda>(t, ev). Post_V2 t ev) posts)"
  shows "fst (post_event f send now ev s) = Crash e \<and> (\<exists>e1. api_events f t limit '''' '''' '''' s2 = Crash e1)"
proof -
  have "events s2 = keep_last 500 (events s @ map (\<lambda>(t, ev). stamped t ev) ((now, ev) # posts))"
    using post_run_window [OF assms(2), of f send "(now, ev) # posts"] by (simp add: assms(6,7))
  then have "slice_from (events s2) (- limit) =
      keep_last (nat limit) (events s @ map (\<lambda>(t, ev). stamped t ev) ((now, ev) # posts))"
    using slice_last [of limit "events s2"] keep_last_keep_last [of "nat limit" 500] assms(3,4)
    by (simp add: nat_le_iff)
  moreover have "stamped now ev \<in> set (keep_last (nat limit) (events s @ map (\<lambda>(t, ev). stamped t ev) ((now, ev) # posts)))"
    using in_keep_last [of "map (\<lambda>(t, ev). stamped t ev) posts" "nat limit" "stamped now ev" "events s"] assms(3,5) by simp
  moreover have "normalize_event f t (stamped now ev) = Inl e"
    using assms(1) normalize_with_time [OF stamped_has_time] by metis
  ultimately obtain e1 where "all_of (normalize_event f t) (slice_from (events s2) (- limit)) = Inl e1"
    using all_of_fails by metis
  then have "api_events f t limit '''' '''' '''' s2 = Crash e1"
    using assms(3,4) by (simp add: api_events_def)
  moreover have "fst (post_event f send now ev s) = Crash e"
    using assms(1) by (simp add: post_event_def Let_def)
  ultimately show ?thesis by blast
qed

theorem poisoned_queries_witness:
  "\<exists>e. api_events \<lparr>rep = \<lambda>_. '''', iso = \<lambda>_. Inr '''', digest = id\<rparr> 2 50 '''' '''' ''''
     (snd (post_event \<lparr>rep = \<lambda>_. '''', iso = \<lambda>_. Inr '''', digest = id\<rparr> (\<lambda>_. True) 1 [(''type'', PInt 5)]
        \<lparr>events = [], clients = []\<rparr>)) = Crash e"
proof -
  let ?f = "\<lparr>rep = \<lambda>_. '''', iso = \<lambda>_. Inr '''', digest = id\<rparr>"
  have "normalize_event ?f 1 (stamped 1 [(''type'', PInt 5)]) = Inl (Attribute_Error ''upper'')"
    by (simp add: normalize_event_def stamped_def body_get_def time_text_def as_number_def upper_of_def)
  from poisoned_queries [OF this, of "\<lparr>events = [], clients = []\<rparr>" 50 "[]" _ "\<lambda>_. True" _ 2, OF _ _ _ _ refl refl]
  show ?thesis by simp
qed

end
