(* ===== verification/Dashboard_Control.thy ===== *)
theory Dashboard_Control
  imports Dashboard_Events Orchestrator Model_Registry Ab_Test Device_Session
begin

text \<open>
  The dashboard's handlers that read and control the system: the configuration file
  (\<open>routers/v2/config.py\<close>), models and A/B test (\<open>routers/v2/models.py\<close>), devices, status and
  commands (\<open>routers/v2/status.py\<close>, \<open>routers/legacy.py\<close>) and the log level
  (\<open>routers/v2/logging.py\<close>). A service the handler uses is an argument, \<open>None\<close> when it is not
  there. The generated protobuf module is the parameter \<open>pb\<close>, the numbers of its command types,
  or \<open>None\<close> when it cannot be imported; \<open>set_id\<close> is the assignment to its 64-bit field.
\<close>

definition round_to :: "nat \<Rightarrow> real \<Rightarrow> real" where
  "round_to n x = real_of_int (round_half_even (x * 10 ^ n)) / 10 ^ n"

definition refusal_reply :: "string \<Rightarrow> http" where
  "refusal_reply m = Reply (PDict [(''success'', PBool False), (''message'', PStr m)])"

definition success_reply :: "string \<Rightarrow> http" where
  "success_reply m = Reply (PDict [(''success'', PBool True), (''message'', PStr m)])"

subsection \<open>The configuration file\<close>

text \<open>
  The file holds what \<open>yaml.safe_load\<close> gives or raises; YAML is taken as exact. \<open>reloads\<close> counts
  the calls of \<open>force_reload\<close>, whose own failure is swallowed.
\<close>

record config_disk =
  file_path :: string
  file_contents :: "(exn + pyval) option"
  file_mtime :: real
  file_backup :: "(exn + pyval) option"
  reloads :: nat

text \<open>\<open>_resolve_config_path\<close>: a relative name is taken from the repository's root.\<close>

definition resolve_config_path :: "string \<Rightarrow> string option \<Rightarrow> string" where
  "resolve_config_path repo configured =
     (let name = (case configured of None \<Rightarrow> ''config.yaml'' | Some p \<Rightarrow> if p = '''' then ''config.yaml'' else p)
      in if prefix ''/'' name then name else repo @ ''/'' @ name)"

text \<open>\<open>path.with_suffix(".yaml.bak")\<close>.\<close>

definition drop_suffix :: "string \<Rightarrow> string" where
  "drop_suffix p =
     (let r = rev p;
          ext = takeWhile (\<lambda>c. c \<noteq> CHR ''.'' \<and> c \<noteq> CHR ''/'') r
      in case dropWhile (\<lambda>c. c \<noteq> CHR ''.'' \<and> c \<noteq> CHR ''/'') r of
          [] \<Rightarrow> p
        | c # stem \<Rightarrow> if c = CHR ''.'' \<and> ext \<noteq> [] \<and> stem \<noteq> [] \<and> hd stem \<noteq> CHR ''/'' then rev stem else p)"

definition missing_config :: "config_disk \<Rightarrow> http" where
  "missing_config c = Fails 404 (''Config file not found: '' @ file_path c)"

definition api_config :: "config_disk \<Rightarrow> http" where
  "api_config c =
     (case file_contents c of
        None \<Rightarrow> missing_config c
      | Some (Inl e) \<Rightarrow> Crash e
      | Some (Inr v) \<Rightarrow> respond (PDict [(''path'', PStr (file_path c)), (''config'', v),
            (''lastModified'', PFloat (Fin (file_mtime c)))]))"

text \<open>
  Writing opens the file, which empties it, and dumps the value: either can raise, and after a
  failing dump the file holds what was written so far.
\<close>

datatype write_result = Written | Open_Raises exn | Dump_Raises exn "exn + pyval"

definition api_config_update ::
    "exn option \<Rightarrow> write_result \<Rightarrow> real \<Rightarrow> (string \<times> pyval) list \<Rightarrow> config_disk \<Rightarrow> http \<times> config_disk" where
  "api_config_update copy_error write now body c =
     (if file_contents c = None then (missing_config c, c)
      else
        let new = body_get ''config'' PNone body
        in if new = PNone then (Fails 400 ''Missing config in body'', c)
           else case validate_config new of
               Inl e \<Rightarrow> (Crash e, c)
             | Inr errors \<Rightarrow>
                 if errors \<noteq> [] then (Reply (PDict [(''success'', PBool False),
                     (''errors'', PList (map PStr errors))]), c)
                 else (case copy_error of
                     Some e \<Rightarrow> (Crash e, c)
                   | None \<Rightarrow>
                       let c1 = c\<lparr>file_backup := file_contents c\<rparr>
                       in case write of
                           Written \<Rightarrow> (Reply (PDict [(''success'', PBool True), (''message'', PStr ''Config updated''),
                               (''backupPath'', PStr (drop_suffix (file_path c) @ ''.yaml.bak''))]),
                             c1\<lparr>file_contents := Some (Inr new), file_mtime := now, reloads := reloads c + 1\<rparr>)
                         | Open_Raises e \<Rightarrow> (refusal_reply (exn_text e), c1)
                         | Dump_Raises e partial \<Rightarrow> (refusal_reply (exn_text e),
                             c1\<lparr>file_contents := Some partial, file_mtime := now\<rparr>)))"

definition api_config_dry_run :: "(string \<times> pyval) list \<Rightarrow> http" where
  "api_config_dry_run body =
     (let new = body_get ''config'' PNone body
      in if new = PNone then Fails 400 ''Missing config in body''
         else case validate_config new of
             Inl e \<Rightarrow> Crash e
           | Inr errors \<Rightarrow> Reply (PDict [(''valid'', PBool (errors = [])), (''errors'', PList (map PStr errors))]))"

subsection \<open>Commands\<close>

type_synonym protobuf = "(string \<Rightarrow> int option) option"

definition command_types :: "string list" where
  "command_types = [''SET_FPS'', ''CHANGE_MODEL'', ''ENABLE_DEBUG'', ''SET_DETECTION_THRESHOLD'', ''SHUTDOWN'',
     ''RELOAD_MODEL'']"

definition not_available :: http where
  "not_available = refusal_reply ''Orchestrator not available''"

text \<open>
  \<open>type_map.get(cmd_type, 0)\<close>, where the map is built first from attributes of the generated class;
  a list or dictionary as the type cannot be looked up.
\<close>

definition command_number :: "(string \<Rightarrow> int option) \<Rightarrow> pyval \<Rightarrow> exn + int" where
  "command_number pb t =
     (if \<exists>n \<in> set command_types. pb n = None then Inl (Attribute_Error ''command type'')
      else case t of
          PStr s \<Rightarrow> Inr (if s \<in> set command_types then the (pb s) else 0)
        | PList _ \<Rightarrow> Inl (Type_Error ''unhashable type'')
        | PDict _ \<Rightarrow> Inl (Type_Error ''unhashable type'')
        | _ \<Rightarrow> Inr 0)"

definition api_command ::
    "(pyval \<Rightarrow> string) \<Rightarrow> protobuf \<Rightarrow> (pyval \<Rightarrow> exn + int) \<Rightarrow> (string \<times> pyval) list \<Rightarrow> orchestrator option
       \<Rightarrow> http \<times> orchestrator option" where
  "api_command str pb set_id body orch =
     (let t = body_get ''type'' (PStr '''') body;
          params = body_get ''parameters'' (PDict []) body;
          refused = (\<lambda>e. (refusal_reply (exn_text e), orch))
      in if \<not> truthy t then (Fails 400 ''Missing command type'', orch)
         else case orch of
             None \<Rightarrow> (not_available, orch)
           | Some o1 \<Rightarrow>
             (case pb of
                None \<Rightarrow> (refusal_reply ''Protobuf not available'', orch)
              | Some nums \<Rightarrow>
                (case command_number nums t of
                   Inl e \<Rightarrow> refused e
                 | Inr n \<Rightarrow>
                   (case set_id (body_get ''commandId'' (PInt 0) body) of
                      Inl e \<Rightarrow> refused e
                    | Inr i \<Rightarrow>
                      (case params of
                         PDict d \<Rightarrow> (success_reply (''Command '' @ str t @ '' queued''),
                           Some (send_command \<lparr>c_type = n, c_id = i, c_params = map (\<lambda>(k, v). (k, str v)) d\<rparr> o1))
                       | _ \<Rightarrow> refused (Attribute_Error ''items''))))))"

subsection \<open>Models\<close>

definition model_json :: "model_record \<Rightarrow> pyval" where
  "model_json m = PDict
     [(''modelId'', PStr (model_id m)), (''modelPath'', PStr (model_path m)), (''modelType'', PStr (model_type m)),
      (''version'', PStr (version m)), (''status'', PStr (status_value (model_status m))),
      (''npuCore'', PInt (npu_core m)), (''deployedAt'', PFloat (Fin (deployed_at m))),
      (''targetDeviceId'', PStr (target_device_id m)),
      (''metadata'', PDict (map (\<lambda>(k, v). (k, PStr v)) (metadata m)))]"

definition demo_model :: "string \<Rightarrow> string \<Rightarrow> int \<Rightarrow> int \<Rightarrow> real \<Rightarrow> real \<Rightarrow> pyval" where
  "demo_model mid path core mb conf now = PDict
     [(''modelId'', PStr mid), (''modelPath'', PStr path), (''modelType'', PStr ''detection''),
      (''version'', PStr ''v1.0.0''), (''status'', PStr ''deployed''), (''npuCore'', PInt core),
      (''deployedAt'', PFloat (Fin (now - 3600))), (''targetDeviceId'', PStr ''edge-001''),
      (''metadata'', PDict [(''size_mb'', PInt mb), (''avg_confidence'', PFloat (Fin conf))])]"

definition get_demo_models :: "real \<Rightarrow> pyval list" where
  "get_demo_models now =
     [demo_model ''yolov5s-rk3588'' ''/opt/neuro-pipeline/models/yolov5s-640-640.rknn'' 0 8 (55/100) now,
      demo_model ''yolov5m-rk3588'' ''/opt/neuro-pipeline/models/yolov5m-640-640.rknn'' 1 23 (62/100) now,
      demo_model ''yolov8s-rk3588'' ''/opt/neuro-pipeline/models/yolov8s-640-640.rknn'' 2 12 (78/100) now]"

definition api_models :: "registry option \<Rightarrow> string \<Rightarrow> real \<Rightarrow> http" where
  "api_models reg dev now = Reply (PList (case reg of
     None \<Rightarrow> get_demo_models now | Some r \<Rightarrow> map model_json (list_models r dev None)))"

text \<open>A parameter of a command takes a text only.\<close>

definition param_string :: "pyval \<Rightarrow> exn + string" where
  "param_string v = (case v of PStr s \<Rightarrow> Inr s | _ \<Rightarrow> Inl (Type_Error ''bad argument type for built-in operation''))"

definition api_models_switch ::
    "protobuf \<Rightarrow> string \<Rightarrow> (string \<times> pyval) list \<Rightarrow> real \<Rightarrow> orchestrator option \<Rightarrow> http \<times> orchestrator option" where
  "api_models_switch pb mid body now orch =
     (case orch of
        None \<Rightarrow> (not_available, orch)
      | Some o1 \<Rightarrow>
        (case pb of
           None \<Rightarrow> (refusal_reply ''Protobuf not available'', orch)
         | Some nums \<Rightarrow>
           (case nums ''CHANGE_MODEL'' of
              None \<Rightarrow> (refusal_reply ''CHANGE_MODEL'', orch)
            | Some n \<Rightarrow>
              (case param_string (body_get ''device_id'' (PStr ''edge-001'') body) of
                 Inl e \<Rightarrow> (refusal_reply (exn_text e), orch)
               | Inr dev \<Rightarrow> (success_reply (''Switch to '' @ mid @ '' queued''),
                   Some (send_command \<lparr>c_type = n, c_id = trunc_int (now * 1000),
                     c_params = [(''model_id'', mid), (''device_id'', dev)]\<rparr> o1))))))"

definition api_models_reload ::
    "protobuf \<Rightarrow> (string \<times> pyval) list option \<Rightarrow> real \<Rightarrow> orchestrator option \<Rightarrow> http \<times> orchestrator option" where
  "api_models_reload pb body now orch =
     (case orch of
        None \<Rightarrow> (not_available, orch)
      | Some o1 \<Rightarrow>
        (case pb of
           None \<Rightarrow> (refusal_reply ''Protobuf not available'', orch)
         | Some nums \<Rightarrow>
           (case param_string (body_get ''device_id'' (PStr ''edge-001'') (or_else body [])) of
              Inl e \<Rightarrow> (refusal_reply (exn_text e), orch)
            | Inr dev \<Rightarrow> (success_reply ''Reload command queued'',
                Some (send_command \<lparr>c_type = or_else (nums ''RELOAD_MODEL'') 6, c_id = trunc_int (now * 1000),
                  c_params = [(''device_id'', dev)]\<rparr> o1)))))"

definition api_models_rollback :: "string \<Rightarrow> real \<Rightarrow> registry option \<Rightarrow> http \<times> registry option" where
  "api_models_rollback mid now reg =
     (case reg of
        None \<Rightarrow> (Fails 400 ''Model registry not configured'', None)
      | Some r \<Rightarrow>
          let (done, r1) = rollback r mid now
          in (if done then success_reply (''Model '' @ mid @ '' rolled back'')
              else refusal_reply (''Cannot rollback '' @ mid), Some r1))"

subsection \<open>A/B test\<close>

definition variant_json :: "variant_metrics \<Rightarrow> pyval" where
  "variant_json v = PDict
     [(''total_inferences'', PInt (total_inferences v)),
      (''avg_latency_ms'', PFloat (Fin (round_to 2 (avg_latency_ms v)))),
      (''accuracy'', PFloat (Fin (round_to 4 (accuracy v)))),
      (''total_detections'', PInt (total_detections v))]"

definition api_ab_test :: "ab_manager option \<Rightarrow> http" where
  "api_ab_test ab =
     (case ab of
        None \<Rightarrow> Reply (PDict [(''enabled'', PBool False), (''message'', PStr ''A/B testing not configured'')])
      | Some m \<Rightarrow>
          (case evaluate m of
             Inl e \<Rightarrow> Crash e
           | Inr r \<Rightarrow> Reply (PDict
               [(''enabled'', PBool True), (''winner'', PStr (winner r)),
                (''confidence'', PFloat (Fin (Ab_Test.confidence r))),
                (''sufficient_samples'', PBool (sufficient_samples r)),
                (''variants'', PDict (map (\<lambda>(n, v). (n, variant_json v)) (get_metrics m)))])))"

text \<open>
  \<open>not (0.0 <= new_split <= 1.0)\<close> raises for values that are no numbers; NaN is refused. The value
  is stored as it is, without the clamping of the constructor.
\<close>

definition no_split :: http where
  "no_split = Fails 400 ''traffic_split must be between 0 and 1''"

definition api_ab_test_split :: "(string \<times> pyval) list \<Rightarrow> ab_manager option \<Rightarrow> http \<times> ab_manager option" where
  "api_ab_test_split body ab =
     (case ab of
        None \<Rightarrow> (Fails 400 ''A/B testing not configured'', None)
      | Some m \<Rightarrow>
          let v = body_get ''traffic_split'' PNone body
          in if v = PNone then (no_split, ab)
             else case number v of
                 Inl e \<Rightarrow> (Crash e, ab)
               | Inr x \<Rightarrow>
                   if Fin 0 \<le> x \<and> x \<le> Fin 1
                   then (Reply (PDict [(''success'', PBool True), (''traffic_split'', v)]),
                         Some (m\<lparr>traffic_split := finite_part x\<rparr>))
                   else (no_split, ab))"

definition api_ab_test_reset :: "ab_manager option \<Rightarrow> http \<times> ab_manager option" where
  "api_ab_test_reset ab =
     (case ab of
        None \<Rightarrow> (Fails 400 ''A/B testing not configured'', None)
      | Some m \<Rightarrow> (Reply (PDict [(''success'', PBool True)]), Some (reset m)))"

subsection \<open>Devices and status\<close>

fun session_status_value :: "session_status \<Rightarrow> string" where
  "session_status_value Connected = ''connected''"
| "session_status_value Stale = ''stale''"
| "session_status_value Disconnected = ''disconnected''"

definition status_to_connection :: "string \<Rightarrow> string" where
  "status_to_connection s =
     (if s = ''connected'' then ''online'' else if s = ''stale'' then ''degraded'' else ''offline'')"

text \<open>\<open>gauge dev\<close> is the frame rate in the metrics; reading it can raise, which gives 0.\<close>

definition device_json :: "(real \<Rightarrow> string) \<Rightarrow> (string \<Rightarrow> exn + real) \<Rightarrow> session \<Rightarrow> pyval" where
  "device_json iso_text gauge s =
     (let connected = (session_status s = Connected);
          fps = (case gauge (Device_Session.device_id s) of Inl e \<Rightarrow> 0 | Inr x \<Rightarrow> x);
          level = (\<lambda>x. if connected then PFloat (Fin x) else PInt 0)
      in PDict
          [(''id'', PStr (Device_Session.device_id s)),
           (''name'', PStr (if device_name s = '''' then Device_Session.device_id s else device_name s)),
           (''status'', PStr (status_to_connection (session_status_value (session_status s)))),
           (''firmwareVersion'', PStr (firmware_version s)),
           (''capabilities'', PList (map PStr (capabilities s))),
           (''metrics'', PDict [(''cpuUsage'', PInt 0), (''npuUsage'', level 72), (''memoryUsedMb'', PInt 0),
              (''temperatureC'', level 55), (''fps'', PFloat (Fin (round_to 1 fps)))]),
           (''lastSeen'', PStr (iso_text (last_heartbeat s)))])"

definition api_devices :: "(real \<Rightarrow> string) \<Rightarrow> (string \<Rightarrow> exn + real) \<Rightarrow> session_manager option \<Rightarrow> http" where
  "api_devices iso_text gauge sm = Reply (PList (case sm of
     None \<Rightarrow> [] | Some m \<Rightarrow> map (device_json iso_text gauge) (list_sessions m)))"

definition legacy_device :: "session \<Rightarrow> pyval" where
  "legacy_device s = PDict
     [(''device_id'', PStr (Device_Session.device_id s)), (''device_name'', PStr (device_name s)),
      (''status'', PStr (session_status_value (session_status s))),
      (''connected_at'', PFloat (Fin (connected_at s))),
      (''last_heartbeat'', PFloat (Fin (last_heartbeat s))), (''frames_received'', PInt (frames_received s))]"

definition legacy_devices :: "session_manager option \<Rightarrow> http" where
  "legacy_devices sm = Reply (PList (case sm of None \<Rightarrow> [] | Some m \<Rightarrow> map legacy_device (list_sessions m)))"

definition round_int :: "real \<Rightarrow> pyval" where
  "round_int x = PInt (round_half_even x)"

text \<open>
  \<open>metrics_there\<close>: whether the metrics module can be imported; without it the frame rate is
  guessed. \<open>depth\<close> is the queue gauge.
\<close>

definition api_status ::
    "bool \<Rightarrow> (string \<Rightarrow> exn + real) \<Rightarrow> (exn + real) \<Rightarrow> real \<Rightarrow> real \<Rightarrow> session_manager option \<Rightarrow> event_state \<Rightarrow> http" where
  "api_status metrics_there gauge depth began now sm s =
     (let devices = (case sm of None \<Rightarrow> [] | Some m \<Rightarrow> list_sessions m);
          connected = filter (\<lambda>d. session_status d = Connected) devices;
          fps = (if metrics_there
                 then sum_list (map (\<lambda>d. case gauge (Device_Session.device_id d) of Inl e \<Rightarrow> 0 | Inr x \<Rightarrow> x) connected)
                 else real (length connected) * (57/2));
          level = (\<lambda>x. PFloat (Fin (if connected \<noteq> [] then x else 0)))
      in case alert_counts s of
          Inl e \<Rightarrow> Crash e
        | Inr (critical, warning, info) \<Rightarrow> Reply (PDict
            [(''edge'', PDict [(''connectedDevices'', PInt (int (length connected))),
                (''totalFps'', PFloat (Fin (round_to 1 fps))), (''avgNpuUsage'', level 72),
                (''avgTemperature'', level 55)]),
             (''central'', PDict [(''modelLoaded'', PStr ''Llama-3.2-3B-Instruct-4bit-mlx''),
                (''inferenceMode'', PStr ''llm''), (''uptime'', round_int (now - began)),
                (''vlmQueueDepth'', PInt (case depth of Inl e \<Rightarrow> 0 | Inr x \<Rightarrow> trunc_int x))]),
             (''alerts'', PDict [(''critical'', PInt (int critical)), (''warning'', PInt (int warning)),
                (''info'', PInt (int info))])]))"

definition demo_status :: "real \<Rightarrow> real \<Rightarrow> event_state \<Rightarrow> pyval" where
  "demo_status began now s = PDict
     [(''edge'', PDict [(''status'', PStr ''connected''), (''fps'', PFloat (Fin (57/2))),
         (''npu_usage'', PFloat (Fin 72)), (''temperature'', PFloat (Fin 55)),
         (''model'', PStr ''yolov5s-640-640.rknn'')]),
      (''central'', PDict [(''status'', PStr ''running''), (''model'', PStr ''Llama-3.2-3B-Instruct-4bit-mlx''),
         (''uptime_s'', round_int (now - began)), (''events_processed'', PInt (int (length (events s))))])]"

definition legacy_status :: "real \<Rightarrow> real \<Rightarrow> event_state \<Rightarrow> http" where
  "legacy_status began now s = Reply (demo_status began now s)"

subsection \<open>Log level\<close>

text \<open>
  The levels of the root logger and of the named loggers; a logger with handlers of its own keeps
  its level. \<open>number\<close> is the standard library's value of a level name. This handler is not
  guarded by the credentials.
\<close>

record logger =
  logger_name :: string
  has_handlers :: bool
  logger_level :: int

definition valid_levels :: "string list" where
  "valid_levels = [''CRITICAL'', ''DEBUG'', ''ERROR'', ''INFO'', ''WARNING'']"

definition set_log_level ::
    "(string \<Rightarrow> int) \<Rightarrow> (string \<times> pyval) list \<Rightarrow> int \<times> logger list \<Rightarrow> http \<times> int \<times> logger list" where
  "set_log_level num body st =
     (case upper_of (body_get ''level'' (PStr '''') body) of
        Inl e \<Rightarrow> (Crash e, st)
      | Inr l \<Rightarrow>
          if l \<notin> set valid_levels
          then (Fails 400 (''Invalid level: '' @ l @ ''. Must be one of ['' @
                  join '', '' (map in_quotes valid_levels) @ '']''), st)
          else (Reply (PDict [(''level'', PStr (lower l))]), num l,
                map (\<lambda>g. if has_handlers g then g else g\<lparr>logger_level := num l\<rparr>) (snd st)))"

definition get_log_level :: "(int \<Rightarrow> string) \<Rightarrow> int \<times> logger list \<Rightarrow> http" where
  "get_log_level level_name st = Reply (PDict [(''level'', PStr (lower (level_name (fst st))))])"

subsection \<open>What the handlers do\<close>

definition updated_reply :: "config_disk \<Rightarrow> http" where
  "updated_reply c = Reply (PDict [(''success'', PBool True), (''message'', PStr ''Config updated''),
     (''backupPath'', PStr (drop_suffix (file_path c) @ ''.yaml.bak''))])"


definition small_config :: pyval where
  "small_config = PDict [(''edge'', PDict []), (''central'', PDict [])]"


text \<open>
  A command from the dashboard is queued behind the pending ones with the number of its
  type, its id and its parameters as texts; but a type the map does not know, such as
  \<open>SWITCH_MODEL_VARIANT\<close>, is queued with the number 0, which is \<open>SET_FPS\<close>, and reported as
  queued.
\<close>

theorem dashboard_command_queued:
  assumes "body_get ''type'' (PStr '''') body = PStr s" and "s \<noteq> ''''"
    and "body_get ''parameters'' (PDict []) body = PDict d"
    and "set_id (body_get ''commandId'' (PInt 0) body) = Inr i"
    and "\<forall>n \<in> set command_types. nums n \<noteq> None"
  shows "\<exists>o1. api_command str (Some nums) set_id body (Some orch) =
      (success_reply (''Command '' @ str (PStr s) @ '' queued''), Some o1) \<and>
    pending o1 = pending orch @ [\<lparr>c_type = (if s \<in> set command_types then the (nums s) else 0), c_id = i,
      c_params = map (\<lambda>(k, v). (k, str v)) d\<rparr>]"
  using assms
  by (auto simp: api_command_def command_number_def send_command_def pending_def Let_def)

theorem dashboard_command_queued_witness:
  "\<exists>o1. pending o1 = [\<lparr>c_type = 0, c_id = 7, c_params = []\<rparr>] \<and>
     snd (api_command (\<lambda>v. '''') (Some (\<lambda>n. Some 1)) (\<lambda>v. Inr 7)
       [(''type'', PStr ''SWITCH_MODEL_VARIANT'')] (Some fresh)) = Some o1"
proof -
  have "pending fresh = []" by (simp add: pending_def fresh_def new_orchestrator_def new_pipeline_def set_command_queue_def)
  moreover have "''SWITCH_MODEL_VARIANT'' \<notin> set command_types" by (simp add: command_types_def)
  ultimately show ?thesis
    using dashboard_command_queued [of "[(''type'', PStr ''SWITCH_MODEL_VARIANT'')]" "''SWITCH_MODEL_VARIANT''" "[]"
        "\<lambda>v. Inr 7" 7 "\<lambda>n. Some 1" "\<lambda>v. ''''" fresh] by (auto simp: body_get_def)
qed

end
