(* ===== verification/Health.thy ===== *)
theory Health
  imports Config
begin

text \<open>
  The health probes, \<open>observability/health.py\<close>. The checker keeps its orchestrator, store and server,
  each possibly absent; of them it reads whether there is an engine and whether that is loaded,
  whether the store has a connection, and whether the server object was made.
\<close>

record health_checker =
  engine_loaded :: "bool option option"
  db_connection :: "bool option"
  grpc_server :: "bool option"

record health_status =
  alive :: bool
  ready :: bool
  checks :: "(string \<times> bool) list"

definition liveness :: health_status where
  "liveness = \<lparr>alive = True, ready = True, checks = [(''process'', True)]\<rparr>"

text \<open>\<open>engine_loaded\<close> is \<open>None\<close> without an orchestrator, \<open>Some None\<close> for one without an engine.\<close>

definition readiness :: "health_checker \<Rightarrow> health_status" where
  "readiness h =
     (let cs = [(''model_loaded'', engine_loaded h = Some (Some True)), (''db_connected'', db_connection h = Some True),
                (''grpc_serving'', grpc_server h = Some True)]
      in \<lparr>alive = True, ready = list_all snd cs, checks = cs\<rparr>)"

definition checks_json :: "health_status \<Rightarrow> pyval" where
  "checks_json s = PDict (map (\<lambda>(n, b). (n, PBool b)) (checks s))"

text \<open>
  The readiness probe is positive exactly when the engine is loaded, the database is
  open and the server exists, and its list of checks names those and no others that fail.
\<close>

theorem readiness_accounts:
  "map fst (checks (readiness h)) = [''model_loaded'', ''db_connected'', ''grpc_serving''] \<and>
   ready (readiness h) = list_all snd (checks (readiness h)) \<and>
   (ready (readiness h) \<longleftrightarrow> h = \<lparr>engine_loaded = Some (Some True), db_connection = Some True, grpc_server = Some True\<rparr>)"
  by (cases h) (auto simp: readiness_def Let_def)

end
