(* ===== verification/Dashboard_App.thy ===== *)
theory Dashboard_App
  imports Dashboard_Control Dashboard_Analytics Health
begin

text \<open>
  The dashboard as one program: the injected services (\<open>services/deps.py\<close>, \<open>services/state.py\<close>), how
  the routers come to see them (\<open>services/__init__.py\<close>), and the routes with their guards
  (\<open>app.py\<close> and the routers).

  \<open>services/__init__.py\<close> binds each service's name to its value when it is imported, and every v2
  router imports the names from there, so they see what was there at that moment (\<open>bound\<close>); the
  legacy handlers that read \<open>state.detection_store\<close> and \<open>state.session_manager\<close> see the current
  value (\<open>live\<close>). \<open>bound\<close> is a copy: the snapshot is taken when nothing is injected yet, so it holds
  no object that could be shared with \<open>live\<close>.
\<close>

subsection \<open>Services\<close>

text \<open>
  \<open>DashboardDeps\<close>. The time series engine, the reasoning chain and the retriever are only asked
  whether they are there.
\<close>

record deps =
  sv_store :: "event_query option"
  sv_health :: "health_checker option"
  sv_sessions :: "session_manager option"
  sv_orch :: "orchestrator option"
  sv_ab :: "ab_manager option"
  sv_registry :: "registry option"
  sv_config_path :: "string option"
  sv_reid :: "reid_engine option"
  sv_series :: "unit option"
  sv_annotator :: "(event_query option \<times> annotator) option"
  sv_reports :: "event_query option option"
  sv_behavior :: "(event_query option \<times> analyzer) option"
  sv_anomaly :: "anomaly_baseline option"
  sv_chain :: "unit option"
  sv_rag :: "unit option"

definition no_services :: deps where
  "no_services = \<lparr>sv_store = None, sv_health = None, sv_sessions = None, sv_orch = None, sv_ab = None,
     sv_registry = None, sv_config_path = None, sv_reid = None, sv_series = None, sv_annotator = None,
     sv_reports = None, sv_behavior = None, sv_anomaly = None, sv_chain = None, sv_rag = None\<rparr>"

text \<open>The setters of \<open>state.py\<close>; a setter can be called with \<open>None\<close>.\<close>

datatype injection =
    Set_Store "event_query option"
  | Set_Health "health_checker option"
  | Set_Sessions "session_manager option"
  | Set_Orch "orchestrator option"
  | Set_Ab "ab_manager option"
  | Set_Registry "registry option"
  | Set_Config_Path "string option"
  | Set_Reid "reid_engine option"
  | Set_Series "unit option"
  | Set_Annotator "(event_query option \<times> annotator) option"
  | Set_Reports "event_query option option"
  | Set_Behavior "(event_query option \<times> analyzer) option"
  | Set_Anomaly "anomaly_baseline option"
  | Set_Chain "unit option"
  | Set_Rag "unit option"

fun set_service :: "injection \<Rightarrow> deps \<Rightarrow> deps" where
  "set_service (Set_Store x) s = s\<lparr>sv_store := x\<rparr>"
| "set_service (Set_Health x) s = s\<lparr>sv_health := x\<rparr>"
| "set_service (Set_Sessions x) s = s\<lparr>sv_sessions := x\<rparr>"
| "set_service (Set_Orch x) s = s\<lparr>sv_orch := x\<rparr>"
| "set_service (Set_Ab x) s = s\<lparr>sv_ab := x\<rparr>"
| "set_service (Set_Registry x) s = s\<lparr>sv_registry := x\<rparr>"
| "set_service (Set_Config_Path x) s = s\<lparr>sv_config_path := x\<rparr>"
| "set_service (Set_Reid x) s = s\<lparr>sv_reid := x\<rparr>"
| "set_service (Set_Series x) s = s\<lparr>sv_series := x\<rparr>"
| "set_service (Set_Annotator x) s = s\<lparr>sv_annotator := x\<rparr>"
| "set_service (Set_Reports x) s = s\<lparr>sv_reports := x\<rparr>"
| "set_service (Set_Behavior x) s = s\<lparr>sv_behavior := x\<rparr>"
| "set_service (Set_Anomaly x) s = s\<lparr>sv_anomaly := x\<rparr>"
| "set_service (Set_Chain x) s = s\<lparr>sv_chain := x\<rparr>"
| "set_service (Set_Rag x) s = s\<lparr>sv_rag := x\<rparr>"

fun gives_none :: "injection \<Rightarrow> bool" where
  "gives_none (Set_Store x) = (x = None)"
| "gives_none (Set_Health x) = (x = None)"
| "gives_none (Set_Sessions x) = (x = None)"
| "gives_none (Set_Orch x) = (x = None)"
| "gives_none (Set_Ab x) = (x = None)"
| "gives_none (Set_Registry x) = (x = None)"
| "gives_none (Set_Config_Path x) = (x = None)"
| "gives_none (Set_Reid x) = (x = None)"
| "gives_none (Set_Series x) = (x = None)"
| "gives_none (Set_Annotator x) = (x = None)"
| "gives_none (Set_Reports x) = (x = None)"
| "gives_none (Set_Behavior x) = (x = None)"
| "gives_none (Set_Anomaly x) = (x = None)"
| "gives_none (Set_Chain x) = (x = None)"
| "gives_none (Set_Rag x) = (x = None)"

text \<open>Keyword arguments that are \<open>None\<close>, or that no field has the name of, are passed over.\<close>

definition inject_from_central :: "injection option list \<Rightarrow> deps \<Rightarrow> deps" where
  "inject_from_central kwargs s = fold (\<lambda>k s1. case k of
     None \<Rightarrow> s1 | Some i \<Rightarrow> if gives_none i then s1 else set_service i s1) kwargs s"

subsection \<open>The state of the dashboard\<close>

record dashboard =
  bound :: deps
  live :: deps
  board :: event_state
  accounts :: "user list"
  config_files :: "string \<Rightarrow> config_disk"
  log_levels :: "int \<times> logger list"

text \<open>What importing the package does; the configuration files and the loggers are there before.\<close>

definition import_dashboard :: "(string \<Rightarrow> config_disk) \<Rightarrow> int \<times> logger list \<Rightarrow> dashboard" where
  "import_dashboard files levels = \<lparr>bound = no_services, live = no_services,
     board = \<lparr>events = [], clients = []\<rparr>, accounts = demo_users, config_files = files, log_levels = levels\<rparr>"

text \<open>
  What the handlers take from outside: the configured credentials, the clock, the metrics, the
  generated module, the outcome of writing a file, and the demo answers.
\<close>

record surroundings =
  expected :: "string \<times> string"
  fmts :: formats
  iso_time :: "real \<Rightarrow> string"
  metrics_there :: bool
  gauge :: "string \<Rightarrow> exn + real"
  queue_gauge :: "exn + real"
  began :: real
  pb_module :: protobuf
  set_id :: "pyval \<Rightarrow> exn + int"
  takes :: "nat \<Rightarrow> bool"
  row_number :: "det_row \<Rightarrow> int"
  copy_outcome :: "exn option"
  write_outcome :: write_result
  repo_root :: string
  level_number :: "string \<Rightarrow> int"
  level_label :: "int \<Rightarrow> string"
  difference :: "string \<Rightarrow> string \<Rightarrow> real option"
  demo :: "string \<Rightarrow> pyval"

subsection \<open>The routes\<close>

type_synonym json_body = "(string \<times> pyval) list"

datatype request =
    Status | Devices | Events int string string string | History real int string | Post_Event json_body
  | Command json_body
  | Models string | Switch string json_body | Reload "json_body option" | Rollback string
  | Ab_Test | Ab_Split json_body | Ab_Reset
  | Config_Get | Config_Put json_body | Config_Dry_Run json_body
  | Tracks string int | Track string | Samples "bool option" int | Export string | Report_Generate json_body | Report_Get string
  | Users | User_Create json_body | User_Update string json_body | User_Delete string
  | Behavior_Events string string int | Baselines | Scores string int | Guidance string | Apply string
  | Level_Get | Level_Put json_body
  | Legacy_Status | Legacy_Events int string | Legacy_Post json_body | Legacy_History real int string
  | Legacy_Devices | Legacy_Device_Events string int
  | Healthz | Readyz

text \<open>
  The stored events as dictionaries, \<open>row_to_dict\<close>; \<open>row_id\<close> gives the number of a row, which the store's
  model does not keep.
\<close>

definition optional :: "string option \<Rightarrow> pyval" where
  "optional x = (case x of None \<Rightarrow> PNone | Some s \<Rightarrow> PStr s)"

definition detection_dict :: "detection \<Rightarrow> pyval" where
  "detection_dict d = PDict [(''class_name'', PStr (class_name d)), (''confidence'', PFloat (Detection_Store.confidence d)),
     (''x_min'', PFloat (x_min d)), (''y_min'', PFloat (y_min d)), (''x_max'', PFloat (x_max d)),
     (''y_max'', PFloat (y_max d))]"

definition row_to_dict :: "(det_row \<Rightarrow> int) \<Rightarrow> det_row \<Rightarrow> raw_event" where
  "row_to_dict row_id r =
     [(''id'', PInt (row_id r)), (''timestamp'', PFloat (Fin (row_timestamp r))),
      (''frame_id'', case row_frame_id r of None \<Rightarrow> PNone | Some i \<Rightarrow> PInt i), (''trace_id'', optional (row_trace_id r)),
      (''event_type'', PStr (row_event_type r)), (''vlm_result'', optional (row_vlm_result r)),
      (''rule_matched'', optional (row_rule_matched r)), (''device_id'', PStr (row_device_id r)),
      (''detections'', PList (map detection_dict (row_detections r)))]"

definition history_reply :: "real \<Rightarrow> pyval list \<Rightarrow> http" where
  "history_reply hours es =
     respond (PDict [(''count'', PInt (int (length es))), (''hours'', PFloat (Fin hours)), (''events'', PList es)])"

definition history_bounds :: "real \<Rightarrow> int \<Rightarrow> bool" where
  "history_bounds hours limit \<longleftrightarrow> 1/10 \<le> hours \<and> hours \<le> 720 \<and> 1 \<le> limit \<and> limit \<le> 1000"

definition api_events_history :: "(det_row \<Rightarrow> int) \<Rightarrow> formats \<Rightarrow> real \<Rightarrow> real \<Rightarrow> int \<Rightarrow> string \<Rightarrow> event_query option \<Rightarrow> http" where
  "api_events_history row_id f now hours limit dev store =
     (if \<not> history_bounds hours limit then Fails 422 ''query''
      else case store of
          None \<Rightarrow> history_reply hours []
        | Some query \<Rightarrow> (case query (now - hours * 3600) 0 limit dev of
              Inl e \<Rightarrow> Crash e
            | Inr rows \<Rightarrow> (case all_of (\<lambda>r. normalize_event f now (row_to_dict row_id r)) rows of
                  Inl e \<Rightarrow> Crash e
                | Inr es \<Rightarrow> history_reply hours es)))"

definition legacy_history :: "(det_row \<Rightarrow> int) \<Rightarrow> real \<Rightarrow> real \<Rightarrow> int \<Rightarrow> string \<Rightarrow> event_query option \<Rightarrow> http" where
  "legacy_history row_id now hours limit dev store =
     (if \<not> history_bounds hours limit then Fails 422 ''query''
      else case store of
          None \<Rightarrow> Reply (PDict [(''error'', PStr ''No persistent store configured''), (''events'', PList [])])
        | Some query \<Rightarrow> (case query (now - hours * 3600) 0 limit dev of
              Inl e \<Rightarrow> Crash e
            | Inr rows \<Rightarrow> history_reply hours (map (PDict \<circ> row_to_dict row_id) rows)))"

text \<open>The probes; the status code of a readiness that fails is 503.\<close>

definition healthz :: "health_checker option \<Rightarrow> http" where
  "healthz h = Reply (case h of
     None \<Rightarrow> PDict [(''alive'', PBool True)]
   | Some c \<Rightarrow> PDict [(''alive'', PBool (alive liveness)), (''checks'', checks_json liveness)])"

definition readyz :: "health_checker option \<Rightarrow> nat \<times> pyval" where
  "readyz h = (case h of
     None \<Rightarrow> (200, PDict [(''ready'', PBool True)])
   | Some c \<Rightarrow> let s = readiness c in (if ready s then 200 else 503,
       PDict [(''ready'', PBool (ready s)), (''checks'', checks_json s)]))"

subsection \<open>The handlers\<close>

text \<open>A handler works on what it sees of the services; \<open>with_bound\<close> puts back an object it changed.\<close>

definition with_bound :: "(deps \<Rightarrow> deps) \<Rightarrow> dashboard \<Rightarrow> dashboard" where
  "with_bound f d = d\<lparr>bound := f (bound d)\<rparr>"

definition config_name :: "surroundings \<Rightarrow> dashboard \<Rightarrow> string" where
  "config_name e d = resolve_config_path (repo_root e) (sv_config_path (bound d))"

definition put_config :: "surroundings \<Rightarrow> real \<Rightarrow> json_body \<Rightarrow> dashboard \<Rightarrow> http \<times> dashboard" where
  "put_config e now body d =
     (let name = config_name e d;
          (r, c) = api_config_update (copy_outcome e) (write_outcome e) now body (config_files d name)
      in (r, d\<lparr>config_files := (config_files d)(name := c)\<rparr>))"

primrec handle :: "surroundings \<Rightarrow> real \<Rightarrow> request \<Rightarrow> dashboard \<Rightarrow> http \<times> dashboard" where
  "handle e now Status d =
     (api_status (metrics_there e) (gauge e) (queue_gauge e) (began e) now (sv_sessions (bound d)) (board d), d)"
| "handle e now Devices d = (api_devices (iso_time e) (gauge e) (sv_sessions (bound d)), d)"
| "handle e now (Events limit dev sev etype) d = (api_events (fmts e) now limit dev sev etype (board d), d)"
| "handle e now (History hours limit dev) d =
     (api_events_history (row_number e) (fmts e) now hours limit dev (sv_store (bound d)), d)"
| "handle e now (Post_Event ev) d =
     (let (r, b) = post_event (fmts e) (takes e) now ev (board d) in (r, d\<lparr>board := b\<rparr>))"
| "handle e now (Command body) d =
     (let (r, o1) = api_command (rep (fmts e)) (pb_module e) (set_id e) body (sv_orch (bound d))
      in (r, with_bound (\<lambda>s. s\<lparr>sv_orch := o1\<rparr>) d))"
| "handle e now (Models dev) d = (api_models (sv_registry (bound d)) dev now, d)"
| "handle e now (Switch mid body) d =
     (let (r, o1) = api_models_switch (pb_module e) mid body now (sv_orch (bound d))
      in (r, with_bound (\<lambda>s. s\<lparr>sv_orch := o1\<rparr>) d))"
| "handle e now (Reload body) d =
     (let (r, o1) = api_models_reload (pb_module e) body now (sv_orch (bound d))
      in (r, with_bound (\<lambda>s. s\<lparr>sv_orch := o1\<rparr>) d))"
| "handle e now (Rollback mid) d =
     (let (r, g) = api_models_rollback mid now (sv_registry (bound d))
      in (r, with_bound (\<lambda>s. s\<lparr>sv_registry := g\<rparr>) d))"
| "handle e now Ab_Test d = (api_ab_test (sv_ab (bound d)), d)"
| "handle e now (Ab_Split body) d =
     (let (r, a) = api_ab_test_split body (sv_ab (bound d)) in (r, with_bound (\<lambda>s. s\<lparr>sv_ab := a\<rparr>) d))"
| "handle e now Ab_Reset d =
     (let (r, a) = api_ab_test_reset (sv_ab (bound d)) in (r, with_bound (\<lambda>s. s\<lparr>sv_ab := a\<rparr>) d))"
| "handle e now Config_Get d = (api_config (config_files d (config_name e d)), d)"
| "handle e now (Config_Put body) d = put_config e now body d"
| "handle e now (Config_Dry_Run body) d = (api_config_dry_run body, d)"
| "handle e now (Tracks dev limit) d =
     (api_reid_tracks (iso_time e) (demo e ''get_demo_reid_tracks'') limit (sv_reid (bound d)), d)"
| "handle e now (Track tid) d =
     (api_reid_track (iso_time e) (demo e ''get_demo_reid_track'') tid (sv_reid (bound d)), d)"
| "handle e now (Samples verified limit) d =
     (let ann = sv_annotator (bound d);
          (r, a) = api_annotator_samples (iso_time e) (demo e ''get_demo_annotated_samples'') verified limit now
            (Option.bind ann fst) (map_option snd ann)
      in (r, with_bound (\<lambda>s. s\<lparr>sv_annotator := map_option (Pair (Option.bind ann fst)) a\<rparr>) d))"
| "handle e now (Export fmt) d =
     (let ann = sv_annotator (bound d);
          (r, a) = api_annotator_export fmt now (Option.bind ann fst) (map_option snd ann)
      in (r, with_bound (\<lambda>s. s\<lparr>sv_annotator := map_option (Pair (Option.bind ann fst)) a\<rparr>) d))"
| "handle e now (Report_Generate body) d =
     (api_reports_generate (iso_time e) (difference e) body now (sv_reports (bound d)), d)"
| "handle e now (Report_Get rid) d = (api_reports_get (demo e ''api_v2_reports_get'') (iso_time e now) rid, d)"
| "handle e now Users d = (fst (api_users (accounts d)), d)"
| "handle e now (User_Create body) d =
     (let (r, us) = api_users_create body (iso_time e now) (accounts d) in (r, d\<lparr>accounts := us\<rparr>))"
| "handle e now (User_Update uid body) d =
     (let (r, us) = api_users_update uid body (accounts d) in (r, d\<lparr>accounts := us\<rparr>))"
| "handle e now (User_Delete uid) d =
     (let (r, us) = api_users_delete uid (accounts d) in (r, d\<lparr>accounts := us\<rparr>))"
| "handle e now (Behavior_Events dev kind limit) d =
     (api_behavior_events (iso_time e) (demo e ''get_demo_behavior_events'') dev kind limit now
        (sv_store (bound d)) (sv_behavior (bound d)), d)"
| "handle e now Baselines d =
     (api_anomaly_baselines (iso_time e) (demo e ''get_demo_baselines'') (sv_anomaly (bound d)), d)"
| "handle e now (Scores dev hours) d =
     (api_anomaly_scores (demo e ''get_demo_anomaly_scores'') dev hours now (iso_time e now)
        (sv_store (bound d)) (sv_anomaly (bound d)), d)"
| "handle e now (Guidance dev) d =
     (api_vlm_guidance (demo e ''get_demo_vlm_guidance'') (sv_rag (bound d) \<noteq> None) (sv_store (bound d) \<noteq> None), d)"
| "handle e now (Apply gid) d = (api_vlm_guidance_apply gid, d)"
| "handle e now Level_Get d = (get_log_level (level_label e) (log_levels d), d)"
| "handle e now (Level_Put body) d =
     (let (r, l) = set_log_level (level_number e) body (log_levels d) in (r, d\<lparr>log_levels := l\<rparr>))"
| "handle e now Legacy_Status d = (legacy_status (began e) now (board d), d)"
| "handle e now (Legacy_Events limit dev) d = (legacy_events limit dev (board d), d)"
| "handle e now (Legacy_Post body) d = (let (r, b) = legacy_post now body (board d) in (r, d\<lparr>board := b\<rparr>))"
| "handle e now (Legacy_History hours limit dev) d =
     (legacy_history (row_number e) now hours limit dev (sv_store (live d)), d)"
| "handle e now Legacy_Devices d = (legacy_devices (sv_sessions (live d)), d)"
| "handle e now (Legacy_Device_Events dev limit) d = (legacy_device_events dev limit (board d), d)"
| "handle e now Healthz d = (healthz (sv_health (bound d)), d)"
| "handle e now Readyz d =
     (let (code, v) = readyz (sv_health (bound d)) in (if code = 200 then Reply v else Fails code '''', d))"

fun needs_credentials :: "request \<Rightarrow> bool" where
  "needs_credentials Level_Get = False"
| "needs_credentials (Level_Put _) = False"
| "needs_credentials Healthz = False"
| "needs_credentials Readyz = False"
| "needs_credentials _ = True"

type_synonym credentials = "(string \<times> string) option"

definition serve :: "surroundings \<Rightarrow> real \<Rightarrow> credentials \<Rightarrow> request \<Rightarrow> dashboard \<Rightarrow> http \<times> dashboard" where
  "serve e now creds req =
     (if needs_credentials req then guarded (expected e) creds (handle e now req) else handle e now req)"

text \<open>What can happen to the imported package.\<close>

datatype dashboard_op =
    Inject "injection option list"
  | Setter injection
  | Request surroundings real credentials request
  | Socket_Opens nat
  | Socket_Closes nat

fun dashboard_step :: "dashboard \<Rightarrow> dashboard_op \<Rightarrow> dashboard" where
  "dashboard_step d (Inject kwargs) = d\<lparr>live := inject_from_central kwargs (live d)\<rparr>"
| "dashboard_step d (Setter i) = d\<lparr>live := set_service i (live d)\<rparr>"
| "dashboard_step d (Request e now creds req) = snd (serve e now creds req d)"
| "dashboard_step d (Socket_Opens c) = d\<lparr>board := ws_connect c (board d)\<rparr>"
| "dashboard_step d (Socket_Closes c) = d\<lparr>board := ws_disconnect c (board d)\<rparr>"

subsection \<open>What the routes see\<close>

lemmas bound_updates =
  api_command_def api_models_switch_def api_models_reload_def api_models_rollback_def api_ab_test_split_def
  api_ab_test_reset_def api_annotator_samples_def api_annotator_export_def

lemma fst_snd_split: "(let (a, b) = p in f a b) = f (fst p) (snd p)"
  by (simp add: case_prod_beta)

lemma bound_handle:
  assumes "bound d = no_services"
  shows "bound (snd (handle e now req d)) = no_services"
  using assms
  by (cases req) (simp_all add: with_bound_def no_services_def fst_snd_split bound_updates put_config_def Let_def case_prod_beta)

lemma bound_step: "bound d = no_services \<Longrightarrow> bound (dashboard_step d op) = no_services"
  by (cases op) (auto simp: serve_def guarded_def bound_handle split: option.split)

text \<open>The names bound at import are an invariant of the imported package.\<close>

interpretation imported: kept_invariant dashboard_step "\<lambda>d. bound d = no_services"
  by unfold_locales (rule bound_step)

fun reads_state :: "request \<Rightarrow> bool" where
  "reads_state (Legacy_History _ _ _) = True"
| "reads_state Legacy_Devices = True"
| "reads_state _ = False"

lemma handle_live:
  assumes "\<not> reads_state req"
  shows "fst (handle e now req (d\<lparr>live := s\<rparr>)) = fst (handle e now req d)"
  using assms by (cases req) (simp_all add: fst_snd_split put_config_def config_name_def Let_def case_prod_beta)

text \<open>
  Claim C14. Whatever is injected into the dashboard and whatever is requested, in any order, the
  v2 interface stays in demo mode: its answers do not depend on the injected services, models are
  the demo models, every command is refused for want of an orchestrator, a report fails, the
  readiness probe is always positive. Only the two legacy handlers that read the state's module
  see the services.
\<close>

theorem v2_ignores_injected_services:
  assumes "d = foldl dashboard_step (import_dashboard files levels) ops"
    and "verify_credentials (expected e) creds = None"
  shows "(\<forall>req s. reads_state req \<or> fst (serve e now creds req (d\<lparr>live := s\<rparr>)) = fst (serve e now creds req d)) \<and>
    serve e now creds (Models dev) d = (Reply (PList (get_demo_models now)), d) \<and>
    (\<forall>body. \<not> truthy (body_get ''type'' (PStr '''') body) \<or> serve e now creds (Command body) d = (not_available, d)) \<and>
    (\<forall>body. \<nexists>v. fst (serve e now creds (Report_Generate body) d) = Reply v) \<and>
    serve e now creds Readyz d = (Reply (PDict [(''ready'', PBool True)]), d) \<and>
    serve e now creds Legacy_Devices d = (legacy_devices (sv_sessions (live d)), d)"
proof -
  have b: "bound d = no_services" unfolding assms(1) by (rule imported.run_keeps) (simp add: import_dashboard_def)
  have same: "with_bound (\<lambda>s. s\<lparr>sv_orch := None\<rparr>) d = d" using b by (simp add: with_bound_def no_services_def)
  have g: "serve e now creds req d1 = handle e now req d1" for req d1
    using assms(2) by (simp add: serve_def guarded_def)
  have "reads_state req \<or> fst (handle e now req (d\<lparr>live := s\<rparr>)) = fst (handle e now req d)" for req s
    using handle_live by blast
  then show ?thesis
    unfolding g
    by (simp add: b no_services_def api_models_def api_command_def readyz_def Let_def same api_reports_generate_def)
qed

definition plain_surroundings :: surroundings where
  "plain_surroundings = \<lparr>expected = ('''', ''''), fmts = plain_formats, iso_time = \<lambda>_. '''', metrics_there = False,
     gauge = \<lambda>_. Inr 0, queue_gauge = Inr 0, began = 0, pb_module = None, set_id = \<lambda>_. Inr 0, takes = \<lambda>_. True,
     row_number = \<lambda>_. 1, copy_outcome = None, write_outcome = Written, repo_root = '''', level_number = \<lambda>l. int (length l),
     level_label = \<lambda>_. '''', difference = \<lambda>_ _. None, demo = \<lambda>_. PNone\<rparr>"

definition no_files :: "string \<Rightarrow> config_disk" where
  "no_files name = \<lparr>file_path = name, file_contents = None, file_mtime = 0, file_backup = None, reloads = 0\<rparr>"

text \<open>A health checker that knows of nothing is injected, and the probe is still positive.\<close>

theorem v2_ignores_injected_services_witness:
  "fst (serve plain_surroundings 0 None Readyz (foldl dashboard_step (import_dashboard no_files (20, []))
      [Inject [Some (Set_Health (Some \<lparr>engine_loaded = None, db_connection = None, grpc_server = None\<rparr>))]])) =
    Reply (PDict [(''ready'', PBool True)])"
proof -
  have "verify_credentials (expected plain_surroundings) None = None"
    by (simp add: verify_credentials_def plain_surroundings_def)
  from v2_ignores_injected_services [OF refl this, of 0 no_files "(20, [])"
      "[Inject [Some (Set_Health (Some \<lparr>engine_loaded = None, db_connection = None, grpc_server = None\<rparr>))]]" "''''"]
  show ?thesis by (elim conjE) (simp del: foldl_Cons foldl_Nil)
qed

text \<open>
  A request that the credentials refuse changes nothing but the log level: every handler
  is guarded but the two of the log level and the probes, so anyone can set the level of the root
  logger to each of the five values.
\<close>

theorem refused_changes_only_log_level:
  assumes "verify_credentials (expected e) creds = Some refusal"
  shows "(\<not> needs_credentials req \<or> serve e now creds req d = (refusal, d)) \<and>
    snd (serve e now creds req d) = d\<lparr>log_levels := log_levels (snd (serve e now creds req d))\<rparr> \<and>
    list_all (\<lambda>l. fst (log_levels (snd (serve e now creds (Level_Put [(''level'', PStr l)]) d))) = level_number e l) valid_levels"
proof -
  have "snd (handle e now req d) = d\<lparr>log_levels := log_levels (snd (handle e now req d))\<rparr>" if "\<not> needs_credentials req"
    using that by (cases req) (simp_all add: case_prod_beta)
  moreover have "fst (snd (set_log_level num [(''level'', PStr l)] st)) = num l" if "l \<in> set valid_levels" for l num st
    using that by (auto simp: valid_levels_def set_log_level_def body_get_def upper_of_def upper_def upper_char_def)
  ultimately show ?thesis
    using assms by (auto simp: serve_def guarded_def case_prod_beta list_all_iff)
qed

theorem refused_changes_only_log_level_witness:
  "fst (log_levels (snd (serve (plain_surroundings\<lparr>expected := (''admin'', ''secret'')\<rparr>) 0 None
     (Level_Put [(''level'', PStr ''CRITICAL'')]) (import_dashboard no_files (20, []))))) = 8"
proof -
  have "verify_credentials (expected (plain_surroundings\<lparr>expected := (''admin'', ''secret'')\<rparr>)) None =
      Some (Fails 401 ''Authentication required'')"
    by (simp add: verify_credentials_def)
  from refused_changes_only_log_level [OF this, of Status 0 "import_dashboard no_files (20, [])"]
  show ?thesis by (simp add: valid_levels_def plain_surroundings_def)
qed

text \<open>
  The history of the v2 interface shows every stored event as an informational detection
  alert, whatever it was stored as: the normalisation looks for the keys \<open>type\<close> and \<open>severity\<close>,
  and a stored row has \<open>event_type\<close> and no severity.
\<close>

theorem history_loses_kind:
  assumes "normalize_event f now (row_to_dict row_id r) = Inr v"
  shows "\<exists>d. v = PDict d \<and> map_of d ''type'' = Some (PStr ''DETECTION_ALERT'') \<and> map_of d ''severity'' = Some (PStr ''info'') \<and>
    map_of d ''id'' = Some (PInt (row_id r)) \<and> map_of d ''deviceId'' = Some (PStr (row_device_id r))"
  using assms
  by (auto simp: normalize_event_def row_to_dict_def body_get_def upper_of_def upper_def upper_char_def known_type_def
      event_types_def severity_of_def severities_def Let_def split: sum.splits)

definition stored_row :: det_row where
  "stored_row = \<lparr>row_timestamp = 90, row_frame_id = None, row_trace_id = None, row_event_type = ''anomaly_alert'',
     row_detections = [], row_vlm_result = None, row_rule_matched = None, row_device_id = ''cam''\<rparr>"

theorem history_loses_kind_witness:
  "\<exists>v d. normalize_event plain_formats 99 (row_to_dict (\<lambda>_. 7) stored_row) = Inr v \<and> v = PDict d \<and>
     map_of d ''severity'' = Some (PStr ''info'')"
proof -
  have "\<exists>v. normalize_event plain_formats 99 (row_to_dict (\<lambda>_. 7) stored_row) = Inr v"
    by (simp add: normalize_event_def plain_formats_def row_to_dict_def stored_row_def optional_def body_get_def
        time_text_def as_number_def upper_of_def boxes_of_def metadata_of_def Let_def)
  then obtain v where v: "normalize_event plain_formats 99 (row_to_dict (\<lambda>_. 7) stored_row) = Inr v" by (elim exE)
  from history_loses_kind [OF v] v show ?thesis by blast
qed


subsection \<open>The embedded dashboard\<close>

text \<open>The call of \<open>inject_from_central\<close> in \<open>main.py\<close>, with the services \<open>s\<close> of the container.\<close>

definition embed_kwargs :: "deps \<Rightarrow> injection option list" where
  "embed_kwargs s = map Some
     [Set_Store (sv_store s), Set_Sessions (sv_sessions s), Set_Orch (sv_orch s), Set_Health None, Set_Ab (sv_ab s),
      Set_Registry (sv_registry s), Set_Reid (sv_reid s), Set_Series (sv_series s), Set_Annotator (sv_annotator s),
      Set_Reports (sv_reports s), Set_Behavior (sv_behavior s), Set_Anomaly (sv_anomaly s), Set_Chain (sv_chain s),
      Set_Rag (sv_rag s)]"

lemma inject_fresh:
  "sv_store r = None \<Longrightarrow> inject_from_central (Some (Set_Store x1) # ks) r = inject_from_central ks (r\<lparr>sv_store := x1\<rparr>)"
  "sv_sessions r = None \<Longrightarrow> inject_from_central (Some (Set_Sessions x2) # ks) r = inject_from_central ks (r\<lparr>sv_sessions := x2\<rparr>)"
  "sv_orch r = None \<Longrightarrow> inject_from_central (Some (Set_Orch x3) # ks) r = inject_from_central ks (r\<lparr>sv_orch := x3\<rparr>)"
  "sv_ab r = None \<Longrightarrow> inject_from_central (Some (Set_Ab x4) # ks) r = inject_from_central ks (r\<lparr>sv_ab := x4\<rparr>)"
  "sv_registry r = None \<Longrightarrow> inject_from_central (Some (Set_Registry x5) # ks) r = inject_from_central ks (r\<lparr>sv_registry := x5\<rparr>)"
  "sv_reid r = None \<Longrightarrow> inject_from_central (Some (Set_Reid x6) # ks) r = inject_from_central ks (r\<lparr>sv_reid := x6\<rparr>)"
  "sv_series r = None \<Longrightarrow> inject_from_central (Some (Set_Series x7) # ks) r = inject_from_central ks (r\<lparr>sv_series := x7\<rparr>)"
  "sv_annotator r = None \<Longrightarrow> inject_from_central (Some (Set_Annotator x8) # ks) r = inject_from_central ks (r\<lparr>sv_annotator := x8\<rparr>)"
  "sv_reports r = None \<Longrightarrow> inject_from_central (Some (Set_Reports x9) # ks) r = inject_from_central ks (r\<lparr>sv_reports := x9\<rparr>)"
  "sv_behavior r = None \<Longrightarrow> inject_from_central (Some (Set_Behavior x10) # ks) r = inject_from_central ks (r\<lparr>sv_behavior := x10\<rparr>)"
  "sv_anomaly r = None \<Longrightarrow> inject_from_central (Some (Set_Anomaly x11) # ks) r = inject_from_central ks (r\<lparr>sv_anomaly := x11\<rparr>)"
  "sv_chain r = None \<Longrightarrow> inject_from_central (Some (Set_Chain x12) # ks) r = inject_from_central ks (r\<lparr>sv_chain := x12\<rparr>)"
  "sv_rag r = None \<Longrightarrow> inject_from_central (Some (Set_Rag x13) # ks) r = inject_from_central ks (r\<lparr>sv_rag := x13\<rparr>)"
  "inject_from_central (Some (Set_Health None) # ks) r = inject_from_central ks r"
  "inject_from_central [] r = r"
  by (cases r; auto simp: inject_from_central_def)+

lemma embedded_live:
  "live (dashboard_step (import_dashboard files levels) (Inject (embed_kwargs s))) = s\<lparr>sv_health := None, sv_config_path := None\<rparr>"
proof -
  have none: "sv_store no_services = None" "sv_sessions no_services = None" "sv_orch no_services = None"
      "sv_ab no_services = None" "sv_registry no_services = None" "sv_reid no_services = None" "sv_series no_services = None"
      "sv_annotator no_services = None" "sv_reports no_services = None" "sv_behavior no_services = None"
      "sv_anomaly no_services = None" "sv_chain no_services = None" "sv_rag no_services = None"
    by (simp_all add: no_services_def)
  have "inject_from_central (embed_kwargs s) no_services = no_services\<lparr>sv_store := sv_store s, sv_sessions := sv_sessions s,
      sv_orch := sv_orch s, sv_ab := sv_ab s, sv_registry := sv_registry s, sv_reid := sv_reid s, sv_series := sv_series s,
      sv_annotator := sv_annotator s, sv_reports := sv_reports s, sv_behavior := sv_behavior s,
      sv_anomaly := sv_anomaly s, sv_chain := sv_chain s, sv_rag := sv_rag s\<rparr>"
    by (simp add: embed_kwargs_def inject_fresh none)
  then show ?thesis by (cases s) (simp add: import_dashboard_def no_services_def)
qed

text \<open>
  The dashboard that the server embeds gets every service of the container but a health
  checker and the path of the configuration; whatever path is set later, its configuration
  endpoints work on \<open>config.yaml\<close> of the repository, so an accepted update never reaches a server
  that was started with another file.
\<close>

theorem embedded_dashboard_config:
  assumes "d = foldl dashboard_step (import_dashboard files levels) (Inject (embed_kwargs s) # ops)"
    and "verify_credentials (expected e) creds = None"
  shows "live (dashboard_step (import_dashboard files levels) (Inject (embed_kwargs s))) =
      s\<lparr>sv_health := None, sv_config_path := None\<rparr> \<and>
    config_name e d = repo_root e @ ''/config.yaml'' \<and>
    (\<forall>name. name = repo_root e @ ''/config.yaml'' \<or>
      config_files (snd (serve e now creds (Config_Put body) d)) name = config_files d name) \<and>
    fst (serve e now creds Config_Get d) = api_config (config_files d (repo_root e @ ''/config.yaml''))"
proof -
  have "bound d = no_services"
    unfolding assms(1) by (rule imported.run_keeps) (simp add: import_dashboard_def)
  then have c: "config_name e d = repo_root e @ ''/config.yaml''"
    by (simp add: config_name_def resolve_config_path_def no_services_def)
  have g: "serve e now creds req d1 = handle e now req d1" for req d1
    using assms(2) by (simp add: serve_def guarded_def)
  show ?thesis
    by (intro conjI, rule embedded_live) (simp_all add: c g put_config_def Let_def case_prod_beta)
qed

theorem embedded_dashboard_config_witness:
  "config_name plain_surroundings (foldl dashboard_step (import_dashboard no_files (20, []))
     [Inject (embed_kwargs no_services), Setter (Set_Config_Path (Some ''/etc/np/central.yaml''))]) = ''/config.yaml''"
proof -
  have "verify_credentials (expected plain_surroundings) None = None"
    by (simp add: verify_credentials_def plain_surroundings_def)
  from embedded_dashboard_config [OF refl this, of no_files "(20, [])" no_services
      "[Setter (Set_Config_Path (Some ''/etc/np/central.yaml''))]" 0 "[]"]
  have "config_name plain_surroundings (foldl dashboard_step (import_dashboard no_files (20, []))
     [Inject (embed_kwargs no_services), Setter (Set_Config_Path (Some ''/etc/np/central.yaml''))]) =
      repo_root plain_surroundings @ ''/config.yaml''" by (elim conjE)
  then show ?thesis by (simp add: plain_surroundings_def)
qed

end
