(* ===== verification/Dashboard_Pages.thy ===== *)
theory Dashboard_Pages
  imports Dashboard_App
begin

text \<open>
  The pages that are not JSON: the index page, which \<open>app.py\<close> serves at the root and \<open>routers/legacy.py\<close>
  under \<open>/api/\<close>, and the metrics text. \<open>render\<close> is the Jinja template, as a function of what it is given or
  an exception, \<open>exposition\<close> the text that the Prometheus client generates. No page changes the state.
\<close>

datatype page = Root_Page | Legacy_Page | Metrics_Page

definition index_context :: "real \<Rightarrow> real \<Rightarrow> event_state \<Rightarrow> json_body" where
  "index_context since now s =
     [(''status'', demo_status since now s), (''events'', PList (map PDict (slice_from (events s) (- 20))))]"

definition index_page :: "(json_body \<Rightarrow> exn + string) \<Rightarrow> surroundings \<Rightarrow> real \<Rightarrow> dashboard \<Rightarrow> http \<times> dashboard" where
  "index_page render e now d =
     (case render (index_context (began e) now (board d)) of Inl x \<Rightarrow> Crash x | Inr html \<Rightarrow> Reply (PStr html), d)"

definition legacy_page ::
    "(json_body \<Rightarrow> exn + string) \<Rightarrow> surroundings \<Rightarrow> real \<Rightarrow> credentials \<Rightarrow> dashboard \<Rightarrow> http \<times> dashboard" where
  "legacy_page render e now creds = guarded (expected e) creds (index_page render e now)"

definition metrics_page :: "string \<Rightarrow> http" where
  "metrics_page exposition = Reply (PStr exposition)"

fun serve_page ::
    "(json_body \<Rightarrow> exn + string) \<Rightarrow> string \<Rightarrow> surroundings \<Rightarrow> real \<Rightarrow> credentials \<Rightarrow> page \<Rightarrow> dashboard \<Rightarrow> http \<times> dashboard" where
  "serve_page render exposition e now creds Root_Page d = index_page render e now d"
| "serve_page render exposition e now creds Legacy_Page d = legacy_page render e now creds d"
| "serve_page render exposition e now creds Metrics_Page d = (metrics_page exposition, d)"

text \<open>The events after some legacy posts, each at its time.\<close>

definition post_all :: "surroundings \<Rightarrow> credentials \<Rightarrow> (real \<times> json_body) list \<Rightarrow> dashboard \<Rightarrow> dashboard" where
  "post_all e creds posts d = foldl (\<lambda>d (t, body). snd (serve e t creds (Legacy_Post body) d)) d posts"

definition dated :: "real \<times> json_body \<Rightarrow> json_body" where
  "dated p = AList.update ''timestamp'' (body_get ''timestamp'' (PFloat (Fin (fst p))) (snd p)) (snd p)"

lemma post_all_events:
  assumes "verify_credentials (expected e) creds = None"
  shows "events (board (post_all e creds posts d)) = events (board d) @ map dated posts"
proof (induction posts arbitrary: d)
  case (Cons p posts)
  have "events (board (snd (serve e (fst p) creds (Legacy_Post (snd p)) d))) = events (board d) @ [dated p]"
    using assms by (simp add: serve_def guarded_def legacy_post_def dated_def Let_def)
  with Cons [of "snd (serve e (fst p) creds (Legacy_Post (snd p)) d)"] show ?case
    by (simp add: post_all_def split_beta)
qed (simp add: post_all_def)

text \<open>
  Claim C38. What the credentials protect is public at the root. The page under \<open>/api/\<close> is refused without the
  configured credentials, while the root shows to everyone the page that the right
  credentials would show there; an event that a client with credentials posts is on it until twenty more were posted.
\<close>

theorem root_page_is_public:
  assumes "verify_credentials (expected e) creds = Some refusal" and "verify_credentials (expected e) good = None"
    and "length later < 20" and "d = post_all e good ((t, body) # later) d0"
  shows "serve_page render exposition e now creds Legacy_Page d = (refusal, d) \<and>
    serve_page render exposition e now creds Root_Page d = serve_page render exposition e now good Legacy_Page d \<and>
    (\<exists>es. map_of (index_context (began e) now (board d)) ''events'' = Some (PList es) \<and> PDict (dated (t, body)) \<in> set es)"
proof -
  have "events (board d) = events (board d0) @ dated (t, body) # map dated later"
    using post_all_events [OF assms(2)] by (simp add: assms(4))
  then have "dated (t, body) \<in> set (slice_from (events (board d)) (- 20))"
    using in_keep_last [of "map dated later" 20 "dated (t, body)"] assms(3) by (simp add: slice_last)
  then have "PDict (dated (t, body)) \<in> set (map PDict (slice_from (events (board d)) (- 20)))" by simp
  then show ?thesis using assms(1,2) by (simp add: legacy_page_def guarded_def index_context_def)
qed

theorem root_page_is_public_witness:
  "\<exists>e d es. serve_page (\<lambda>_. Inr ''page'') '''' e 0 None Legacy_Page d = (Fails 401 ''Authentication required'', d) \<and>
     serve_page (\<lambda>_. Inr ''page'') '''' e 0 None Root_Page d = (Reply (PStr ''page''), d) \<and>
     map_of (index_context (began e) 0 (board d)) ''events'' = Some (PList es) \<and>
     PDict [(''type'', PStr ''alarm''), (''timestamp'', PFloat (Fin 5))] \<in> set es"
proof -
  let ?e = "plain_surroundings\<lparr>expected := (''admin'', ''secret'')\<rparr>"
  let ?d = "post_all ?e (Some (''admin'', ''secret'')) [(5, [(''type'', PStr ''alarm'')])] (import_dashboard no_files (20, []))"
  have refused: "verify_credentials (expected ?e) None = Some (Fails 401 ''Authentication required'')"
    by (simp add: verify_credentials_def)
  have accepted: "verify_credentials (expected ?e) (Some (''admin'', ''secret'')) = None"
    by (simp add: verify_credentials_def compare_digest_def ascii_def)
  have "dated (5, [(''type'', PStr ''alarm'')]) = [(''type'', PStr ''alarm''), (''timestamp'', PFloat (Fin 5))]"
    by (simp add: dated_def body_get_def)
  with root_page_is_public [where render = "\<lambda>_. Inr ''page''" and exposition = "''''" and now = 0 and later = "[]",
      OF refused accepted _ refl, of 5 "[(''type'', PStr ''alarm'')]" "import_dashboard no_files (20, [])"]
  show ?thesis
    by (intro exI [of _ ?e] exI [of _ ?d]) (auto simp: index_page_def)
qed

end
