(* ===== verification/Demo_Data.thy ===== *)
theory Demo_Data
  imports Dashboard_App "HOL-Library.State_Monad" "HOL-Library.List_Lexorder" "HOL-Library.Char_ord"
begin

text \<open>
  The generators of demo answers, \<open>services/demo_data.py\<close>. They draw from \<open>random\<close>, which here is a
  sequence of real numbers that a state monad consumes: \<open>random()\<close> is a fractional part, \<open>gauss\<close>
  takes the number itself, and a choice is made by an index below the length. Texts are UTF-8 bytes.
  \<open>iso_text\<close> is the ISO text of a time. (With the annotations of Python before 3.14 the module cannot be
  imported at all, since \<open>Optional\<close> is only imported at its end; this is about the module imported.)
\<close>

subsection \<open>Random numbers\<close>

record source =
  numbers :: "nat \<Rightarrow> real"
  drawn :: nat

type_synonym 'a draw = "(source, 'a) state"

definition gauss :: "real draw" where
  "gauss = State (\<lambda>s. (numbers s (drawn s), s\<lparr>drawn := Suc (drawn s)\<rparr>))"

definition unit_draw :: "real draw" where
  "unit_draw = State_Monad.bind gauss (\<lambda>x. State_Monad.return (frac x))"

definition uniform :: "real \<Rightarrow> real \<Rightarrow> real draw" where
  "uniform a b = State_Monad.bind unit_draw (\<lambda>u. State_Monad.return (a + (b - a) * u))"

definition randint :: "int \<Rightarrow> int \<Rightarrow> int draw" where
  "randint a b = State_Monad.bind unit_draw (\<lambda>u. State_Monad.return (a + \<lfloor>u * real_of_int (b - a + 1)\<rfloor>))"

definition choice :: "'a list \<Rightarrow> 'a draw" where
  "choice xs = State_Monad.bind unit_draw (\<lambda>u. State_Monad.return (xs ! nat \<lfloor>u * real (length xs)\<rfloor>))"

subsection \<open>Texts\<close>

definition utf8 :: "nat list \<Rightarrow> string" where
  "utf8 bytes = map char_of bytes"

definition low_night_text :: string where
  "low_night_text = utf8
     [230, 163, 128, 230, 181, 139, 229, 136, 176, 229, 164, 156, 233, 151, 180, 229, 156, 186, 230, 153,
     175, 228, 184, 173, 231, 189, 174, 228, 191, 161, 229, 186, 166, 232, 190, 131, 228, 189, 142,
     239, 188, 140, 229, 187, 186, 232, 174, 174, 233, 153, 141, 228, 189, 142, 233, 152, 136, 229,
     128, 188, 228, 187, 165, 230, 143, 144, 233, 171, 152, 229, 143, 172, 229, 155, 158, 231, 142,
     135]"

definition lower_threshold_text :: string where
  "lower_threshold_text = utf8
     [229, 164, 156, 233, 151, 180, 228, 189, 142, 229, 133, 137, 231, 142, 175, 229, 162, 131, 228, 184,
     139, 229, 187, 186, 232, 174, 174, 233, 153, 141, 228, 189, 142, 233, 152, 136, 229, 128, 188]"

definition lower_fps_text :: string where
  "lower_fps_text = utf8
     [229, 164, 156, 233, 151, 180, 228, 189, 142, 230, 180, 187, 229, 138, 168, 230, 156, 159, 229, 143,
     175, 233, 153, 141, 228, 189, 142, 229, 184, 167, 231, 142, 135, 228, 187, 165, 232, 138, 130,
     231, 156, 129, 232, 181, 132, 230, 186, 144]"

definition peak_text :: string where
  "peak_text = utf8
     [233, 171, 152, 229, 179, 176, 230, 156, 159, 230, 163, 128, 230, 181, 139, 229, 187, 182, 232, 191,
     159, 232, 190, 131, 233, 171, 152, 239, 188, 140, 229, 187, 186, 232, 174, 174, 229, 144, 175,
     231, 148, 168, 232, 135, 170, 233, 128, 130, 229, 186, 148, 229, 184, 167, 231, 142, 135]"

definition adaptive_text :: string where
  "adaptive_text = utf8
     [229, 144, 175, 231, 148, 168, 232, 135, 170, 233, 128, 130, 229, 186, 148, 229, 184, 167, 231, 142,
     135, 229, 143, 175, 229, 138, 168, 230, 128, 129, 232, 176, 131, 230, 149, 180, 232, 180, 159,
     232, 189, 189]"

definition demo_devices :: "string list" where
  "demo_devices = [''device-1'', ''device-2'', ''device-3'']"

definition demo_behavior_types :: "string list" where
  "demo_behavior_types = [''LOITERING'', ''RUNNING'', ''CROWD'', ''FALL'', ''INTRUSION'', ''ABANDONED_OBJECT'']"

definition devices_for :: "string \<Rightarrow> string list" where
  "devices_for dev = (if dev = '''' then demo_devices else [dev])"

abbreviation real_json :: "nat \<Rightarrow> real \<Rightarrow> pyval" where
  "real_json n x \<equiv> PFloat (Fin (rounded n x))"

subsection \<open>The generators\<close>

definition random_bbox :: "pyval draw" where
  "random_bbox = do {
     c \<leftarrow> uniform (8/10) (95/100);
     x0 \<leftarrow> uniform (1/10) (4/10); y0 \<leftarrow> uniform (1/10) (4/10);
     x1 \<leftarrow> uniform (5/10) (9/10); y1 \<leftarrow> uniform (5/10) (9/10);
     State_Monad.return (PDict [(''boundingBox'', PDict [(''classId'', PInt 0), (''className'', PStr ''person''),
       (''confidence'', real_json 2 c), (''xMin'', real_json 2 x0), (''yMin'', real_json 2 y0),
       (''xMax'', real_json 2 x1), (''yMax'', real_json 2 y1)])])
   }"

definition demo_behavior_event :: "(real \<Rightarrow> string) \<Rightarrow> real \<Rightarrow> string \<Rightarrow> string \<Rightarrow> nat \<Rightarrow> pyval draw" where
  "demo_behavior_event iso_text now dev kind i = do {
     btype \<leftarrow> (if kind = '''' then choice demo_behavior_types else State_Monad.return kind);
     d \<leftarrow> choice (devices_for dev);
     c \<leftarrow> uniform (7/10) (99/100);
     n \<leftarrow> randint 100 999;
     box \<leftarrow> random_bbox;
     seconds \<leftarrow> randint 5 60;
     State_Monad.return (PDict [(''id'', PStr (''behavior-'' @ dec (i + 1))), (''deviceId'', PStr d), (''behaviorType'', PStr btype),
       (''confidence'', real_json 2 c), (''timestamp'', PStr (iso_text (now - real i * 300))),
       (''trackId'', PStr (''track-'' @ str_int n)), (''boundingBox'', box),
       (''metadata'', PDict [(''duration_seconds'', PInt seconds)])])
   }"

definition get_demo_behavior_events ::
    "(real \<Rightarrow> string) \<Rightarrow> real \<Rightarrow> string \<Rightarrow> string \<Rightarrow> int \<Rightarrow> pyval list draw" where
  "get_demo_behavior_events iso_text now dev kind limit =
     State_Monad.traverse_list (demo_behavior_event iso_text now dev kind) [0..<nat (min limit 20)]"

definition demo_baseline :: "string \<Rightarrow> real \<Rightarrow> real \<Rightarrow> string \<Rightarrow> pyval" where
  "demo_baseline name avg dev time = PDict [(''metricName'', PStr name), (''mean'', PFloat (Fin avg)), (''stdDev'', PFloat (Fin dev)),
     (''sampleCount'', PInt 168), (''lastUpdated'', PStr time)]"

definition get_demo_baselines :: "(real \<Rightarrow> string) \<Rightarrow> real \<Rightarrow> pyval list" where
  "get_demo_baselines iso_text now =
     [demo_baseline ''detections_per_hour'' (452/10) (123/10) (iso_text now),
      demo_baseline ''avg_confidence'' (72/100) (8/100) (iso_text now),
      demo_baseline ''latency_ms'' (225/10) (51/10) (iso_text now)]"

text \<open>A drawn score beyond 3 is replaced by one between 3.1 and 5, of either sign.\<close>

definition shown_z :: "real \<Rightarrow> real draw" where
  "shown_z z0 = (if 3 < \<bar>z0\<bar> then do { sign \<leftarrow> choice [-1, 1]; size \<leftarrow> uniform (31/10) 5; State_Monad.return (sign * size) }
     else State_Monad.return z0)"

definition demo_score :: "(real \<Rightarrow> string) \<Rightarrow> real \<Rightarrow> string \<Rightarrow> nat \<Rightarrow> pyval draw" where
  "demo_score iso_text now dev i = do {
     metric \<leftarrow> choice [''detections_per_hour'', ''avg_confidence'', ''latency_ms''];
     z0 \<leftarrow> gauss;
     z \<leftarrow> shown_z z0;
     d \<leftarrow> choice (devices_for dev);
     v \<leftarrow> uniform 10 100;
     State_Monad.return (PDict [(''id'', PStr (''anomaly-'' @ dec (i + 1))), (''deviceId'', PStr d), (''metricName'', PStr metric),
       (''zScore'', real_json 2 z), (''isAnomaly'', PBool (3 < \<bar>z0\<bar>)),
       (''timestamp'', PStr (iso_text (now - real i * 1800))), (''value'', real_json 1 v)])
   }"

definition get_demo_anomaly_scores :: "(real \<Rightarrow> string) \<Rightarrow> real \<Rightarrow> string \<Rightarrow> int \<Rightarrow> pyval list draw" where
  "get_demo_anomaly_scores iso_text now dev hours =
     State_Monad.traverse_list (demo_score iso_text now dev) [0..<nat (min (hours * 2) 48)]"

definition adjustment_json :: "string \<Rightarrow> pyval \<Rightarrow> pyval \<Rightarrow> string \<Rightarrow> string \<Rightarrow> pyval" where
  "adjustment_json name current suggested reason impact = PDict [(''parameter'', PStr name), (''currentValue'', current),
     (''suggestedValue'', suggested), (''reason'', PStr reason), (''impact'', PStr impact)]"

definition guidance_json :: "string \<Rightarrow> string \<Rightarrow> string \<Rightarrow> string \<Rightarrow> pyval list \<Rightarrow> pyval" where
  "guidance_json gid dev time text_of adjustments_of = PDict [(''id'', PStr gid), (''deviceId'', PStr dev),
     (''timestamp'', PStr time), (''analysis'', PStr text_of), (''adjustments'', PList adjustments_of), (''applied'', PBool False)]"

definition get_demo_vlm_guidance :: "(real \<Rightarrow> string) \<Rightarrow> real \<Rightarrow> string \<Rightarrow> pyval list" where
  "get_demo_vlm_guidance iso_text now dev =
     [guidance_json ''guidance-1'' (if dev = '''' then ''device-1'' else dev) (iso_text now) low_night_text
        [adjustment_json ''confidence_threshold'' (PFloat (Fin (5/10))) (PFloat (Fin (35/100))) lower_threshold_text ''medium'',
         adjustment_json ''fps'' (PInt 30) (PInt 15) lower_fps_text ''low''],
      guidance_json ''guidance-2'' (if dev = '''' then ''device-2'' else dev) (iso_text (now - 3600)) peak_text
        [adjustment_json ''adaptive_fps.enabled'' (PBool False) (PBool True) adaptive_text ''high'']]"

text \<open>An appearance of a track, with its timestamp, which is compared as a text.\<close>

definition demo_appearance :: "(real \<Rightarrow> string) \<Rightarrow> real \<Rightarrow> (string \<times> pyval) draw" where
  "demo_appearance iso_text now = do {
     d \<leftarrow> choice demo_devices;
     ago \<leftarrow> randint 0 3600;
     box \<leftarrow> random_bbox;
     c \<leftarrow> uniform (75/100) (95/100);
     State_Monad.return (iso_text (now - real_of_int ago), PDict [(''deviceId'', PStr d),
       (''timestamp'', PStr (iso_text (now - real_of_int ago))), (''boundingBox'', box), (''confidence'', real_json 2 c)])
   }"

definition demo_track_json :: "string \<Rightarrow> string \<Rightarrow> pyval list \<Rightarrow> string \<Rightarrow> string \<Rightarrow> int \<Rightarrow> pyval" where
  "demo_track_json tid gid as first_seen last_seen duration = PDict [(''trackId'', PStr tid), (''globalId'', PStr gid),
     (''appearances'', PList as), (''firstSeen'', PStr first_seen), (''lastSeen'', PStr last_seen), (''totalDuration'', PInt duration)]"

definition demo_reid_track :: "(real \<Rightarrow> string) \<Rightarrow> real \<Rightarrow> nat \<Rightarrow> pyval draw" where
  "demo_reid_track iso_text now i = do {
     n \<leftarrow> randint 2 4;
     as \<leftarrow> State_Monad.traverse_list (\<lambda>_. demo_appearance iso_text now) [0..<nat n];
     duration \<leftarrow> randint 60 600;
     State_Monad.return (demo_track_json (''reid-'' @ pad4 (i + 1)) (''global-'' @ dec (1000 + i)) (map snd as)
       (Min (set (map fst as))) (Max (set (map fst as))) duration)
   }"

definition get_demo_reid_tracks :: "(real \<Rightarrow> string) \<Rightarrow> real \<Rightarrow> int \<Rightarrow> pyval list draw" where
  "get_demo_reid_tracks iso_text now limit =
     State_Monad.traverse_list (demo_reid_track iso_text now) [0..<nat (min limit 10)]"

definition get_demo_reid_track :: "(real \<Rightarrow> string) \<Rightarrow> real \<Rightarrow> string \<Rightarrow> pyval draw" where
  "get_demo_reid_track iso_text now tid = do {
     n \<leftarrow> randint 3 5;
     as \<leftarrow> State_Monad.traverse_list (\<lambda>_. demo_appearance iso_text now) [0..<nat n];
     duration \<leftarrow> randint 120 900;
     State_Monad.return (demo_track_json tid ''global-1001'' (map snd as) (fst (hd as)) (fst (last as)) duration)
   }"

definition inner_box :: "pyval \<Rightarrow> pyval" where
  "inner_box v = (case v of PDict d \<Rightarrow> body_get ''boundingBox'' PNone d | _ \<Rightarrow> PNone)"

definition demo_sample :: "(real \<Rightarrow> string) \<Rightarrow> real \<Rightarrow> bool option \<Rightarrow> nat \<Rightarrow> pyval draw" where
  "demo_sample iso_text now verified i = do {
     box \<leftarrow> random_bbox;
     d \<leftarrow> choice demo_devices;
     ago \<leftarrow> randint 0 86400;
     ok \<leftarrow> (case verified of None \<Rightarrow> choice [True, False] | Some b \<Rightarrow> State_Monad.return b);
     State_Monad.return (PDict [(''id'', PStr (''sample-'' @ dec (i + 1))),
       (''imageUrl'', PStr (''/api/v2/annotator/samples/'' @ dec (i + 1) @ ''/image'')),
       (''annotations'', PList [inner_box box]), (''sourceDevice'', PStr d),
       (''capturedAt'', PStr (iso_text (now - real_of_int ago))), (''verified'', PBool ok)])
   }"

definition get_demo_annotated_samples :: "(real \<Rightarrow> string) \<Rightarrow> real \<Rightarrow> bool option \<Rightarrow> int \<Rightarrow> pyval list draw" where
  "get_demo_annotated_samples iso_text now verified limit =
     State_Monad.traverse_list (demo_sample iso_text now verified) [0..<nat (min limit 20)]"

subsection \<open>Facts that hold of every draw\<close>

text \<open>\<open>pred_state P m\<close>: every value that \<open>m\<close> can produce, from any source, satisfies \<open>P\<close>.\<close>

lemma draw_return: "P x \<Longrightarrow> pred_state P (State_Monad.return x)"
  by (auto simp: State_Monad.return_def)

lemma draw_bind:
  "pred_state Q m \<Longrightarrow> (\<And>x. Q x \<Longrightarrow> pred_state P (f x)) \<Longrightarrow> pred_state P (State_Monad.bind m f)"
  by (rule bind_predI) (auto simp: state.pred_set)

lemma draw_mono: "pred_state Q m \<Longrightarrow> (\<And>x. Q x \<Longrightarrow> P x) \<Longrightarrow> pred_state P m"
  by (auto simp: state.pred_set)

lemma draw_any: "pred_state (\<lambda>_. True) m"
  by auto

lemma draw_if: "pred_state P m \<Longrightarrow> pred_state P n \<Longrightarrow> pred_state P (if b then m else n)"
  by simp

lemma draw_unit: "pred_state (\<lambda>u. 0 \<le> u \<and> u < 1) unit_draw"
  unfolding unit_draw_def
  by (rule draw_bind [OF draw_any]) (simp add: draw_return frac_lt_1)

lemma draw_uniform: "a \<le> b \<Longrightarrow> pred_state (\<lambda>x. a \<le> x \<and> x \<le> b) (uniform a b)"
  unfolding uniform_def
proof (rule draw_bind [OF draw_unit], rule draw_return)
  fix u :: real
  assume "a \<le> b" "0 \<le> u \<and> u < 1"
  then show "a \<le> a + (b - a) * u \<and> a + (b - a) * u \<le> b"
    using mult_left_le [of u "b - a"] mult_nonneg_nonneg [of "b - a" u] by linarith
qed

lemma draw_randint: "a \<le> b \<Longrightarrow> pred_state (\<lambda>n. a \<le> n \<and> n \<le> b) (randint a b)"
  unfolding randint_def
proof (rule draw_bind [OF draw_unit], rule draw_return)
  fix u :: real
  assume ab: "a \<le> b" and u: "0 \<le> u \<and> u < 1"
  then have "u * real_of_int (b - a + 1) < 1 * real_of_int (b - a + 1)"
    by (intro mult_strict_right_mono) simp_all
  then have "\<lfloor>u * real_of_int (b - a + 1)\<rfloor> < b - a + 1" by (simp only: floor_less_iff mult_1)
  moreover have "0 \<le> \<lfloor>u * real_of_int (b - a + 1)\<rfloor>" using ab u by simp
  ultimately show "a \<le> a + \<lfloor>u * real_of_int (b - a + 1)\<rfloor> \<and> a + \<lfloor>u * real_of_int (b - a + 1)\<rfloor> \<le> b"
    by linarith
qed

lemma draw_choice: "xs \<noteq> [] \<Longrightarrow> pred_state (\<lambda>x. x \<in> set xs) (choice xs)"
  unfolding choice_def
proof (rule draw_bind [OF draw_unit], rule draw_return)
  fix u :: real
  assume "xs \<noteq> []" and u: "0 \<le> u \<and> u < 1"
  then have "u * real (length xs) < 1 * real (length xs)" by (intro mult_strict_right_mono) simp_all
  then have "nat \<lfloor>u * real (length xs)\<rfloor> < length xs" using u \<open>xs \<noteq> []\<close> by (simp add: nat_less_iff floor_less_iff)
  then show "xs ! nat \<lfloor>u * real (length xs)\<rfloor> \<in> set xs" by (rule nth_mem)
qed

lemma draw_traverse:
  "(\<And>x. x \<in> set xs \<Longrightarrow> pred_state (P x) (f x)) \<Longrightarrow> pred_state (list_all2 P xs) (State_Monad.traverse_list f xs)"
proof (induction xs)
  case (Cons x xs)
  have "pred_state (P x) (f x)" "pred_state (list_all2 P xs) (State_Monad.traverse_list f xs)"
    using Cons by simp_all
  then show ?case by (auto intro!: draw_bind draw_return elim!: draw_bind)
qed (simp add: draw_return)

text \<open>Rounding keeps a bound that is itself a rounded number.\<close>

lemma round_half_even_near: "\<bar>real_of_int (round_half_even x) - x\<bar> \<le> 1 / 2"
  unfolding round_half_even_def Let_def by (auto; linarith)

lemma round_half_even_le: "x \<le> real_of_int k \<Longrightarrow> round_half_even x \<le> k"
  using round_half_even_near [of x] by linarith

lemma round_half_even_ge: "real_of_int k \<le> x \<Longrightarrow> k \<le> round_half_even x"
  using round_half_even_near [of x] by linarith

lemma rounded_le: "x * 10 ^ n \<le> real_of_int k \<Longrightarrow> rounded n x \<le> real_of_int k / 10 ^ n"
  using round_half_even_le [of "x * 10 ^ n" k] by (simp add: rounded_def divide_right_mono)

lemma rounded_ge: "real_of_int k \<le> x * 10 ^ n \<Longrightarrow> real_of_int k / 10 ^ n \<le> rounded n x"
  using round_half_even_ge [of k "x * 10 ^ n"] by (simp add: rounded_def divide_right_mono)

subsection \<open>Properties\<close>

text \<open>A generated anomaly score: the \<open>i\<close>-th, of one of the devices, marked exactly when its shown score is beyond 3.\<close>

definition score_ok :: "string \<Rightarrow> nat \<Rightarrow> pyval \<Rightarrow> bool" where
  "score_ok dev i v \<longleftrightarrow> (\<exists>d z x name. v = PDict d \<and> map_of d ''id'' = Some (PStr (''anomaly-'' @ dec (i + 1))) \<and>
     map_of d ''deviceId'' = Some (PStr name) \<and> name \<in> set (devices_for dev) \<and>
     map_of d ''zScore'' = Some (PFloat (Fin z)) \<and> map_of d ''isAnomaly'' = Some (PBool (3 < \<bar>z\<bar>)) \<and>
     map_of d ''value'' = Some (PFloat (Fin x)) \<and> 10 \<le> x \<and> x \<le> 100)"

lemma devices_for_ne: "devices_for dev \<noteq> []"
  by (simp add: devices_for_def demo_devices_def)

lemma draw_shown_z: "pred_state (\<lambda>z. if 3 < \<bar>z0\<bar> then 31 / 10 \<le> \<bar>z\<bar> else z = z0) (shown_z z0)"
proof (cases "3 < \<bar>z0\<bar>")
  case True
  have "pred_state (\<lambda>z. 31 / 10 \<le> \<bar>z\<bar>)
      (State_Monad.bind (choice [-1, 1]) (\<lambda>sign. State_Monad.bind (uniform (31/10) 5) (\<lambda>size. State_Monad.return (sign * size))))"
    by (rule draw_bind [OF draw_choice], simp, rule draw_bind [OF draw_uniform], simp, rule draw_return) (auto simp: abs_mult)
  with True show ?thesis by (simp add: shown_z_def)
qed (simp add: shown_z_def draw_return)

lemma rounded_mark:
  assumes "if 3 < \<bar>z0\<bar> then 31 / 10 \<le> \<bar>z\<bar> else z = z0"
  shows "3 < \<bar>z0\<bar> \<longleftrightarrow> 3 < \<bar>rounded 2 z\<bar>"
  using assms rounded_le [of z 2 300] rounded_ge [of "-300" z 2] rounded_ge [of 310 z 2] rounded_le [of z 2 "-310"]
  by (auto simp: abs_if split: if_splits)

lemma demo_score_ok: "pred_state (score_ok dev i) (demo_score iso_text now dev i)"
  unfolding demo_score_def
proof (rule draw_bind [OF draw_any], rule draw_bind [OF draw_any], rule draw_bind [OF draw_shown_z],
    rule draw_bind [OF draw_choice [OF devices_for_ne]], rule draw_bind [OF draw_uniform], simp, rule draw_return)
  fix metric d and z0 z v :: real
  assume z: "if 3 < \<bar>z0\<bar> then 31 / 10 \<le> \<bar>z\<bar> else z = z0" and d: "d \<in> set (devices_for dev)"
    and v: "(10::real) \<le> v \<and> v \<le> 100"
  have "10 \<le> rounded 1 v" "rounded 1 v \<le> 100"
    using v rounded_le [of v 1 1000] rounded_ge [of 100 v 1] by simp_all
  with d show "score_ok dev i (PDict [(''id'', PStr (''anomaly-'' @ dec (i + 1))), (''deviceId'', PStr d), (''metricName'', PStr metric),
     (''zScore'', real_json 2 z), (''isAnomaly'', PBool (3 < \<bar>z0\<bar>)),
     (''timestamp'', PStr (iso_text (now - real i * 1800))), (''value'', real_json 1 v)])"
    by (simp add: score_ok_def rounded_mark [OF z])
qed

lemma demo_scores_ok:
  "list_all2 (score_ok dev) [0..<nat (min (hours * 2) 48)]
     (fst (run_state (get_demo_anomaly_scores iso_text now dev hours) src))"
  unfolding get_demo_anomaly_scores_def
  by (rule pred_state_run_state, rule draw_traverse, rule demo_score_ok)

text \<open>
  Whatever is drawn, the demo scores are consistent with their marks, although both are
  made up and the score is rounded: there are two for each hour, at most 48, numbered from 1, each of the device
  asked for (or of a demo device), and a score is marked as an anomaly exactly when the shown z-score is beyond 3.
\<close>

theorem demo_scores_consistent:
  "list_all2 (score_ok dev) [0..<nat (min (hours * 2) 48)]
     (fst (run_state (get_demo_anomaly_scores iso_text now dev hours) src))"
  by (rule demo_scores_ok)

text \<open>The times of a track: the first and the last of its two to four appearances.\<close>

definition times_ok :: "pyval \<Rightarrow> bool" where
  "times_ok v \<longleftrightarrow> (\<exists>d as f l. v = PDict d \<and> map_of d ''appearances'' = Some (PList as) \<and> map_of d ''firstSeen'' = Some (PStr f) \<and>
     map_of d ''lastSeen'' = Some (PStr l) \<and> 2 \<le> length as \<and> length as \<le> 4 \<and>
     (\<forall>a \<in> set as. \<exists>e t. a = PDict e \<and> map_of e ''timestamp'' = Some (PStr t) \<and> f \<le> t \<and> t \<le> l))"

definition appearance_ok :: "string \<times> pyval \<Rightarrow> bool" where
  "appearance_ok a \<longleftrightarrow> (\<exists>e. snd a = PDict e \<and> map_of e ''timestamp'' = Some (PStr (fst a)))"

lemma demo_appearance_ok: "pred_state appearance_ok (demo_appearance iso_text now)"
  unfolding demo_appearance_def
  by (intro draw_bind [OF draw_any] draw_return) (simp add: appearance_ok_def)

lemma demo_reid_track_ok: "pred_state times_ok (demo_reid_track iso_text now i)"
  unfolding demo_reid_track_def
proof (rule draw_bind [OF draw_randint], simp)
  fix n :: int
  assume n: "2 \<le> n \<and> n \<le> 4"
  show "pred_state times_ok (State_Monad.bind (State_Monad.traverse_list (\<lambda>_. demo_appearance iso_text now) [0..<nat n])
     (\<lambda>as. State_Monad.bind (randint 60 600) (\<lambda>duration. State_Monad.return
       (demo_track_json (''reid-'' @ pad4 (i + 1)) (''global-'' @ dec (1000 + i)) (map snd as)
         (Min (set (map fst as))) (Max (set (map fst as))) duration))))"
  proof (rule draw_bind [OF draw_traverse [where P = "\<lambda>_. appearance_ok"]], rule demo_appearance_ok,
      rule draw_bind [OF draw_any], rule draw_return)
    fix as duration
    assume as: "list_all2 (\<lambda>_. appearance_ok) [0..<nat n] as"
    have len: "length as = nat n" using list_all2_lengthD [OF as] by simp
    have ok: "appearance_ok a" if "a \<in> set as" for a
      using as that by (auto simp: list_all2_conv_all_nth in_set_conv_nth)
    moreover have "\<exists>e t. snd a = PDict e \<and> map_of e ''timestamp'' = Some (PStr t) \<and>
        Min (set (map fst as)) \<le> t \<and> t \<le> Max (set (map fst as))" if a: "a \<in> set as" for a
    proof -
      have "fst a \<in> set (map fst as)" using a by simp
      then have "Min (set (map fst as)) \<le> fst a" "fst a \<le> Max (set (map fst as))" by simp_all
      with ok [OF a] show ?thesis unfolding appearance_ok_def by blast
    qed
    ultimately show "times_ok (demo_track_json (''reid-'' @ pad4 (i + 1)) (''global-'' @ dec (1000 + i)) (map snd as)
         (Min (set (map fst as))) (Max (set (map fst as))) duration)"
      using n len by (auto simp: times_ok_def demo_track_json_def)
  qed
qed

lemma run_draws:
  "run_state unit_draw s = (frac (numbers s (drawn s)), s\<lparr>drawn := Suc (drawn s)\<rparr>)"
  "run_state (uniform a b) s = (a + (b - a) * frac (numbers s (drawn s)), s\<lparr>drawn := Suc (drawn s)\<rparr>)"
  "run_state (randint m n) s = (m + \<lfloor>frac (numbers s (drawn s)) * real_of_int (n - m + 1)\<rfloor>, s\<lparr>drawn := Suc (drawn s)\<rparr>)"
  "run_state (choice xs) s = (xs ! nat \<lfloor>frac (numbers s (drawn s)) * real (length xs)\<rfloor>, s\<lparr>drawn := Suc (drawn s)\<rparr>)"
  by (simp_all add: unit_draw_def gauss_def uniform_def randint_def choice_def)

text \<open>An appearance takes eight numbers; the second of them says how long ago it was.\<close>

lemma run_appearance:
  "fst (fst (run_state (demo_appearance iso_text now) s)) =
     iso_text (now - real_of_int \<lfloor>frac (numbers s (drawn s + 1)) * 3601\<rfloor>)"
  "snd (run_state (demo_appearance iso_text now) s) = s\<lparr>drawn := drawn s + 8\<rparr>"
  by (simp_all add: demo_appearance_def random_bbox_def run_draws split_beta)

lemma run_appearances:
  "map fst (fst (run_state (State_Monad.traverse_list (\<lambda>_. demo_appearance iso_text now) xs) s)) =
     map (\<lambda>k. iso_text (now - real_of_int \<lfloor>frac (numbers s (drawn s + 8 * k + 1)) * 3601\<rfloor>)) [0..<length xs]"
proof (induction xs arbitrary: s)
  case (Cons x xs)
  show ?case
    by (simp add: split_beta Cons.IH run_appearance upt_conv_Cons map_Suc_upt [symmetric] comp_def add.assoc del: upt_Suc)
qed simp

text \<open>
  The tracks of the list are seen from their first to their last appearance; but the single track
  takes the times of the first and last appearance of its list, which are drawn
  independently: it may have been seen for the last time an hour before it was seen for the first time.
\<close>

theorem demo_track_times:
  "list_all times_ok (fst (run_state (get_demo_reid_tracks iso_text now limit) src)) \<and>
   (\<exists>src. \<exists>d. fst (run_state (get_demo_reid_track iso_text now tid) src) = PDict d \<and>
     map_of d ''firstSeen'' = Some (PStr (iso_text now)) \<and> map_of d ''lastSeen'' = Some (PStr (iso_text (now - 3600))))"
proof
  have "list_all2 (\<lambda>_. times_ok) [0..<nat (min limit 10)] (fst (run_state (get_demo_reid_tracks iso_text now limit) src))"
    unfolding get_demo_reid_tracks_def
    by (rule pred_state_run_state, rule draw_traverse, rule demo_reid_track_ok)
  then show "list_all times_ok (fst (run_state (get_demo_reid_tracks iso_text now limit) src))"
    by (auto simp: list_all2_conv_all_nth list_all_length)
next
  let ?src = "\<lparr>numbers = (\<lambda>i. if i = 18 then 3600 / 3601 else 0), drawn = 0\<rparr>"
  have f: "frac (3600 / 3601 :: real) = 3600 / 3601" by (simp add: frac_eq)
  let ?as = "fst (run_state (State_Monad.traverse_list (\<lambda>_. demo_appearance iso_text now) [0..<3]) (?src\<lparr>drawn := 1\<rparr>))"
  have "map fst ?as = [iso_text now, iso_text now, iso_text (now - 3600)]"
    unfolding run_appearances by (simp add: f upt_rec)
  then have times: "fst (hd ?as) = iso_text now" "fst (last ?as) = iso_text (now - 3600)"
    by (cases ?as; auto simp: last_map [symmetric])+
  obtain n where track: "fst (run_state (get_demo_reid_track iso_text now tid) ?src) =
      demo_track_json tid ''global-1001'' (map snd ?as) (fst (hd ?as)) (fst (last ?as)) n"
    by (simp add: get_demo_reid_track_def run_draws split_beta)
  show "\<exists>src. \<exists>d. fst (run_state (get_demo_reid_track iso_text now tid) src) = PDict d \<and>
     map_of d ''firstSeen'' = Some (PStr (iso_text now)) \<and> map_of d ''lastSeen'' = Some (PStr (iso_text (now - 3600)))"
    by (rule exI [of _ ?src], unfold track times) (simp add: demo_track_json_def)
qed

subsection \<open>The demo mode of the application\<close>

text \<open>
  The surroundings whose demo answers to a request are those of the generators, from the source \<open>src\<close>. The
  arguments are the query parameters of the request.
\<close>

fun demo_answer :: "surroundings \<Rightarrow> real \<Rightarrow> source \<Rightarrow> request \<Rightarrow> pyval" where
  "demo_answer e now src (Scores dev hours) =
     PList (fst (run_state (get_demo_anomaly_scores (iso_time e) now dev hours) src))"
| "demo_answer e now src (Behavior_Events dev kind limit) =
     PList (fst (run_state (get_demo_behavior_events (iso_time e) now dev kind limit) src))"
| "demo_answer e now src Baselines = PList (get_demo_baselines (iso_time e) now)"
| "demo_answer e now src (Guidance dev) = PList (get_demo_vlm_guidance (iso_time e) now dev)"
| "demo_answer e now src _ = demo e ''''"

definition with_demo :: "surroundings \<Rightarrow> real \<Rightarrow> source \<Rightarrow> request \<Rightarrow> surroundings" where
  "with_demo e now src req = e\<lparr>demo := (\<lambda>_. demo_answer e now src req)\<rparr>"

text \<open>
  What a client of the dashboard sees of the anomalies: whatever services were injected and whatever was
  requested before, a request for the scores of up to a week is answered with made-up scores, two for each hour up
  to 48, consistent in themselves; a longer period is refused.
\<close>

theorem served_scores_are_made_up:
  assumes "d = foldl dashboard_step (import_dashboard files levels) ops" and "verify_credentials (expected e) creds = None"
    and "req = Scores dev hours"
  shows "if 1 \<le> hours \<and> hours \<le> 168
    then \<exists>vs. serve (with_demo e now src req) now creds req d = (Reply (PList vs), d) \<and>
      list_all2 (score_ok dev) [0..<nat (min (hours * 2) 48)] vs
    else serve (with_demo e now src req) now creds req d = (Fails 422 ''hours'', d)"
proof -
  have "bound d = no_services" unfolding assms(1) by (rule imported.run_keeps) (simp add: import_dashboard_def)
  moreover have "verify_credentials (expected (with_demo e now src req)) creds = None"
    using assms(2) by (simp add: with_demo_def)
  ultimately show ?thesis
    using demo_scores_ok [of dev hours "iso_time e" now src]
    by (simp add: assms(3) serve_def guarded_def api_anomaly_scores_def no_services_def with_demo_def)
qed

theorem served_scores_are_made_up_witness:
  "\<exists>vs. fst (serve (with_demo plain_surroundings 0 \<lparr>numbers = \<lambda>_. 1 / 2, drawn = 0\<rparr> (Scores '''' 3)) 0 None (Scores '''' 3)
     (import_dashboard no_files (20, []))) = Reply (PList vs) \<and> length vs = 6"
proof -
  have "verify_credentials (expected plain_surroundings) None = None"
    by (simp add: verify_credentials_def plain_surroundings_def)
  from served_scores_are_made_up [where d = "import_dashboard no_files (20, [])" and files = no_files
      and levels = "(20, [])" and ops = "[]" and dev = "''''" and hours = 3 and now = 0
      and src = "\<lparr>numbers = \<lambda>_. 1 / 2, drawn = 0\<rparr>", OF _ this refl]
  show ?thesis by (auto dest: list_all2_lengthD)
qed

end
