(* ===== verification/Lifecycle.thy ===== *)
theory Lifecycle
  imports Health Py_Text
begin

text \<open>
  Opening and closing: the wrapper around the gRPC server (\<open>communication/grpc_server.py\<close>), the
  opening of the database with its migration and the scheduled backups
  (\<open>storage/detection_store.py\<close>). Reading a certificate, binding and starting are parameters with
  what they give or raise.
\<close>

subsection \<open>The gRPC server\<close>

record tls_files =
  tls_enabled :: bool
  tls_key :: string
  tls_cert :: string
  tls_ca :: string

record server_settings =
  listen_host :: string
  listen_port :: int
  max_message_mb :: int
  tls_settings :: "tls_files option"

text \<open>The object of the library: its options, ports with the credentials of each, and whether it runs.\<close>

record tls_credentials =
  key_pair :: "string \<times> string"
  root_ca :: string
  client_auth :: bool

record grpc_object =
  channel_options :: "(string \<times> int) list"
  ports :: "(string \<times> tls_credentials option) list"
  running :: bool

definition server_options :: "int \<Rightarrow> (string \<times> int) list" where
  "server_options mb =
     (let n = mb * 1024 * 1024
      in [(''grpc.max_receive_message_length'', n), (''grpc.max_send_message_length'', n),
          (''grpc.keepalive_time_ms'', 30000), (''grpc.keepalive_timeout_ms'', 10000),
          (''grpc.keepalive_permit_without_calls'', 1), (''grpc.http2.max_pings_without_data'', 0)])"

definition listen_address :: "server_settings \<Rightarrow> string" where
  "listen_address c = listen_host c @ '':'' @ str_int (listen_port c)"

text \<open>The three files, in the order they are read; the first error ends the start.\<close>

definition read_credentials :: "(string \<Rightarrow> exn + string) \<Rightarrow> tls_files \<Rightarrow> exn + tls_credentials" where
  "read_credentials file t =
     (case file (tls_key t) of
        Inl e \<Rightarrow> Inl e
      | Inr k \<Rightarrow> (case file (tls_cert t) of
          Inl e \<Rightarrow> Inl e
        | Inr c \<Rightarrow> (case file (tls_ca t) of
            Inl e \<Rightarrow> Inl e
          | Inr a \<Rightarrow> Inr \<lparr>key_pair = (k, c), root_ca = a, client_auth = True\<rparr>)))"

definition wanted_credentials :: "(string \<Rightarrow> exn + string) \<Rightarrow> server_settings \<Rightarrow> exn + tls_credentials option" where
  "wanted_credentials file c =
     (case tls_settings c of
        None \<Rightarrow> Inr None
      | Some t \<Rightarrow>
          if tls_enabled t then (case read_credentials file t of Inl e \<Rightarrow> Inl e | Inr k \<Rightarrow> Inr (Some k))
          else Inr None)"

text \<open>
  \<open>self.server\<close> is set before the certificates are read; reflection is optional and changes
  nothing here. The result is the new value of \<open>self.server\<close>.
\<close>

definition server_start ::
    "(string \<Rightarrow> exn + string) \<Rightarrow> exn option \<Rightarrow> exn option \<Rightarrow> server_settings \<Rightarrow> (exn + unit) \<times> grpc_object option" where
  "server_start file bind_error start_error c =
     (let obj = \<lparr>channel_options = server_options (max_message_mb c), ports = [], running = False\<rparr>
      in case wanted_credentials file c of
          Inl e \<Rightarrow> (Inl e, Some obj)
        | Inr creds \<Rightarrow>
            (case bind_error of
               Some e \<Rightarrow> (Inl e, Some obj)
             | None \<Rightarrow>
                 let obj1 = obj\<lparr>ports := [(listen_address c, creds)]\<rparr>
                 in case start_error of
                     Some e \<Rightarrow> (Inl e, Some obj1)
                   | None \<Rightarrow> (Inr (), Some (obj1\<lparr>running := True\<rparr>))))"

definition server_stop :: "exn option \<Rightarrow> grpc_object option \<Rightarrow> (exn + unit) \<times> grpc_object option" where
  "server_stop stop_error srv =
     (case srv of
        None \<Rightarrow> (Inr (), None)
      | Some obj \<Rightarrow> (case stop_error of
            Some e \<Rightarrow> (Inl e, srv)
          | None \<Rightarrow> (Inr (), Some (obj\<lparr>running := False\<rparr>))))"

text \<open>What the health checker sees of the wrapper.\<close>

definition seen_server :: "grpc_object option \<Rightarrow> bool option" where
  "seen_server srv = Some (srv \<noteq> None)"

text \<open>
  The server runs after \<open>start\<close> exactly when it returns; then it listens on one port,
  which demands client certificates exactly when TLS is enabled. But the readiness probe looks
  only whether the object was made, so it counts a server that failed to start, or was stopped,
  as serving.
\<close>

theorem server_start_outcome:
  assumes "server_start file bind_error start_error c = (r, srv)"
  shows "(\<exists>obj. srv = Some obj \<and> (running obj \<longleftrightarrow> r = Inr ())) \<and>
    (r = Inr () \<longrightarrow> (\<exists>creds. map fst (ports (the srv)) = [listen_address c] \<and> map snd (ports (the srv)) = [creds] \<and>
       (creds \<noteq> None \<longleftrightarrow> (\<exists>t. tls_settings c = Some t \<and> tls_enabled t)) \<and>
       (\<forall>k. creds = Some k \<longrightarrow> client_auth k \<and> (\<exists>t. tls_settings c = Some t \<and> file (tls_ca t) = Inr (root_ca k))))) \<and>
    (let stopped = snd (server_stop None srv)
     in ready (readiness \<lparr>engine_loaded = Some (Some True), db_connection = Some True, grpc_server = seen_server srv\<rparr>) \<and>
        ready (readiness \<lparr>engine_loaded = Some (Some True), db_connection = Some True, grpc_server = seen_server stopped\<rparr>) \<and>
        \<not> running (the stopped))"
  using assms
  by (auto simp: server_start_def wanted_credentials_def read_credentials_def server_stop_def seen_server_def
      readiness_def Let_def split: option.splits sum.splits if_splits)

definition plain_settings :: server_settings where
  "plain_settings = \<lparr>listen_host = ''0.0.0.0'', listen_port = 50051, max_message_mb = 16, tls_settings =
     Some \<lparr>tls_enabled = True, tls_key = ''k'', tls_cert = ''c'', tls_ca = ''a''\<rparr>\<rparr>"

theorem server_start_outcome_witness:
  "\<not> running (the (snd (server_start (\<lambda>_. Inl (Os_Error ''k'')) None None plain_settings))) \<and>
   ready (readiness \<lparr>engine_loaded = Some (Some True), db_connection = Some True,
     grpc_server = seen_server (snd (server_start (\<lambda>_. Inl (Os_Error ''k'')) None None plain_settings))\<rparr>)"
proof -
  obtain r srv where s: "server_start (\<lambda>_. Inl (Os_Error ''k'')) None None plain_settings = (r, srv)" by fastforce
  moreover have "r \<noteq> Inr ()"
    using s by (auto simp: server_start_def plain_settings_def wanted_credentials_def read_credentials_def Let_def)
  ultimately show ?thesis using server_start_outcome [OF s] by (auto simp: Let_def)
qed

subsection \<open>Opening the database\<close>

text \<open>The columns of every table, the indexes, and the device of each row of \<open>detections\<close> (\<open>None\<close> is \<open>NULL\<close>).\<close>

record database =
  tables :: "(string, string list) pydict"
  indexes :: "(string \<times> string \<times> string list) list"
  row_devices :: "string option list"

definition schema :: "(string \<times> string list) list" where
  "schema =
     [(''detections'', [''id'', ''timestamp'', ''frame_id'', ''trace_id'', ''event_type'', ''detections_json'',
        ''vlm_result'', ''rule_matched'', ''device_id'']),
      (''timeseries'', [''id'', ''timestamp'', ''device_id'', ''metric_name'', ''value'']),
      (''conversations'', [''id'', ''device_id'', ''timestamp'', ''role'', ''content'', ''context_type''])]"

definition create_table :: "string \<times> string list \<Rightarrow> database \<Rightarrow> database" where
  "create_table = (\<lambda>(t, cols) db. if map_of (tables db) t = None then db\<lparr>tables := tables db @ [(t, cols)]\<rparr> else db)"

definition columns :: "string \<Rightarrow> database \<Rightarrow> string list" where
  "columns t db = (case map_of (tables db) t of None \<Rightarrow> [] | Some cs \<Rightarrow> cs)"

text \<open>\<open>CREATE INDEX IF NOT EXISTS\<close>, which fails when a column is missing.\<close>

definition create_index :: "string \<Rightarrow> string \<Rightarrow> string list \<Rightarrow> database \<Rightarrow> exn + database" where
  "create_index name t cols db =
     (if name \<in> fst ` set (indexes db) then Inr db
      else if set cols \<subseteq> set (columns t db) then Inr (db\<lparr>indexes := indexes db @ [(name, t, cols)]\<rparr>)
      else Inl (Operational_Error ''no such column''))"

fun create_indexes :: "(string \<times> string \<times> string list) list \<Rightarrow> database \<Rightarrow> exn + database" where
  "create_indexes [] db = Inr db"
| "create_indexes ((name, t, cols) # rest) db =
     (case create_index name t cols db of Inl e \<Rightarrow> Inl e | Inr db1 \<Rightarrow> create_indexes rest db1)"

definition schema_indexes :: "(string \<times> string \<times> string list) list" where
  "schema_indexes =
     [(''idx_detections_ts'', ''detections'', [''timestamp'']),
      (''idx_ts_device_metric_ts'', ''timeseries'', [''device_id'', ''metric_name'', ''timestamp'']),
      (''idx_conv_device_ts'', ''conversations'', [''device_id'', ''timestamp''])]"

definition device_indexes :: "(string \<times> string \<times> string list) list" where
  "device_indexes =
     [(''idx_detections_device'', ''detections'', [''device_id'']),
      (''idx_detections_device_ts'', ''detections'', [''device_id'', ''timestamp''])]"

text \<open>\<open>_migrate\<close>: the rows of a legacy table get the default of the new column.\<close>

definition migrate :: "database \<Rightarrow> database" where
  "migrate db =
     (if ''device_id'' \<in> set (columns ''detections'' db) then db
      else db\<lparr>tables := AList.update ''detections'' (columns ''detections'' db @ [''device_id'']) (tables db),
              row_devices := map (\<lambda>_. Some '''') (row_devices db)\<rparr>)"

definition connect :: "database \<Rightarrow> exn + database" where
  "connect db =
     (case create_indexes schema_indexes (fold create_table schema db) of
        Inl e \<Rightarrow> Inl e
      | Inr db1 \<Rightarrow> create_indexes device_indexes (migrate db1))"

definition empty_database :: database where
  "empty_database = \<lparr>tables = [], indexes = [], row_devices = []\<rparr>"

text \<open>The database of a version before the column was added.\<close>

definition legacy_database :: "string option list \<Rightarrow> database" where
  "legacy_database rows = \<lparr>tables = [(''detections'', [''id'', ''timestamp'', ''frame_id'', ''trace_id'', ''event_type'',
     ''detections_json'', ''vlm_result'', ''rule_matched''])],
     indexes = [(''idx_detections_ts'', ''detections'', [''timestamp''])], row_devices = rows\<rparr>"

lemmas connect_eval = connect_def schema_def schema_indexes_def device_indexes_def create_table_def create_index_def
  columns_def migrate_def

text \<open>
  Opening a new or a legacy database gives every table of the schema and the five
  indexes, keeps the rows and gives those of a legacy database the empty device; opening it again
  changes nothing.
\<close>

theorem connect_migrates_once:
  assumes "db = empty_database \<or> (\<exists>rows. db = legacy_database rows)"
  shows "\<exists>db1. connect db = Inr db1 \<and> connect db1 = Inr db1 \<and>
    list_all (\<lambda>(t, cols). set (columns t db1) = set cols) schema \<and>
    length (row_devices db1) = length (row_devices db) \<and> length (indexes db1) = 5 \<and>
    (\<forall>rows. db = legacy_database rows \<longrightarrow> row_devices db1 = replicate (length rows) (Some ''''))"
  using assms
  by (elim disjE exE) (auto simp: connect_eval empty_database_def legacy_database_def map_replicate_const)

theorem connect_migrates_once_witness:
  "\<exists>db1. connect (legacy_database [None, None]) = Inr db1 \<and> row_devices db1 = [Some '''', Some '''']"
proof -
  have "legacy_database [None, None] = empty_database \<or> (\<exists>rows. legacy_database [None, None] = legacy_database rows)" by blast
  from connect_migrates_once [OF this] show ?thesis by (elim exE conjE) (auto simp: legacy_database_def)
qed

subsection \<open>Scheduled backups\<close>

text \<open>
  The rounds of \<open>schedule_backup\<close> for given readings of the clock, with what each backup returns or
  raises: the names written, and the error that ended the task, if any. Names have seconds only.
\<close>

definition backup_name :: "string \<Rightarrow> string" where
  "backup_name date = ''detections-'' @ date @ ''.db''"

fun schedule_backup :: "(real \<Rightarrow> string) \<Rightarrow> (real \<times> (exn + bool)) list \<Rightarrow> string list \<times> exn option" where
  "schedule_backup date [] = ([], None)"
| "schedule_backup date ((t, Inl e) # rest) = ([], Some e)"
| "schedule_backup date ((t, Inr ok) # rest) =
     (let (names, e) = schedule_backup date rest in ((if ok then [backup_name (date t)] else []) @ names, e))"

end
