(* ===== verification/Main_Program.thy ===== *)
theory Main_Program
  imports Container Device_Session Orchestrator
begin

text \<open>
  The entry point, \<open>main.py\<close>: the configuration with its command-line overrides, the services
  started from it, the periodic clean-up of sessions, the hot reload of the configuration and
  the shutdown. Signals, logging handlers, the metrics and dashboard servers are left out.
\<close>

subsection \<open>Starting up\<close>

record arguments =
  arg_config :: bool
  arg_host :: "string option"
  arg_port :: "int option"
  arg_model_path :: "string option"

fun is_object :: "pyval \<Rightarrow> bool" where
  "is_object (PObj _ _) = True"
| "is_object _ = False"

text \<open>\<open>cfg.central.name = v\<close>.\<close>

definition set_central :: "string \<Rightarrow> pyval \<Rightarrow> pyval \<Rightarrow> exn + pyval" where
  "set_central name v cfg =
     (case attr ''central'' cfg of
        Inl e \<Rightarrow> Inl e
      | Inr c \<Rightarrow> if is_object c then Inr (set_attr ''central'' (set_attr name v c) cfg)
                 else Inl (Attribute_Error name))"

definition set_if :: "bool \<Rightarrow> string \<Rightarrow> pyval \<Rightarrow> pyval \<Rightarrow> exn + pyval" where
  "set_if given name v cfg = (if given then set_central name v cfg else Inr cfg)"

text \<open>An empty host or path and the port 0 count as not given.\<close>

definition override :: "arguments \<Rightarrow> pyval \<Rightarrow> exn + pyval" where
  "override args cfg =
     (case set_if (or_else (arg_host args) '''' \<noteq> '''') ''host'' (PStr (or_else (arg_host args) '''')) cfg of
        Inl e \<Rightarrow> Inl e
      | Inr cfg1 \<Rightarrow>
          (case set_if (or_else (arg_port args) 0 \<noteq> 0) ''port'' (PInt (or_else (arg_port args) 0)) cfg1 of
             Inl e \<Rightarrow> Inl e
           | Inr cfg2 \<Rightarrow> set_if (arg_model_path args \<noteq> None) ''model_path''
               (PStr (or_else (arg_model_path args) '''')) cfg2))"

text \<open>
  The file is parsed to \<open>source\<close>, as in \<open>from_yaml\<close>; without \<open>--config\<close> the defaults are taken.
\<close>

definition startup_config ::
    "(pyval \<Rightarrow> string) \<Rightarrow> (string \<Rightarrow> bool) \<Rightarrow> (exn + pyval) option \<Rightarrow> arguments \<Rightarrow> exn + pyval" where
  "startup_config rep exists_there source args =
     (case (if arg_config args then from_yaml rep source else Inr default_config) of
        Inl e \<Rightarrow> Inl e
      | Inr cfg \<Rightarrow> (case validate rep exists_there cfg of
            Inl e \<Rightarrow> Inl e
          | Inr _ \<Rightarrow> override args cfg))"

text \<open>The services that are built at the start, in this order; the first error ends the program.\<close>

definition start_services :: "constructor \<Rightarrow> (string \<Rightarrow> exn option) \<Rightarrow> pyval \<Rightarrow> obj build" where
  "start_services ctor mkdir cfg =
     bind (get_service ctor mkdir cfg ''orchestrator'') (\<lambda>_.
     bind (get_service ctor mkdir cfg ''grpc_server'') (\<lambda>_.
     get_service ctor mkdir cfg ''session_manager''))"

subsection \<open>Clean-up of sessions\<close>

definition cleanup_interval :: "real \<Rightarrow> real" where
  "cleanup_interval expiry = max (expiry / 2) 1"

text \<open>
  One round: the devices whose status gauge is set to 0, and the manager. \<open>gauge dev\<close> is what the
  metrics client raises; the first error is logged and skips the remaining devices.
\<close>

fun zero_gauges :: "(string \<Rightarrow> exn option) \<Rightarrow> string list \<Rightarrow> string list" where
  "zero_gauges gauge [] = []"
| "zero_gauges gauge (d # ds) = (case gauge d of None \<Rightarrow> d # zero_gauges gauge ds | Some e \<Rightarrow> [])"

definition cleanup_round :: "(string \<Rightarrow> exn option) \<Rightarrow> real \<Rightarrow> session_manager \<Rightarrow> string list \<times> session_manager" where
  "cleanup_round gauge now m =
     (let (expired, m1) = cleanup_expired m now in (zero_gauges gauge expired, m1))"

definition cleanup_rounds :: "(string \<Rightarrow> exn option) \<Rightarrow> real list \<Rightarrow> session_manager \<Rightarrow> session_manager" where
  "cleanup_rounds gauge ts m = foldl (\<lambda>m now. snd (cleanup_round gauge now m)) m ts"

subsection \<open>Hot reload\<close>

datatype reload_call =
    Set_Level pyval
  | Set_Rules "obj list"
  | Update_Limits pyval pyval
  | Update_Alerts "obj list" "obj list"

type_synonym reload_step = "services \<Rightarrow> (exn + reload_call list) \<times> services"

text \<open>
  The calls made by a sequence of steps. A step that raises ends the sequence; the calls before
  it have been made.
\<close>

fun run_steps :: "reload_step list \<Rightarrow> services \<Rightarrow> exn option \<times> reload_call list \<times> services" where
  "run_steps [] c = (None, [], c)"
| "run_steps (s # ss) c =
     (case s c of
        (Inl e, c1) \<Rightarrow> (Some e, [], c1)
      | (Inr calls, c1) \<Rightarrow> (let (e, more, c2) = run_steps ss c1 in (e, calls @ more, c2)))"

text \<open>
  What the reload takes from outside: \<open>getattr(logging, name, None)\<close>, the present level, what
  \<open>setLevel\<close> raises, and the constructors of the container.
\<close>

record reload_env =
  level_named :: "string \<Rightarrow> pyval option"
  current_level :: pyval
  set_level_error :: "pyval \<Rightarrow> exn option"
  re_ctor :: constructor
  re_mkdir :: "string \<Rightarrow> exn option"
  re_config :: pyval

definition reload_level :: "reload_env \<Rightarrow> pyval \<Rightarrow> reload_step" where
  "reload_level env new c =
     (case attr2 ''logging'' ''level'' new of
        Inl e \<Rightarrow> (Inl e, c)
      | Inr (PStr s) \<Rightarrow>
          (case level_named env (upper s) of
             None \<Rightarrow> (Inr [], c)
           | Some l \<Rightarrow> if truthy l \<and> l \<noteq> current_level env
               then (case set_level_error env l of Some e \<Rightarrow> (Inl e, c) | None \<Rightarrow> (Inr [Set_Level l], c))
               else (Inr [], c))
      | Inr _ \<Rightarrow> (Inl (Attribute_Error ''upper''), c))"

definition reload_rules :: "pyval \<Rightarrow> reload_step" where
  "reload_rules new c = (case rules_of new of Inl e \<Rightarrow> (Inl e, c) | Inr rs \<Rightarrow> (Inr [Set_Rules rs], c))"

text \<open>The steps for a service: nothing is done when it is \<open>None\<close> or its section is switched off.\<close>

definition when_present ::
    "reload_env \<Rightarrow> string \<Rightarrow> string \<Rightarrow> pyval \<Rightarrow> (exn + reload_call list) \<Rightarrow> reload_step" where
  "when_present env name section new calls c =
     (case get_service (re_ctor env) (re_mkdir env) (re_config env) name c of
        (Inl e, c1) \<Rightarrow> (Inl e, c1)
      | (Inr _, c1) \<Rightarrow>
          (if map_of c1 name = Some (Val PNone) then (Inr [], c1)
           else case attr2 section ''enabled'' new of
               Inl e \<Rightarrow> (Inl e, c1)
             | Inr on \<Rightarrow> if truthy on then (calls, c1) else (Inr [], c1)))"

definition limits_call :: "pyval \<Rightarrow> exn + reload_call list" where
  "limits_call new =
     (case attr2 ''rate_limiting'' ''max_rps'' new of Inl e \<Rightarrow> Inl e
      | Inr r \<Rightarrow> (case attr2 ''rate_limiting'' ''burst'' new of Inl e \<Rightarrow> Inl e
          | Inr b \<Rightarrow> Inr [Update_Limits r b]))"

definition alerts_call :: "pyval \<Rightarrow> exn + reload_call list" where
  "alerts_call new =
     (case entries new ''alerting'' ''rules'' alert_rule_of of Inl e \<Rightarrow> Inl e
      | Inr rules \<Rightarrow> (case entries new ''alerting'' ''routes'' (alert_route_of True) of Inl e \<Rightarrow> Inl e
          | Inr routes \<Rightarrow> Inr [Update_Alerts rules routes]))"

definition reload_steps :: "reload_env \<Rightarrow> pyval \<Rightarrow> reload_step list" where
  "reload_steps env new =
     [reload_level env new, reload_rules new,
      when_present env ''rate_limiter'' ''rate_limiting'' new (limits_call new),
      when_present env ''alert_manager'' ''alerting'' new (alerts_call new)]"

text \<open>
  \<open>_on_config_change\<close>: the error it logs as \<open>keeping current\<close>, if any, and the calls it made.
\<close>

definition on_config_change ::
    "(pyval \<Rightarrow> string) \<Rightarrow> (string \<Rightarrow> bool) \<Rightarrow> (exn + pyval) option \<Rightarrow> reload_env \<Rightarrow> services
       \<Rightarrow> exn option \<times> reload_call list \<times> services" where
  "on_config_change rep exists_there source env c =
     (case from_yaml rep source of
        Inl e \<Rightarrow> (Some e, [], c)
      | Inr new \<Rightarrow> (case validate rep exists_there new of
            Inl e \<Rightarrow> (Some e, [], c)
          | Inr _ \<Rightarrow> run_steps (reload_steps env new) c))"

subsection \<open>Shutting down\<close>

text \<open>\<open>_shutdown_sequence\<close>: a server that raises while stopping leaves the others running.\<close>

definition shutdown_sequence ::
    "exn option \<Rightarrow> (((string \<times> string) list) \<Rightarrow> exn + string list) round list \<Rightarrow> orchestrator \<Rightarrow> store
       \<Rightarrow> (exn + unit) \<times> orchestrator \<times> store" where
  "shutdown_sequence stop_error rounds orch st =
     (case stop_error of
        Some e \<Rightarrow> (Inl e, orch, st)
      | None \<Rightarrow> (Inr (), stop_all rounds orch, close_store st))"

subsection \<open>Sessions of silent devices\<close>

lemma cleanup_round_lookup:
  assumes "dict_ok (sessions m)"
  shows "dict_ok (sessions (snd (cleanup_round gauge now m))) \<and>
    expiry_timeout (snd (cleanup_round gauge now m)) = expiry_timeout m \<and>
    map_of (sessions (snd (cleanup_round gauge now m))) k =
      (case map_of (sessions m) k of None \<Rightarrow> None
       | Some s \<Rightarrow> if expired_at m now s then None else Some (age_session m now s))"
proof -
  have "dict_ok (sessions (snd (cleanup_expired m now)))"
    using assms by (auto simp: cleanup_expired_eq dict_ok_def distinct_map_filter comp_def case_prod_unfold
        intro: inj_on_subset)
  with cleanup_lookup [OF assms] show ?thesis
    by (simp add: cleanup_round_def cleanup_expired_eq case_prod_unfold Let_def)
qed

lemma silent_session:
  assumes "dict_ok (sessions m)"
  shows "get_session (cleanup_rounds gauge ts m) d = None \<longleftrightarrow>
    (case get_session m d of None \<Rightarrow> True
     | Some s \<Rightarrow> \<exists>t \<in> set ts. last_heartbeat s + expiry_timeout m < t)"
  using assms
proof (induction ts arbitrary: m)
  case Nil
  then show ?case by (simp add: cleanup_rounds_def split: option.splits)
next
  case (Cons t ts)
  note round = cleanup_round_lookup [OF Cons.prems, of gauge t d]
  have "cleanup_rounds gauge (t # ts) m = cleanup_rounds gauge ts (snd (cleanup_round gauge t m))"
    by (simp add: cleanup_rounds_def)
  with Cons.IH [of "snd (cleanup_round gauge t m)"] round show ?case
    by (auto simp: get_session_def expired_at_def age_session_def split: option.splits)
qed

lemma round_in_time:
  assumes "ts \<noteq> []" and "hd ts \<le> limit + gap" and "limit < last ts"
    and "\<forall>i. Suc i < length ts \<longrightarrow> ts ! Suc i \<le> ts ! i + gap"
  shows "\<exists>t \<in> set ts. (limit :: real) < t \<and> t \<le> limit + gap"
  using assms
proof (induction ts)
  case (Cons t ts)
  show ?case
  proof (cases "limit < t \<or> ts = []")
    case True
    with Cons.prems show ?thesis by auto
  next
    case False
    then have "hd ts \<le> limit + gap" using Cons.prems(4) [rule_format, of 0] by (auto simp: hd_conv_nth)
    moreover have "\<forall>i. Suc i < length ts \<longrightarrow> ts ! Suc i \<le> ts ! i + gap"
      using Cons.prems(4) by (metis Suc_less_eq length_Cons nth_Cons_Suc)
    ultimately show ?thesis using Cons.IH False Cons.prems(3) by auto
  qed
qed simp



subsection \<open>The configuration in force\<close>

lemma attr_set_attr: "is_object x \<Longrightarrow> attr k (set_attr name v x) = (if k = name then Inr v else attr k x)"
  by (cases x) auto

lemma is_object_set_attr: "is_object x \<Longrightarrow> is_object (set_attr name v x)"
  by (cases x) auto

lemma attr_object: "attr k x = Inr v \<Longrightarrow> is_object x"
  by (cases x) auto

lemma set_central_attr:
  assumes "set_central name v cfg = Inr cfg1"
  shows "attr2 ''central'' k cfg1 = (if k = name then Inr v else attr2 ''central'' k cfg) \<and>
    (section \<noteq> ''central'' \<longrightarrow> attr section cfg1 = attr section cfg)"
  using assms by (auto simp: set_central_def attr2_def attr_set_attr attr_object split: sum.splits if_splits)

lemma set_if_attr:
  assumes "set_if given name v cfg = Inr cfg1"
  shows "attr2 ''central'' k cfg1 = (if given \<and> k = name then Inr v else attr2 ''central'' k cfg)"
    "section \<noteq> ''central'' \<Longrightarrow> attr section cfg1 = attr section cfg"
  using set_central_attr [of name v cfg cfg1 k "section"] assms by (auto simp: set_if_def split: if_splits)

text \<open>
  The program starts with the valid configuration of the file, or the defaults, in
  which only the host, the port and the model path can be replaced from the command line. These
  are put in after the validation: a port that is given is the port in force, whatever its value.
\<close>

theorem startup_config_overrides:
  assumes "startup_config rep ex source args = Inr cfg"
  shows "\<exists>base. (if arg_config args then from_yaml rep source else Inr default_config) = Inr base \<and>
    valid_config ex base \<and>
    (\<forall>section. section \<noteq> ''central'' \<longrightarrow> attr section cfg = attr section base) \<and>
    (\<forall>k. k \<notin> {''host'', ''port'', ''model_path''} \<longrightarrow> attr2 ''central'' k cfg = attr2 ''central'' k base) \<and>
    attr2 ''central'' ''port'' cfg =
      (if or_else (arg_port args) 0 \<noteq> 0 then Inr (PInt (or_else (arg_port args) 0)) else attr2 ''central'' ''port'' base)"
proof -
  from assms obtain base where base: "(if arg_config args then from_yaml rep source else Inr default_config) = Inr base"
    and valid: "validate rep ex base = Inr ()" and over: "override args base = Inr cfg"
    unfolding startup_config_def by (auto split: sum.splits)
  from over obtain c1 c2 where
    steps: "set_if (or_else (arg_host args) '''' \<noteq> '''') ''host'' (PStr (or_else (arg_host args) '''')) base = Inr c1"
      "set_if (or_else (arg_port args) 0 \<noteq> 0) ''port'' (PInt (or_else (arg_port args) 0)) c1 = Inr c2"
      "set_if (arg_model_path args \<noteq> None) ''model_path'' (PStr (or_else (arg_model_path args) '''')) c2 = Inr cfg"
    unfolding override_def by (auto split: sum.splits)
  note central = set_if_attr(1) [OF steps(3)] set_if_attr(1) [OF steps(2)] set_if_attr(1) [OF steps(1)]
  have "attr section cfg = attr section base" if "section \<noteq> ''central''" for "section"
    using set_if_attr(2) [OF steps(1) that] set_if_attr(2) [OF steps(2) that] set_if_attr(2) [OF steps(3) that] by simp
  moreover have "attr2 ''central'' k cfg = attr2 ''central'' k base" if "k \<notin> {''host'', ''port'', ''model_path''}" for k
    using that by (simp add: central)
  moreover have "attr2 ''central'' ''port'' cfg =
      (if or_else (arg_port args) 0 \<noteq> 0 then Inr (PInt (or_else (arg_port args) 0)) else attr2 ''central'' ''port'' base)"
    by (simp add: central)
  ultimately show ?thesis using base valid [unfolded validate_accepts] by (intro exI [of _ base] conjI) auto
qed

definition port_argument :: arguments where
  "port_argument = \<lparr>arg_config = False, arg_host = None, arg_port = Some 99999, arg_model_path = None\<rparr>"

lemma default_valid: "validate rep ex default_config = Inr ()"
  unfolding validate_accepts
  by (simp add: valid_config_def default_config_def schema_defs attr2_def in_range_def positive_def rules_valid_def
      number.simps)

lemma default_starts: "\<exists>cfg. startup_config rep ex None port_argument = Inr cfg"
  by (simp add: startup_config_def default_valid port_argument_def override_def set_if_def set_central_def or_else_def)
     (simp add: default_config_def schema_defs set_if_def)

theorem startup_config_overrides_witness:
  "\<exists>cfg. startup_config (\<lambda>_. '''') (\<lambda>_. False) None port_argument = Inr cfg \<and>
     attr2 ''central'' ''port'' cfg = Inr (PInt 99999)"
proof -
  obtain cfg where cfg: "startup_config (\<lambda>_. '''') (\<lambda>_. False) None port_argument = Inr cfg"
    using default_starts by blast
  from startup_config_overrides [OF this]
  have "attr2 ''central'' ''port'' cfg = Inr (PInt 99999)" by (auto simp: port_argument_def or_else_def)
  with cfg show ?thesis by blast
qed

subsection \<open>Reloading\<close>

lemma when_present_held:
  "map_of c name = Some x \<Longrightarrow> when_present env name sec new calls c =
     (if x = Val PNone then (Inr [], c)
      else case attr2 sec ''enabled'' new of
          Inl e \<Rightarrow> (Inl e, c) | Inr on \<Rightarrow> if truthy on then (calls, c) else (Inr [], c))"
  by (simp add: when_present_def get_service_def)

text \<open>
  A reload is all or nothing only up to the validation: a file that cannot be read or
  is not valid changes nothing; but a valid file whose alert routes have an unknown severity
  replaces the VLM rules, leaves the alert rules alone, and is reported as not applied.
\<close>

theorem reload_not_atomic:
  assumes "level_named env (upper s) = None" and "map_of c ''rate_limiter'' = Some (Val PNone)"
    and "map_of c ''alert_manager'' = Some m" and "m \<noteq> Val PNone"
  shows "(from_yaml rep source = Inl e \<longrightarrow> on_config_change rep ex source env c = (Some e, [], c)) \<and>
    (from_yaml rep source = Inr new \<and> validate rep ex new = Inl e \<longrightarrow>
       on_config_change rep ex source env c = (Some e, [], c)) \<and>
    (from_yaml rep source = Inr new \<and> validate rep ex new = Inr () \<and>
       attr2 ''logging'' ''level'' new = Inr (PStr s) \<and> rules_of new = Inr rs \<and>
       attr2 ''alerting'' ''enabled'' new = Inr (PBool True) \<and>
       entries new ''alerting'' ''rules'' alert_rule_of = Inr ars \<and>
       entries new ''alerting'' ''routes'' (alert_route_of True) = Inl e \<longrightarrow>
       on_config_change rep ex source env c = (Some e, [Set_Rules rs], c))"
  using assms
  by (auto simp: on_config_change_def reload_steps_def reload_level_def reload_rules_def when_present_held
      alerts_call_def)

definition bad_route :: pyval where
  "bad_route = PDict [(''alerting'', PDict [(''routes'', PList [PDict [(''severity'', PStr ''urgent'')]])])]"

definition bad_route_config :: pyval where
  "bad_route_config = set_attr ''alerting'' (PObj ''AlertingConfig'' [(''enabled'', PBool True),
     (''webhook_url'', PStr ''''), (''rules'', PList []), (''routes'', PList [PObj ''AlertRouteConfig''
       [(''severity'', PStr ''urgent''), (''webhook_url'', PStr '''')]])]) default_config"

lemma bad_route_loads: "from_yaml rep (Some (Inr bad_route)) = Inr bad_route_config"
  by (simp add: bad_route_def from_yaml_eq mapping_of_def schema_defs coerce_scalar.simps bad_route_config_def
      default_config_def)

lemma bad_route_valid: "validate rep ex bad_route_config = Inr ()"
  unfolding validate_accepts
  by (simp add: bad_route_config_def valid_config_def default_config_def schema_defs attr2_def in_range_def
      positive_def rules_valid_def number.simps)

theorem reload_not_atomic_witness:
  "\<exists>rs. on_config_change (\<lambda>_. []) (\<lambda>_. False) (Some (Inr bad_route)) \<lparr>level_named = (\<lambda>_. None), current_level = PInt 20,
       set_level_error = (\<lambda>_. None), re_ctor = (\<lambda>_ _. None), re_mkdir = (\<lambda>_. None), re_config = default_config\<rparr>
     [(''rate_limiter'', Val PNone), (''alert_manager'', New ''AlertManager'' [])] =
     (Some (Value_Error (apostrophe # ''urgent'' @ apostrophe # '' is not a valid AlertSeverity'')), [Set_Rules rs],
      [(''rate_limiter'', Val PNone), (''alert_manager'', New ''AlertManager'' [])])"
proof -
  have parts: "attr2 ''logging'' ''level'' bad_route_config = Inr (PStr ''info'')"
    "attr2 ''alerting'' ''enabled'' bad_route_config = Inr (PBool True)"
    "entries bad_route_config ''alerting'' ''rules'' alert_rule_of = Inr []"
    "entries bad_route_config ''alerting'' ''routes'' (alert_route_of True) =
       Inl (Value_Error (apostrophe # ''urgent'' @ apostrophe # '' is not a valid AlertSeverity''))"
    by (simp_all add: bad_route_config_def default_config_def schema_defs attr2_def entries_def alert_route_of_def
        severity_member_def)
  obtain rs where rs: "rules_of bad_route_config = Inr rs"
    by (simp add: rules_of_def bad_route_config_def default_config_def schema_defs trigger_rule_of_def)
  let ?e = "Value_Error (apostrophe # ''urgent'' @ apostrophe # '' is not a valid AlertSeverity'')"
  let ?env = "\<lparr>level_named = (\<lambda>_. None), current_level = PInt 20, set_level_error = (\<lambda>_. None),
     re_ctor = (\<lambda>_ _. None), re_mkdir = (\<lambda>_. None), re_config = default_config\<rparr>"
  let ?pool = "[(''rate_limiter'', Val PNone), (''alert_manager'', New ''AlertManager'' [])]"
  have "on_config_change (\<lambda>_. []) (\<lambda>_. False) (Some (Inr bad_route)) ?env ?pool = (Some ?e, [Set_Rules rs], ?pool)"
    by (rule reload_not_atomic [where m = "New ''AlertManager'' []" and new = bad_route_config and s = "''info''"
          and ars = "[]", THEN conjunct2, THEN conjunct2, THEN mp])
       (simp_all add: bad_route_loads bad_route_valid parts rs)
  then show ?thesis by blast
qed

end
