(* ===== verification/Main_Run.thy ===== *)
theory Main_Run
  imports Main_Program
begin

text \<open>
  The course of \<open>main()\<close> in \<open>main.py\<close>: logging, the steps of the start in their order, what runs
  then, and the steps of the end. A step is a name; what it raises is a parameter, and the services
  behind the steps are modelled in their own theories.
\<close>

subsection \<open>Logging\<close>

record log_setup =
  root_level :: pyval
  log_file :: "(pyval \<times> pyval \<times> pyval) option"

text \<open>
  \<open>setup_logging\<close>: the level named in the configuration or \<open>INFO\<close>, and a rotating file when a
  path is given; \<open>named\<close> is \<open>getattr(logging, name)\<close>, if there is such a name.
\<close>

definition logging_level :: "(string \<Rightarrow> pyval option) \<Rightarrow> pyval \<Rightarrow> pyval \<Rightarrow> exn + pyval" where
  "logging_level named info cfg =
     (case attr2 ''logging'' ''level'' cfg of
        Inl e \<Rightarrow> Inl e
      | Inr (PStr s) \<Rightarrow> Inr (or_else (named (upper s)) info)
      | Inr _ \<Rightarrow> Inl (Attribute_Error ''upper''))"

definition setup_logging :: "(string \<Rightarrow> pyval option) \<Rightarrow> pyval \<Rightarrow> pyval \<Rightarrow> exn + log_setup" where
  "setup_logging named info cfg =
     (case logging_level named info cfg of Inl e \<Rightarrow> Inl e
      | Inr l \<Rightarrow> (case attr2 ''logging'' ''file_path'' cfg of Inl e \<Rightarrow> Inl e
        | Inr p \<Rightarrow>
            if \<not> truthy p then Inr \<lparr>root_level = l, log_file = None\<rparr>
            else (case attr2 ''logging'' ''max_bytes'' cfg of Inl e \<Rightarrow> Inl e
              | Inr b \<Rightarrow> (case attr2 ''logging'' ''backup_count'' cfg of Inl e \<Rightarrow> Inl e
                | Inr k \<Rightarrow> Inr \<lparr>root_level = l, log_file = Some (p, b, k)\<rparr>))))"

subsection \<open>The start\<close>

text \<open>The steps with whether an \<open>Exception\<close> they raise is only logged.\<close>

type_synonym plan = "(string \<times> bool) list"

definition flag :: "string \<Rightarrow> pyval \<Rightarrow> exn + bool" where
  "flag part cfg = (case attr2 part ''enabled'' cfg of Inl e \<Rightarrow> Inl e | Inr v \<Rightarrow> Inr (truthy v))"

definition core_steps :: plan where
  "core_steps = map (\<lambda>n. (n, False))
     [''orchestrator'', ''orchestrator.initialize'', ''grpc_server'', ''server.start'', ''session_manager'', ''cleanup'']"

definition startup_plan :: "bool \<Rightarrow> bool \<Rightarrow> pyval \<Rightarrow> exn + plan" where
  "startup_plan config_given dashboard_wanted cfg =
     (case flag ''tracing'' cfg of Inl e \<Rightarrow> Inl e
      | Inr tracing \<Rightarrow> (case flag ''metrics'' cfg of Inl e \<Rightarrow> Inl e
        | Inr metrics \<Rightarrow> Inr (
            (if tracing then [(''tracing'', False)] else []) @ (if metrics then [(''metrics'', True)] else []) @
            core_steps @ (if config_given then [(''watcher'', False)] else []) @
            (if dashboard_wanted then [(''dashboard'', False)] else []))))"

text \<open>The steps that were done, and the error that ended the program, if any.\<close>

fun run_plan :: "(string \<Rightarrow> exn option) \<Rightarrow> plan \<Rightarrow> string list \<times> exn option" where
  "run_plan raises [] = ([], None)"
| "run_plan raises ((n, logged) # rest) =
     (case raises n of
        None \<Rightarrow> (let (ns, e) = run_plan raises rest in (n # ns, e))
      | Some e \<Rightarrow> if logged \<and> is_exception e then run_plan raises rest else ([], Some e))"

subsection \<open>The end\<close>

text \<open>
  After the signal: the clean-up task is cancelled, the watcher stopped, the dashboard told to end,
  then the shutdown sequence, which a timeout of sixty seconds cuts off with a message.
\<close>

datatype sequence_end = Finished | Cut_Off | Sequence_Raises exn

definition end_plan :: "bool \<Rightarrow> bool \<Rightarrow> plan" where
  "end_plan config_given dashboard_wanted =
     [(''cleanup cancelled'', False)] @ (if config_given then [(''watcher stopped'', False)] else []) @
     (if dashboard_wanted then [(''dashboard ends'', False)] else []) @ [(''shutdown sequence'', False)]"

definition end_errors :: "exn option \<Rightarrow> sequence_end \<Rightarrow> string \<Rightarrow> exn option" where
  "end_errors watcher_error fin_seq n =
     (if n = ''watcher stopped'' then watcher_error
      else if n = ''shutdown sequence'' then (case fin_seq of Sequence_Raises e \<Rightarrow> Some e | _ \<Rightarrow> None)
      else None)"

text \<open>The whole run: what was started, what was ended, and the exception that leaves \<open>main\<close>.\<close>

definition run_main ::
    "(string \<Rightarrow> exn option) \<Rightarrow> exn option \<Rightarrow> sequence_end \<Rightarrow> bool \<Rightarrow> bool \<Rightarrow> pyval \<Rightarrow> string list \<times> string list \<times> exn option" where
  "run_main raises watcher_error fin_seq config_given dashboard_wanted cfg =
     (case startup_plan config_given dashboard_wanted cfg of
        Inl e \<Rightarrow> ([], [], Some e)
      | Inr p \<Rightarrow>
          (case run_plan raises p of
             (ns, Some e) \<Rightarrow> (ns, [], Some e)
           | (ns, None) \<Rightarrow>
               let (es, e) = run_plan (end_errors watcher_error fin_seq) (end_plan config_given dashboard_wanted)
               in (ns, es, e)))"

subsection \<open>Properties\<close>

lemma run_plan_none_iff:
  "snd (run_plan raises p) = None \<longleftrightarrow> (\<forall>x \<in> set p. raises (fst x) = None \<or> snd x \<and> is_exception (the (raises (fst x))))"
  unfolding list_all_iff [symmetric]
  by (induction raises p rule: run_plan.induct) (auto split: option.splits prod.splits)

lemma run_plan_done:
  "snd (run_plan raises p) = None \<Longrightarrow> fst (run_plan raises p) = map fst (filter (\<lambda>x. raises (fst x) = None) p)"
  by (induction raises p rule: run_plan.induct) (auto split: option.splits prod.splits if_splits)

lemma run_plan_error: "snd (run_plan raises p) = Some e \<Longrightarrow> \<exists>n \<in> fst ` set p. raises n = Some e"
  by (induction raises p rule: run_plan.induct) (auto split: option.splits prod.splits if_splits)

text \<open>
  The program runs its end exactly when every step of the start but the metrics server
  succeeded; then all services were started in their order, whatever the metrics server did. When a
  later step fails, such as the server's start, the services started before it are not shut down.
\<close>

theorem start_failure_skips_shutdown:
  assumes "startup_plan config_given dashboard_wanted cfg = Inr p"
    and "run_main raises watcher_error fin_seq config_given dashboard_wanted cfg = (started, ended, err)"
  shows "(ended \<noteq> [] \<longleftrightarrow> (\<forall>x \<in> set p. raises (fst x) = None \<or> snd x \<and> is_exception (the (raises (fst x))))) \<and>
    (ended \<noteq> [] \<longrightarrow> filter (\<lambda>n. n \<notin> {''tracing'', ''metrics''}) started = map fst core_steps @
       (if config_given then [''watcher''] else []) @ (if dashboard_wanted then [''dashboard''] else [])) \<and>
    (ended = [] \<longrightarrow> (\<exists>n \<in> fst ` set p. err \<noteq> None \<and> raises n = err))"
proof (cases "snd (run_plan raises p)")
  case None
  have "fst (run_plan (end_errors watcher_error fin_seq) (end_plan config_given dashboard_wanted)) \<noteq> []"
    by (simp add: end_plan_def end_errors_def case_prod_beta)
  then have "ended \<noteq> []" and started: "started = map fst (filter (\<lambda>x. raises (fst x) = None) p)"
    using assms None run_plan_done [OF None] by (auto simp: run_main_def case_prod_beta split: prod.splits)
  moreover have good: "\<forall>x \<in> set p. raises (fst x) = None \<or> snd x \<and> is_exception (the (raises (fst x)))"
    using None by (simp add: run_plan_none_iff)
  moreover have "filter (\<lambda>n. n \<notin> {''tracing'', ''metrics''}) started = map fst core_steps @
       (if config_given then [''watcher''] else []) @ (if dashboard_wanted then [''dashboard''] else [])"
    using assms(1) good unfolding started startup_plan_def
    by (auto simp: core_steps_def split: sum.splits if_splits)
  ultimately show ?thesis by simp
next
  case (Some e)
  then have "ended = []" "err = Some e"
    using assms by (auto simp: run_main_def case_prod_beta split: prod.splits)
  moreover have "\<not> (\<forall>x \<in> set p. raises (fst x) = None \<or> snd x \<and> is_exception (the (raises (fst x))))"
    using Some run_plan_none_iff [of raises p] by simp
  ultimately show ?thesis using run_plan_error [OF Some] by simp
qed

definition only_bind :: "string \<Rightarrow> exn option" where
  "only_bind n = (if n = ''server.start'' then Some (Runtime_Error ''bind'') else None)"

definition two_flags :: pyval where
  "two_flags = PObj ''AppConfig'' [(''tracing'', PObj ''TracingConfig'' [(''enabled'', PBool False)]),
     (''metrics'', PObj ''MetricsConfig'' [(''enabled'', PBool True)])]"

theorem start_failure_skips_shutdown_witness:
  "fst (snd (run_main only_bind None Finished False False two_flags)) = []"
proof -
  obtain p where p: "startup_plan False False two_flags = Inr p" "(''server.start'', False) \<in> set p"
    by (simp add: startup_plan_def flag_def attr2_def two_flags_def core_steps_def)
  obtain started ended err where r: "run_main only_bind None Finished False False two_flags = (started, ended, err)"
    by (metis prod.exhaust)
  have "\<not> (\<forall>x \<in> set p. only_bind (fst x) = None \<or> snd x \<and> is_exception (the (only_bind (fst x))))"
    using p(2) by (force simp: only_bind_def)
  then have "ended = []" using start_failure_skips_shutdown [OF p(1) r, THEN conjunct1] by blast
  then show ?thesis using r by simp
qed

end
