(* ===== verification/Metrics.thy ===== *)
theory Metrics
  imports Orchestrator
begin

text \<open>
  The declarations of \<open>observability/metrics.py\<close>. A metric is declared once in the registry of the Prometheus client,
  which refuses a second one of the same name; a labelled metric is used through \<open>labels\<close>, which needs a
  value for each of its label names. The lemma connects the declarations with the gauges that the health reports of
  the devices set (\<open>update_edge_metrics\<close> in \<open>Orchestrator\<close>).
\<close>

datatype metric_kind = Counter | Gauge | Histogram | Info

record metric =
  m_kind :: metric_kind
  m_name :: string
  m_labels :: "string list"

definition declare_metric :: "metric_kind \<Rightarrow> string \<Rightarrow> string list \<Rightarrow> metric" where
  "declare_metric k n ls = \<lparr>m_kind = k, m_name = n, m_labels = ls\<rparr>"

definition server_metrics :: "metric list" where
  "server_metrics =
     [declare_metric Counter ''np_detections_total'' [''class_name''],
      declare_metric Counter ''np_vlm_requests_total'' [''status''],
      declare_metric Counter ''np_grpc_requests_total'' [''method'', ''status''],
      declare_metric Histogram ''np_grpc_latency_seconds'' [''method''],
      declare_metric Histogram ''np_vlm_latency_seconds'' [],
      declare_metric Gauge ''np_vlm_queue_depth'' [],
      declare_metric Gauge ''np_edge_connections'' [],
      declare_metric Gauge ''np_events_stored_total'' [],
      declare_metric Gauge ''np_edge_device_status'' [''device_id''],
      declare_metric Counter ''np_grpc_validation_errors_total'' [''reason''],
      declare_metric Counter ''np_control_commands_total'' [''command_type'']]"

definition edge_metrics :: "metric list" where
  "edge_metrics = map (\<lambda>n. declare_metric Gauge n [''device_id''])
     [''np_edge_frames_processed'', ''np_edge_detections_total'', ''np_edge_inference_errors'', ''np_edge_fps'',
      ''np_edge_inference_latency_avg_ms'']"

definition other_metrics :: "metric list" where
  "other_metrics =
     [declare_metric Info ''np_build'' [],
      declare_metric Counter ''np_ab_test_inferences_total'' [''variant''],
      declare_metric Histogram ''np_ab_test_latency_seconds'' [''variant'']]"

definition declared_metrics :: "metric list" where
  "declared_metrics = server_metrics @ edge_metrics @ other_metrics"

lemma safe_set_other:
  "(g, d) \<noteq> (gauge, dev) \<Longrightarrow> map_of (safe_set gauge dev v gs) (g, d) = map_of gs (g, d)"
  by (auto simp: safe_set_def split: option.split)

lemma set_gauges_other:
  "d \<noteq> dev \<or> g \<notin> fst ` set gfs \<Longrightarrow>
     map_of (fold (\<lambda>(gauge, field). safe_set gauge dev (map_of meta field)) gfs gs) (g, d) = map_of gs (g, d)"
  by (induction gfs arbitrary: gs) (auto simp: safe_set_other)

lemma gauge_fields_declared: "fst ` set gauge_fields = m_name ` set edge_metrics"
  by (simp add: gauge_fields_def edge_metrics_def declare_metric_def)

text \<open>
  No name is declared twice, and a health report of any device with any fields only sets gauges that are
  declared with the one label \<open>device_id\<close>, under the device's own id, so that the report of one
  device never touches the gauges of another.
\<close>

theorem edge_gauges_declared:
  "distinct (map m_name declared_metrics) \<and>
   (\<forall>g d. d \<noteq> dev \<or> declare_metric Gauge g [''device_id''] \<notin> set declared_metrics \<longrightarrow>
     map_of (update_edge_metrics dev meta gs) (g, d) = map_of gs (g, d))"
proof
  show "distinct (map m_name declared_metrics)"
    by (simp add: declared_metrics_def server_metrics_def edge_metrics_def other_metrics_def declare_metric_def)
  have declared: "g \<in> fst ` set gauge_fields \<Longrightarrow> declare_metric Gauge g [''device_id''] \<in> set declared_metrics" for g
    unfolding gauge_fields_declared by (auto simp: declared_metrics_def edge_metrics_def declare_metric_def)
  show "\<forall>g d. d \<noteq> dev \<or> declare_metric Gauge g [''device_id''] \<notin> set declared_metrics \<longrightarrow>
      map_of (update_edge_metrics dev meta gs) (g, d) = map_of gs (g, d)"
  proof (intro allI impI)
    fix g d
    assume "d \<noteq> dev \<or> declare_metric Gauge g [''device_id''] \<notin> set declared_metrics"
    then have "d \<noteq> dev \<or> g \<notin> fst ` set gauge_fields" using declared by blast
    from set_gauges_other [OF this] show "map_of (update_edge_metrics dev meta gs) (g, d) = map_of gs (g, d)"
      by (simp add: update_edge_metrics_def)
  qed
qed

theorem edge_gauges_declared_witness:
  "map_of (update_edge_metrics ''cam'' [(''fps'', ''25'')] [((''np_edge_fps'', ''door''), Fin 10)]) (''np_edge_fps'', ''door'') =
     Some (Fin 10)"
  using edge_gauges_declared [of "''cam''" "[(''fps'', ''25'')]" "[((''np_edge_fps'', ''door''), Fin 10)]"] by simp

end
