(* ===== verification/Model_Download.thy ===== *)
theory Model_Download
  imports Py_Text
begin

text \<open>
  The script \<open>scripts/download_vlm_model.py\<close>: which model is fetched to which directory, the guards
  around downloading, converting and verifying, and the exit code. A directory is the list of its
  files' names with their sizes, and the disk a dictionary of directories. What the hub and the
  converter do is a parameter; printing is left out, and a result \<open>Inl n\<close> is \<open>sys.exit(n)\<close>. A download
  or conversion that fails is taken to leave the directory as it was.
\<close>

type_synonym files = "(string \<times> nat) list"
type_synonym disk = "(string, files) pydict"

record script_arguments =
  a_model :: "string option"
  a_output :: "string option"
  prebuilt_7bit :: bool
  prebuilt_8bit :: bool
  quantize :: bool
  no_quantize :: bool
  qbits :: int
  q_group_size :: int
  dtype :: string
  test_load :: bool
  test_inference :: bool
  test_only :: bool

text \<open>
  The world: the installed packages, \<open>snapshot model\<close> with the files a download puts into the given
  directory (or fails), \<open>to_cache model\<close> for one into the cache, \<open>convert cmd\<close> with the files the
  converter writes, \<open>None\<close> when it ends with an error, and the two tests of a model.
\<close>

record hub =
  installed :: "string \<Rightarrow> bool"
  snapshot :: "string \<Rightarrow> files option"
  to_cache :: "string \<Rightarrow> bool"
  convert :: "string list \<Rightarrow> files option"
  loads :: "string \<Rightarrow> bool"
  infers :: "string \<Rightarrow> bool"

definition packages :: "string list" where
  "packages = [''huggingface_hub'', ''mlx_vlm'', ''torch'']"

definition check_dependencies :: "hub \<Rightarrow> nat + unit" where
  "check_dependencies h = (if \<exists>p \<in> set packages. \<not> installed h p then Inl 1 else Inr ())"

definition has_file :: "files \<Rightarrow> string \<Rightarrow> bool" where
  "has_file fs n \<longleftrightarrow> n \<in> set (map fst fs)"

text \<open>What both functions take for a complete model.\<close>

definition looks_complete :: "files \<Rightarrow> bool" where
  "looks_complete fs \<longleftrightarrow> has_file fs ''config.json'' \<and> has_file fs ''model.safetensors''"

text \<open>Files that are downloaded or written replace those of the same name.\<close>

definition put_files :: "string \<Rightarrow> files \<Rightarrow> disk \<Rightarrow> disk" where
  "put_files out new d =
     (let old = (case map_of d out of None \<Rightarrow> [] | Some fs \<Rightarrow> fs)
      in AList.update out (new @ filter (\<lambda>f. \<not> has_file new (fst f)) old) d)"

definition download_preconverted_model :: "hub \<Rightarrow> string \<Rightarrow> string \<Rightarrow> disk \<Rightarrow> (nat + string) \<times> disk" where
  "download_preconverted_model h model out d =
     (if (\<exists>fs. map_of d out = Some fs \<and> looks_complete fs) then (Inr out, d)
      else case snapshot h model of
          None \<Rightarrow> (Inl 1, d)
        | Some new \<Rightarrow> (Inr out, put_files out new d))"

definition convert_command :: "string \<Rightarrow> string \<Rightarrow> bool \<Rightarrow> int \<Rightarrow> int \<Rightarrow> string \<Rightarrow> string list" where
  "convert_command model out quant bits gsize dty =
     [''-m'', ''mlx_vlm'', ''convert'', ''--hf-path'', model, ''--mlx-path'', out, ''--dtype'', dty] @
     (if quant then [''--quantize'', ''--q-bits'', str_int bits, ''--q-group-size'', str_int gsize] else [])"

definition download_and_convert_model ::
    "hub \<Rightarrow> string \<Rightarrow> string \<Rightarrow> bool \<Rightarrow> int \<Rightarrow> int \<Rightarrow> string \<Rightarrow> disk \<Rightarrow> (nat + string) \<times> disk" where
  "download_and_convert_model h model out quant bits gsize dty d =
     (if (\<exists>fs. map_of d out = Some fs \<and> looks_complete fs) then (Inr out, d)
      else
        let d1 = (if map_of d out = None then d else AList.delete out d)
        in if \<not> to_cache h model then (Inl 1, d1)
           else case convert h (convert_command model out quant bits gsize dty) of
               None \<Rightarrow> (Inl 1, d1)
             | Some new \<Rightarrow> (Inr out, put_files out new d1))"

definition is_weights :: "string \<Rightarrow> bool" where
  "is_weights n \<longleftrightarrow> suffix ''.safetensors'' n"

definition verify_model :: "string \<Rightarrow> disk \<Rightarrow> bool" where
  "verify_model out d =
     (case map_of d out of
        None \<Rightarrow> False
      | Some fs \<Rightarrow> has_file fs ''config.json'' \<and>
          (has_file fs ''model.safetensors'' \<or> has_file fs ''weights.safetensors'' \<or> (\<exists>f \<in> set fs. is_weights (fst f))))"

definition get_model_size :: "string \<Rightarrow> disk \<Rightarrow> real" where
  "get_model_size out d = real (sum_list (map snd (case map_of d out of None \<Rightarrow> [] | Some fs \<Rightarrow> fs))) / 1024 ^ 3"

text \<open>\<open>model.split('/')[-1]\<close>\<close>

definition last_part :: "string \<Rightarrow> string" where
  "last_part s = rev (takeWhile (\<lambda>c. c \<noteq> CHR ''/'') (rev s))"

definition quantizes :: "script_arguments \<Rightarrow> bool" where
  "quantizes a \<longleftrightarrow> quantize a \<and> \<not> no_quantize a"

text \<open>The model and its default directory.\<close>

definition choose_model :: "script_arguments \<Rightarrow> string \<times> string" where
  "choose_model a =
     (case a_model a of
        None \<Rightarrow>
          if prebuilt_7bit a then (''mlx-community/Qwen2-VL-7B-Instruct-4bit'', ''models/Qwen2-VL-7B-Instruct-4bit-mlx'')
          else if prebuilt_8bit a then (''mlx-community/Qwen2-VL-2B-Instruct-8bit'', ''models/Qwen2-VL-2B-Instruct-8bit-mlx'')
          else (''mlx-community/Qwen2-VL-2B-Instruct-4bit'', ''models/Qwen2-VL-2B-Instruct-4bit-mlx'')
      | Some m \<Rightarrow> (m, ''models/'' @ last_part m @ (if quantizes a then ''-'' @ str_int (qbits a) @ ''bit-mlx'' else ''-mlx'')))"

definition output_of :: "script_arguments \<Rightarrow> string" where
  "output_of a = (case a_output a of
     None \<Rightarrow> snd (choose_model a) | Some p \<Rightarrow> if p = '''' then snd (choose_model a) else p)"

definition fetch_model :: "hub \<Rightarrow> script_arguments \<Rightarrow> disk \<Rightarrow> (nat + string) \<times> disk" where
  "fetch_model h a d =
     (if a_model a = None then download_preconverted_model h (fst (choose_model a)) (output_of a) d
      else download_and_convert_model h (fst (choose_model a)) (output_of a) (quantizes a) (qbits a) (q_group_size a) (dtype a) d)"

text \<open>The script's exit code and the disk it leaves; the tests after a download do not count.\<close>

definition run_script :: "hub \<Rightarrow> script_arguments \<Rightarrow> disk \<Rightarrow> nat \<times> disk" where
  "run_script h a d =
     (case check_dependencies h of
        Inl n \<Rightarrow> (n, d)
      | Inr _ \<Rightarrow>
          let out = output_of a
          in if test_only a then
               (if map_of d out = None then (1, d)
                else (if loads h out \<and> (test_inference a \<longrightarrow> infers h out) then 0 else 1, d))
             else case fetch_model h a d of
                 (Inl n, d1) \<Rightarrow> (n, d1)
               | (Inr p, d1) \<Rightarrow> (if verify_model p d1 then 0 else 1, d1))"


subsection \<open>What the script guarantees\<close>

lemma fetch_complete:
  assumes "map_of d (output_of a) = Some fs" and "looks_complete fs"
  shows "fetch_model h a d = (Inr (output_of a), d)"
  using assms by (auto simp: fetch_model_def download_preconverted_model_def download_and_convert_model_def)

lemma complete_verifies: "map_of d out = Some fs \<Longrightarrow> looks_complete fs \<Longrightarrow> verify_model out d"
  by (simp add: verify_model_def looks_complete_def)

lemma fetch_target:
  "fetch_model h a d = (Inr p, d1) \<Longrightarrow> p = output_of a"
  by (auto simp: fetch_model_def download_preconverted_model_def download_and_convert_model_def Let_def
      split: if_splits option.splits)

text \<open>
  When the script fetches a model and exits with 0, the packages are there and the
  directory holds a configuration and weights. A directory with both files is never touched,
  whatever the hub does; but it is not looked at which model it holds, so a model of the same name
  from another owner is taken for the one asked for.
\<close>

theorem fetched_model_verified:
  assumes "\<not> test_only a"
  shows "(fst (run_script h a d) = 0 \<longrightarrow> check_dependencies h = Inr () \<and> verify_model (output_of a) (snd (run_script h a d))) \<and>
    (\<forall>fs. check_dependencies h = Inr () \<and> map_of d (output_of a) = Some fs \<and> looks_complete fs \<longrightarrow>
       run_script h a d = (0, d)) \<and>
    (\<forall>owner1 owner2 name. CHR ''/'' \<notin> set name \<longrightarrow>
       output_of (a\<lparr>a_model := Some (owner1 @ ''/'' @ name)\<rparr>) = output_of (a\<lparr>a_model := Some (owner2 @ ''/'' @ name)\<rparr>))"
proof -
  have "verify_model (output_of a) (snd (run_script h a d))" "check_dependencies h = Inr ()" if "fst (run_script h a d) = 0"
    using that assms fetch_target [of h a d]
    by (auto simp: run_script_def Let_def check_dependencies_def fetch_model_def download_preconverted_model_def
        download_and_convert_model_def split: if_splits option.splits)
  moreover have "run_script h a d = (0, d)"
    if "check_dependencies h = Inr ()" "map_of d (output_of a) = Some fs" "looks_complete fs" for fs
    using that assms by (simp add: run_script_def fetch_complete complete_verifies)
  moreover have "output_of (a\<lparr>a_model := Some (owner1 @ ''/'' @ name)\<rparr>) = output_of (a\<lparr>a_model := Some (owner2 @ ''/'' @ name)\<rparr>)"
    if "CHR ''/'' \<notin> set name" for owner1 owner2 name
  proof -
    have "last_part (owner @ ''/'' @ name) = name" for owner
      using that by (simp add: last_part_def takeWhile_append)
    then have "choose_model (a\<lparr>a_model := Some (owner @ ''/'' @ name)\<rparr>) = (owner @ ''/'' @ name,
        ''models/'' @ name @ (if quantizes a then ''-'' @ str_int (qbits a) @ ''bit-mlx'' else ''-mlx''))" for owner
      by (simp add: choose_model_def quantizes_def)
    then show ?thesis by (simp add: output_of_def split: option.split)
  qed
  ultimately show ?thesis by blast
qed

definition plain_arguments :: script_arguments where
  "plain_arguments = \<lparr>a_model = Some ''Qwen/Qwen2-VL-7B-Instruct'', a_output = None, prebuilt_7bit = False,
     prebuilt_8bit = False, quantize = True, no_quantize = False, qbits = 4, q_group_size = 64, dtype = ''float16'',
     test_load = False, test_inference = False, test_only = False\<rparr>"

definition offline_hub :: hub where
  "offline_hub = \<lparr>installed = \<lambda>_. True, snapshot = \<lambda>_. None, to_cache = \<lambda>_. False, convert = \<lambda>_. None,
     loads = \<lambda>_. False, infers = \<lambda>_. False\<rparr>"

theorem fetched_model_verified_witness:
  "run_script offline_hub plain_arguments [(output_of plain_arguments, [(''config.json'', 1), (''model.safetensors'', 9)])] =
     (0, [(output_of plain_arguments, [(''config.json'', 1), (''model.safetensors'', 9)])])"
proof -
  have "\<not> test_only plain_arguments" by (simp add: plain_arguments_def)
  from fetched_model_verified [OF this, THEN conjunct2, THEN conjunct1, rule_format,
      of offline_hub "[(output_of plain_arguments, [(''config.json'', 1), (''model.safetensors'', 9)])]"
        "[(''config.json'', 1), (''model.safetensors'', 9)]"]
  show ?thesis by (simp add: check_dependencies_def offline_hub_def looks_complete_def has_file_def)
qed

text \<open>
  A model whose weights are in several files passes the verification but is not taken
  for complete: asking for it again with a conversion first deletes it, and when the hub cannot
  be reached it is gone and the script ends with an error.
\<close>

theorem sharded_model_lost:
  assumes "a_model a \<noteq> None" and "\<not> test_only a" and "check_dependencies h = Inr ()"
    and "verify_model (output_of a) d" and "\<not> has_file (the (map_of d (output_of a))) ''model.safetensors''"
    and "\<not> to_cache h (fst (choose_model a))"
  shows "run_script h a d = (1, AList.delete (output_of a) d)"
  using assms
  by (auto simp: run_script_def fetch_model_def download_and_convert_model_def verify_model_def looks_complete_def Let_def
      split: option.splits)

theorem sharded_model_lost_witness:
  "run_script offline_hub plain_arguments [(output_of plain_arguments,
     [(''config.json'', 1), (''model-00001-of-00002.safetensors'', 9), (''model-00002-of-00002.safetensors'', 9)])] = (1, [])"
  using sharded_model_lost [of plain_arguments offline_hub "[(output_of plain_arguments,
     [(''config.json'', 1), (''model-00001-of-00002.safetensors'', 9), (''model-00002-of-00002.safetensors'', 9)])]"]
  by (simp add: check_dependencies_def offline_hub_def verify_model_def has_file_def is_weights_def plain_arguments_def
      suffix_def AList.delete_eq)

end
