(* ===== verification/Tools.thy ===== *)
theory Tools
  imports Py_Text
begin

text \<open>
  The build tools: the generation of the protobuf modules (\<open>tools/generate_proto.py\<close>) and the model
  conversion (\<open>tools/rknn_toolkit_scripts\<close>). Programs that are run, their results and the files they
  write are parameters; printing is left out.
\<close>

subsection \<open>Protobuf code\<close>

text \<open>\<open>Done outputs\<close>: the program ended well and wrote these files (name and contents).\<close>

datatype run = Done "(string \<times> string) list" | Tool_Missing | Tool_Fails | Run_Raises exn

record repository =
  proto_there :: bool
  python_out :: "(string, string) pydict"
  cpp_out :: "(string, string) pydict"

definition write_all :: "(string \<times> string) list \<Rightarrow> (string, string) pydict \<Rightarrow> (string, string) pydict" where
  "write_all outputs d = fold (\<lambda>(n, t). AList.update n t) outputs d"

definition run_command :: "run \<Rightarrow> (string, string) pydict \<Rightarrow> (exn + bool) \<times> (string, string) pydict" where
  "run_command r d =
     (case r of
        Done outputs \<Rightarrow> (Inr True, write_all outputs d)
      | Run_Raises e \<Rightarrow> (Inl e, d)
      | _ \<Rightarrow> (Inr False, d))"

text \<open>\<open>text.replace(old, new)\<close> for a text \<open>old\<close> that is not empty: from the left, without overlaps.\<close>

function replace_all :: "string \<Rightarrow> string \<Rightarrow> string \<Rightarrow> string" where
  "replace_all old new [] = []"
| "replace_all old new (c # cs) =
     (if old \<noteq> [] \<and> prefix old (c # cs) then new @ replace_all old new (drop (length old) (c # cs))
      else c # replace_all old new cs)"
  by pat_completeness auto
termination
  by (relation "measure (\<lambda>(old, new, s). length s)") (auto simp: neq_Nil_conv less_Suc_eq_le)

definition absolute_import :: string where
  "absolute_import = ''import neuro_pipeline_pb2 as neuro__pipeline__pb2''"

definition relative_import :: string where
  "relative_import = ''from . '' @ absolute_import"

definition patched :: "string \<Rightarrow> string" where
  "patched t = replace_all absolute_import relative_import t"

definition grpc_stub :: string where
  "grpc_stub = ''neuro_pipeline_pb2_grpc.py''"

definition patch_stub :: "(string, string) pydict \<Rightarrow> (string, string) pydict" where
  "patch_stub d =
     (case map_of d grpc_stub of
        None \<Rightarrow> d
      | Some t \<Rightarrow> if patched t \<noteq> t then AList.update grpc_stub (patched t) d else d)"

definition init_text :: string where
  "init_text = replicate 3 quote @ ''Generated protobuf code.'' @ replicate 3 quote @ [newline]"

definition generate_python :: "run \<Rightarrow> (string, string) pydict \<Rightarrow> (exn + bool) \<times> (string, string) pydict" where
  "generate_python r d =
     (case run_command r d of
        (Inr True, d1) \<Rightarrow>
          (Inr True, patch_stub (if map_of d1 ''__init__.py'' = None then AList.update ''__init__.py'' init_text d1 else d1))
      | res \<Rightarrow> res)"

text \<open>With the plugin both kinds of code are asked for, without it only the plain one.\<close>

definition cpp_arguments :: "string \<Rightarrow> string \<Rightarrow> string \<Rightarrow> string option \<Rightarrow> string list" where
  "cpp_arguments proto_dir out proto plugin =
     [''protoc'', ''--proto_path='' @ proto_dir, ''--cpp_out='' @ out] @
     (case plugin of None \<Rightarrow> [] | Some p \<Rightarrow> [''--grpc_out='' @ out, ''--plugin=protoc-gen-grpc='' @ p]) @ [proto]"

definition generate_cpp :: "(string list \<Rightarrow> run) \<Rightarrow> string \<Rightarrow> string \<Rightarrow> string \<Rightarrow> string option \<Rightarrow> (string, string) pydict
      \<Rightarrow> (exn + bool) \<times> (string, string) pydict" where
  "generate_cpp protoc proto_dir out proto plugin d =
     run_command (protoc (cpp_arguments proto_dir out proto (if plugin = Some '''' then None else plugin))) d"

text \<open>The exit code; one of the two languages is enough.\<close>

definition generate_main :: "run \<Rightarrow> (string list \<Rightarrow> run) \<Rightarrow> string \<Rightarrow> string \<Rightarrow> string \<Rightarrow> string option \<Rightarrow> repository
      \<Rightarrow> (exn + nat) \<times> repository" where
  "generate_main py protoc proto_dir out proto plugin r =
     (if \<not> proto_there r then (Inr 1, r)
      else case generate_python py (python_out r) of
          (Inl e, d) \<Rightarrow> (Inl e, r\<lparr>python_out := d\<rparr>)
        | (Inr py_ok, d) \<Rightarrow>
            (case generate_cpp protoc proto_dir out proto plugin (cpp_out r) of
               (Inl e, c) \<Rightarrow> (Inl e, r\<lparr>python_out := d, cpp_out := c\<rparr>)
             | (Inr cpp_ok, c) \<Rightarrow> (Inr (if py_ok \<or> cpp_ok then 0 else 1), r\<lparr>python_out := d, cpp_out := c\<rparr>)))"

lemma patch_lookup: "map_of (patch_stub d) grpc_stub = map_option patched (map_of d grpc_stub)"
  by (cases "map_of d grpc_stub") (auto simp: patch_stub_def)

text \<open>
  After a successful generation the stub is the generated one with its import made
  relative, and the package file is there; a second patch of the same text would break it, so the
  patch relies on the stub being generated anew. The exit code is 0 even when one language failed.
\<close>

theorem stub_patched_once:
  assumes "generate_python (Done outputs) d = (res, d1)" and "map_of (write_all outputs d) grpc_stub = Some t"
  shows "res = Inr True \<and> map_of d1 grpc_stub = Some (patched t) \<and> map_of d1 ''__init__.py'' \<noteq> None \<and>
    patched relative_import = ''from . '' @ relative_import \<and>
    (proto_there r \<longrightarrow> fst (generate_main (Done outputs) (\<lambda>_. Tool_Fails) proto_dir out proto plugin r) = Inr 0)"
proof -
  have ne: "grpc_stub \<noteq> ''__init__.py''" by (simp add: grpc_stub_def)
  have "map_of (patch_stub e) ''__init__.py'' = map_of e ''__init__.py''" for e
    using ne by (auto simp: patch_stub_def split: option.split)
  then have "res = Inr True \<and> map_of d1 grpc_stub = Some (patched t) \<and> map_of d1 ''__init__.py'' \<noteq> None"
    using assms ne by (auto simp: generate_python_def run_command_def patch_lookup)
  moreover have "patched relative_import = ''from . '' @ relative_import"
    by (simp add: patched_def relative_import_def absolute_import_def)
  moreover have "proto_there r \<longrightarrow> fst (generate_main (Done outputs) (\<lambda>_. Tool_Fails) proto_dir out proto plugin r) = Inr 0"
    by (simp add: generate_main_def generate_python_def generate_cpp_def run_command_def)
  ultimately show ?thesis by blast
qed

theorem stub_patched_once_witness:
  "map_of (snd (generate_python (Done [(grpc_stub, absolute_import)]) [])) grpc_stub = Some (patched absolute_import)"
proof -
  obtain res d1 where g: "generate_python (Done [(grpc_stub, absolute_import)]) [] = (res, d1)" by fastforce
  from stub_patched_once [OF g, of absolute_import] g show ?thesis by (simp add: write_all_def)
qed

subsection \<open>Model conversion\<close>

record conversion =
  weights :: string
  rknn_path :: string
  img_size :: int
  platform :: string
  quantizing :: bool
  dataset :: "string option"
  simplify :: bool

text \<open>\<open>os.path.splitext(p)[0]\<close>: up to the last dot of the last component, unless only dots come before it.\<close>

definition splitext_root :: "string \<Rightarrow> string" where
  "splitext_root p =
     (let r = rev p;
          ext = takeWhile (\<lambda>c. c \<noteq> CHR ''.'' \<and> c \<noteq> CHR ''/'') r
      in case dropWhile (\<lambda>c. c \<noteq> CHR ''.'' \<and> c \<noteq> CHR ''/'') r of
          [] \<Rightarrow> p
        | c # stem \<Rightarrow>
            if c = CHR ''.'' \<and> \<not> list_all (\<lambda>x. x = CHR ''.'') (takeWhile (\<lambda>x. x \<noteq> CHR ''/'') stem)
            then rev stem else p)"

definition onnx_path :: "conversion \<Rightarrow> string" where
  "onnx_path c = splitext_root (rknn_path c) @ ''.onnx''"

definition to_onnx :: "conversion \<Rightarrow> string list" where
  "to_onnx c = [''convert_pt_to_onnx.py'', ''--weights'', weights c, ''--output'', onnx_path c, ''--img-size'', str_int (img_size c)] @
     (if simplify c then [''--simplify''] else [])"

text \<open>An argument that is \<open>None\<close> makes starting the program raise.\<close>

definition to_rknn :: "conversion \<Rightarrow> string option list" where
  "to_rknn c = map Some [''convert_onnx_to_rknn.py'', ''--onnx'', onnx_path c, ''--output'', rknn_path c, ''--target-platform'', platform c] @
     (if quantizing c then [Some ''--quantize'', Some ''--dataset'', dataset c] else [])"

definition run_step :: "(string list \<Rightarrow> int) \<Rightarrow> string option list \<Rightarrow> exn + nat option" where
  "run_step exec cmd =
     (if None \<in> set cmd then Inl (Type_Error ''expected str, bytes or os.PathLike object, not NoneType'')
      else Inr (if exec (map the cmd) = 0 then None else Some 1))"

text \<open>The exit code or what is raised, with the programs that were run.\<close>

definition run_pipeline :: "(string list \<Rightarrow> int) \<Rightarrow> conversion \<Rightarrow> (exn + nat) \<times> string list list" where
  "run_pipeline exec c =
     (case run_step exec (map Some (to_onnx c)) of
        Inl e \<Rightarrow> (Inl e, [])
      | Inr (Some n) \<Rightarrow> (Inr n, [to_onnx c])
      | Inr None \<Rightarrow> (case run_step exec (to_rknn c) of
            Inl e \<Rightarrow> (Inl e, [to_onnx c])
          | Inr (Some n) \<Rightarrow> (Inr n, [to_onnx c, map the (to_rknn c)])
          | Inr None \<Rightarrow> (Inr 0, [to_onnx c, map the (to_rknn c)])))"

text \<open>The RKNN converter refuses quantisation without a dataset before it does anything.\<close>

datatype toolkit_step = Load_Onnx | Build bool | Export

definition convert_steps :: "bool \<Rightarrow> string option \<Rightarrow> toolkit_step list" where
  "convert_steps quant data = [Load_Onnx, Build (quant \<and> data \<noteq> None \<and> data \<noteq> Some ''''), Export]"

fun convert_run :: "(toolkit_step \<Rightarrow> int) \<Rightarrow> toolkit_step list \<Rightarrow> nat" where
  "convert_run ret [] = 0"
| "convert_run ret (s # ss) = (if ret s \<noteq> 0 then 1 else convert_run ret ss)"

definition convert_main :: "bool \<Rightarrow> (toolkit_step \<Rightarrow> int) \<Rightarrow> bool \<Rightarrow> string option \<Rightarrow> nat" where
  "convert_main toolkit ret quant data =
     (if quant \<and> (data = None \<or> data = Some '''') then 2
      else if \<not> toolkit then 1 else convert_run ret (convert_steps quant data))"

text \<open>
  The conversion ends with 0 exactly when both programs did, run in this order on the
  same intermediate file; and a quantisation without a dataset is only noticed after the first
  conversion, by a \<open>TypeError\<close>, where the second program alone refuses it at once.
\<close>

theorem pipeline_outcome:
  assumes "exec (to_onnx c) = 0"
  shows "(\<not> quantizing c \<or> dataset c \<noteq> None \<longrightarrow>
      (fst (run_pipeline exec c) = Inr 0 \<longleftrightarrow> exec (map the (to_rknn c)) = 0) \<and>
      snd (run_pipeline exec c) = [to_onnx c, map the (to_rknn c)]) \<and>
    (quantizing c \<and> dataset c = None \<longrightarrow>
      (\<exists>m. run_pipeline exec c = (Inl (Type_Error m), [to_onnx c])) \<and> convert_main toolkit ret True (dataset c) = 2)"
proof -
  have "map the (map Some (to_onnx c)) = to_onnx c" by (simp add: comp_def)
  moreover have "None \<notin> set (map Some (to_onnx c))" by auto
  moreover have "None \<in> set (to_rknn c) \<longleftrightarrow> quantizing c \<and> dataset c = None" by (auto simp: to_rknn_def)
  ultimately show ?thesis
    using assms by (auto simp: run_pipeline_def run_step_def convert_main_def)
qed

theorem pipeline_outcome_witness:
  "snd (run_pipeline (\<lambda>_. 0) \<lparr>weights = ''w.pt'', rknn_path = ''m.rknn'', img_size = 640, platform = ''rk3588'',
     quantizing = True, dataset = None, simplify = True\<rparr>) =
   [[''convert_pt_to_onnx.py'', ''--weights'', ''w.pt'', ''--output'', ''m.onnx'', ''--img-size'', str_int 640, ''--simplify'']]"
  using pipeline_outcome [THEN conjunct2, THEN mp, THEN conjunct1, of "\<lambda>_. 0"
      "\<lparr>weights = ''w.pt'', rknn_path = ''m.rknn'', img_size = 640, platform = ''rk3588'',
        quantizing = True, dataset = None, simplify = True\<rparr>"]
  by (auto simp: to_onnx_def onnx_path_def splitext_root_def)

end
