(* ===== verification/Model_Export.thy ===== *)
theory Model_Export
  imports Tools
begin

text \<open>
  The two remaining scripts of the model tools: the export of a PyTorch checkpoint to ONNX
  (\<open>convert_pt_to_onnx.py\<close>) and the benchmark of a converted model (\<open>benchmark_rknn.py\<close>). PyTorch, the
  simplifier, the RKNN toolkit and numpy are parameters: what they return or raise. A network is a number.
\<close>

subsection \<open>Export\<close>

text \<open>What \<open>torch.load\<close> gives: a network, or a dictionary with optional networks.\<close>

datatype checkpoint = Network nat | Checkpoint "(string \<times> nat option) list"

definition no_attribute :: "string \<Rightarrow> string \<Rightarrow> exn" where
  "no_attribute typ name = Attribute_Error (typ @ '' object has no attribute '' @ name)"

definition chosen_network :: "checkpoint \<Rightarrow> exn + nat" where
  "chosen_network c = (case c of
       Network n \<Rightarrow> Inr n
     | Checkpoint d \<Rightarrow>
         (case map_of d ''model'' of
            Some None \<Rightarrow> Inl (no_attribute ''NoneType'' ''float'')
          | Some (Some n) \<Rightarrow> Inr n
          | None \<Rightarrow> (case map_of d ''ema'' of
                Some (Some n) \<Rightarrow> Inr n
              | _ \<Rightarrow> Inl (no_attribute ''dict'' ''eval''))))"

datatype onnx_file = Exported nat | Simplified nat

record exporting =
  torch_there :: bool
  loading :: "exn + checkpoint"
  exporting_error :: "exn option"
  simplifier_there :: bool
  simplifier :: "exn + bool"

text \<open>The exit code or what is raised, and the output file as it is then.\<close>

definition simplify_file :: "exporting \<Rightarrow> nat \<Rightarrow> (exn + nat) \<times> onnx_file option" where
  "simplify_file x n =
     (if \<not> simplifier_there x then (Inr 0, Some (Exported n))
      else case simplifier x of
          Inl e \<Rightarrow> (Inl e, Some (Exported n))
        | Inr checked \<Rightarrow> (Inr 0, Some (if checked then Simplified n else Exported n)))"

definition export_onnx :: "exporting \<Rightarrow> bool \<Rightarrow> onnx_file option \<Rightarrow> (exn + nat) \<times> onnx_file option" where
  "export_onnx x simplifying before =
     (if \<not> torch_there x then (Inr 1, before)
      else case loading x of
          Inl e \<Rightarrow> (Inl e, before)
        | Inr c \<Rightarrow> (case chosen_network c of
              Inl e \<Rightarrow> (Inl e, before)
            | Inr n \<Rightarrow> (case exporting_error x of
                  Some e \<Rightarrow> (Inl e, before)
                | None \<Rightarrow> if simplifying then simplify_file x n else (Inr 0, Some (Exported n)))))"

text \<open>
  An export that ends with 0 leaves the network of the checkpoint in the output file,
  \<open>model\<close> before \<open>ema\<close>, simplified only if that was asked for and the simplifier checked it; one that does
  not end with 0 leaves the old file, or the exported network when only the simplifier failed.
\<close>

theorem export_outcome:
  assumes "export_onnx x simplifying before = (r, after)"
  shows "(r = Inr 0 \<longrightarrow> (\<exists>c n. loading x = Inr c \<and> chosen_network c = Inr n \<and>
       after = Some (if simplifying \<and> simplifier_there x \<and> simplifier x = Inr True then Simplified n else Exported n))) \<and>
    (r \<noteq> Inr 0 \<longrightarrow> after = before \<or> (simplifying \<and> (\<exists>e n. simplifier x = Inl e \<and> after = Some (Exported n)))) \<and>
    (\<forall>d n. loading x = Inr (Checkpoint d) \<and> map_of d ''model'' = Some (Some n) \<and> r = Inr 0 \<longrightarrow>
       after = Some (Exported n) \<or> after = Some (Simplified n))"
  using assms
  by (auto simp: export_onnx_def simplify_file_def chosen_network_def split: if_splits sum.splits option.splits checkpoint.splits)

theorem export_outcome_witness:
  "snd (export_onnx \<lparr>torch_there = True, loading = Inr (Checkpoint [(''ema'', Some 2), (''model'', Some 1)]), exporting_error = None,
     simplifier_there = True, simplifier = Inr True\<rparr> True None) = Some (Simplified 1)"
proof -
  let ?x = "\<lparr>torch_there = True, loading = Inr (Checkpoint [(''ema'', Some 2), (''model'', Some 1)]), exporting_error = None,
     simplifier_there = True, simplifier = Inr True\<rparr>"
  obtain r after where e: "export_onnx ?x True None = (r, after)" by fastforce
  moreover have "r = Inr 0" using e by (simp add: export_onnx_def simplify_file_def chosen_network_def)
  ultimately show ?thesis using export_outcome [OF e] by (auto simp: chosen_network_def)
qed

subsection \<open>Benchmark\<close>

datatype rknn_call = Load_Rknn string | Init_Runtime "string option" | Inference | Release

record bench_args =
  bench_model :: string
  loops :: int
  warmup :: int
  simulated :: bool

text \<open>
  \<open>ret\<close> is the return code of the toolkit's calls, \<open>took k\<close> the two readings of the clock around the
  \<open>k\<close>-th timed inference, \<open>summary\<close> what numpy and the printing of its statistics raise.
\<close>

definition timed_latencies :: "(nat \<Rightarrow> real \<times> real) \<Rightarrow> int \<Rightarrow> real list" where
  "timed_latencies took n = map (\<lambda>k. (snd (took k) - fst (took k)) * 1000) [0..<nat n]"

definition benchmark_rknn ::
    "bool \<Rightarrow> (rknn_call \<Rightarrow> int) \<Rightarrow> (nat \<Rightarrow> real \<times> real) \<Rightarrow> (real list \<Rightarrow> exn option) \<Rightarrow> bench_args
       \<Rightarrow> (exn + nat) \<times> rknn_call list" where
  "benchmark_rknn toolkit ret took summary a =
     (let load = Load_Rknn (bench_model a); init = Init_Runtime (if simulated a then None else Some ''rk3588'')
      in if \<not> toolkit then (Inr 1, [])
         else if ret load \<noteq> 0 then (Inr 1, [load])
         else if ret init \<noteq> 0 then (Inr 1, [load, init])
         else let calls = [load, init] @ replicate (nat (warmup a)) Inference @ replicate (nat (loops a)) Inference
           in case summary (timed_latencies took (loops a)) of
               Some e \<Rightarrow> (Inl e, calls)
             | None \<Rightarrow> (Inr 0, calls @ [Release]))"

text \<open>
  The benchmark counts its iterations: it ends with 0 exactly when the model was loaded, the runtime
  started and the statistics printed; then the toolkit is released at the end, after \<open>warmup\<close> and \<open>loops\<close> inferences, of which
  exactly the \<open>loops\<close> are measured. A benchmark that fails never releases the toolkit.
\<close>

theorem benchmark_counts:
  assumes "benchmark_rknn toolkit ret took summary a = (r, calls)"
  shows "(r = Inr 0 \<longleftrightarrow> toolkit \<and> ret (Load_Rknn (bench_model a)) = 0 \<and>
       ret (Init_Runtime (if simulated a then None else Some ''rk3588'')) = 0 \<and> summary (timed_latencies took (loops a)) = None) \<and>
    (r = Inr 0 \<longleftrightarrow> Release \<in> set calls) \<and>
    (r = Inr 0 \<longrightarrow> last calls = Release \<and> length (filter (\<lambda>c. c = Inference) calls) = nat (warmup a) + nat (loops a)) \<and>
    length (timed_latencies took (loops a)) = nat (loops a)"
  using assms
  by (auto simp: benchmark_rknn_def timed_latencies_def Let_def split: if_splits option.splits)

theorem benchmark_counts_witness:
  "fst (benchmark_rknn True (\<lambda>_. 0) (\<lambda>k. (0, 1)) (\<lambda>_. None) \<lparr>bench_model = ''m.rknn'', loops = 3, warmup = 1, simulated = True\<rparr>) = Inr 0"
proof -
  let ?a = "\<lparr>bench_model = ''m.rknn'', loops = 3, warmup = 1, simulated = True\<rparr>"
  obtain r calls where b: "benchmark_rknn True (\<lambda>_. 0) (\<lambda>k. (0, 1)) (\<lambda>_. None) ?a = (r, calls)" by fastforce
  from benchmark_counts [OF b] b show ?thesis by simp
qed

end
