(* ===== verification/Plugin_Manager.thy ===== *)
theory Plugin_Manager
  imports Live_Walk "HOL-Library.Multiset"
begin

text \<open>
  The plugin manager of \<open>core/plugin.py\<close>. A plugin is its metadata and a number; what its
  methods do is a parameter, as it is code of the users. A method acts on a world of type
  \<open>'w\<close> (the state of all plugins). \<open>process\<close> also gives the object it was passed back: a
  dictionary can be changed in place before an exception is raised.
\<close>

subsection \<open>State\<close>

record plugin =
  plugin_name :: string
  version :: string
  description :: string
  author :: string
  priority :: int
  enabled :: bool
  instance_id :: nat

record manager =
  plugins :: "(string, plugin) pydict"
  initialized :: bool

definition new_manager :: manager where
  "new_manager = \<lparr>plugins = [], initialized = False\<rparr>"

subsection \<open>Registering\<close>

definition register :: "manager \<Rightarrow> plugin \<Rightarrow> exn + manager" where
  "register m p =
     (if map_of (plugins m) (plugin_name p) \<noteq> None
      then Inl (Value_Error (''Plugin '' @ plugin_name p @ '' already registered''))
      else Inr (m\<lparr>plugins := AList.update (plugin_name p) p (plugins m)\<rparr>))"

definition unregister :: "manager \<Rightarrow> string \<Rightarrow> bool \<times> manager" where
  "unregister m name =
     (if map_of (plugins m) name \<noteq> None then (True, m\<lparr>plugins := AList.delete name (plugins m)\<rparr>)
      else (False, m))"

definition get_plugin :: "manager \<Rightarrow> string \<Rightarrow> plugin option" where
  "get_plugin m name = map_of (plugins m) name"

definition list_plugins :: "manager \<Rightarrow> plugin list" where
  "list_plugins m = map snd (plugins m)"

text \<open>\<open>sorted(plugins, key=priority)\<close> is stable, and so is the sort with \<open>reverse=True\<close>.\<close>

definition by_priority :: "manager \<Rightarrow> plugin list" where
  "by_priority m = sort_key priority (list_plugins m)"

definition by_reverse_priority :: "manager \<Rightarrow> plugin list" where
  "by_reverse_priority m = sort_key (\<lambda>p. - priority p) (list_plugins m)"

subsection \<open>Lifecycle\<close>

text \<open>\<open>init p w\<close> awaits \<open>p.initialize(configs.get(name, {}))\<close>.\<close>

fun initialize_plugins ::
    "(plugin \<Rightarrow> 'w \<Rightarrow> (exn + unit) \<times> 'w) \<Rightarrow> plugin list \<Rightarrow> 'w \<Rightarrow> (exn + unit) \<times> 'w" where
  "initialize_plugins init [] w = (Inr (), w)"
| "initialize_plugins init (p # ps) w =
     (if \<not> enabled p then initialize_plugins init ps w
      else case init p w of
          (Inr _, w1) \<Rightarrow> initialize_plugins init ps w1
        | (Inl e, w1) \<Rightarrow>
            if \<not> is_exception e \<or> priority p < 50 then (Inl e, w1)
            else initialize_plugins init ps w1)"

definition initialize_all ::
    "(plugin \<Rightarrow> 'w \<Rightarrow> (exn + unit) \<times> 'w) \<Rightarrow> manager \<Rightarrow> 'w \<Rightarrow> (exn + unit) \<times> manager \<times> 'w" where
  "initialize_all init m w =
     (if initialized m then (Inr (), m, w)
      else case initialize_plugins init (by_priority m) w of
          (Inl e, w1) \<Rightarrow> (Inl e, m, w1)
        | (Inr _, w1) \<Rightarrow> (Inr (), m\<lparr>initialized := True\<rparr>, w1))"

fun shutdown_plugins ::
    "(plugin \<Rightarrow> 'w \<Rightarrow> (exn + unit) \<times> 'w) \<Rightarrow> plugin list \<Rightarrow> 'w \<Rightarrow> (exn + unit) \<times> 'w" where
  "shutdown_plugins stop [] w = (Inr (), w)"
| "shutdown_plugins stop (p # ps) w =
     (case stop p w of
        (Inr _, w1) \<Rightarrow> shutdown_plugins stop ps w1
      | (Inl e, w1) \<Rightarrow> if is_exception e then shutdown_plugins stop ps w1 else (Inl e, w1))"

definition shutdown_all ::
    "(plugin \<Rightarrow> 'w \<Rightarrow> (exn + unit) \<times> 'w) \<Rightarrow> manager \<Rightarrow> 'w \<Rightarrow> (exn + unit) \<times> manager \<times> 'w" where
  "shutdown_all stop m w =
     (case shutdown_plugins stop (by_reverse_priority m) w of
        (Inl e, w1) \<Rightarrow> (Inl e, m, w1)
      | (Inr _, w1) \<Rightarrow> (Inr (), m\<lparr>initialized := False\<rparr>, w1))"

subsection \<open>Processing\<close>

text \<open>
  The loop of \<open>process_detection\<close>. \<open>proc p d w\<close> is what the plugin returns or raises, the
  object \<open>d\<close> as the plugin leaves it, and the world.
\<close>

fun process_chain ::
    "(plugin \<Rightarrow> 'd \<Rightarrow> 'w \<Rightarrow> (exn + 'd option) \<times> 'd \<times> 'w) \<Rightarrow> plugin list \<Rightarrow> 'd \<Rightarrow> 'w
       \<Rightarrow> (exn + 'd option) \<times> 'w" where
  "process_chain proc [] d w = (Inr (Some d), w)"
| "process_chain proc (p # ps) d w =
     (if \<not> enabled p then process_chain proc ps d w
      else case proc p d w of
          (Inr None, d1, w1) \<Rightarrow> (Inr None, w1)
        | (Inr (Some d2), d1, w1) \<Rightarrow> process_chain proc ps d2 w1
        | (Inl e, d1, w1) \<Rightarrow> if is_exception e then process_chain proc ps d1 w1 else (Inl e, w1))"

definition process_detection where
  "process_detection proc m d w = process_chain proc (by_priority m) d w"

text \<open>\<open>process_frame\<close> is the same loop with the plugins' method for frames.\<close>

definition process_frame where
  "process_frame proc_frame m d w = process_chain proc_frame (by_priority m) d w"

text \<open>
  \<open>emit_event\<close> walks the live dictionary: the world here contains the manager, read by
  \<open>manager_of\<close>, which a plugin may change. A change of its size raises.
\<close>

definition emit_event ::
    "('w \<Rightarrow> manager) \<Rightarrow> (plugin \<Rightarrow> 'w \<Rightarrow> (exn + unit) \<times> 'w) \<Rightarrow> 'w \<Rightarrow> ((exn + unit) \<times> 'w) option" where
  "emit_event manager_of on_event w =
     walk_set (Runtime_Error ''dictionary changed size during iteration'')
       (length (list_plugins (manager_of w))) (\<lambda>s. list_plugins (manager_of s))
       (\<lambda>p s. if enabled p then on_event p s else (Inr (), s)) 0 w"

definition get_plugin_manager :: "manager option \<Rightarrow> manager \<times> manager option" where
  "get_plugin_manager g = (let m = (case g of None \<Rightarrow> new_manager | Some m \<Rightarrow> m) in (m, Some m))"

subsection \<open>Lemmas\<close>

datatype manager_op = Register plugin | Unregister string

fun manager_step :: "manager \<Rightarrow> manager_op \<Rightarrow> manager" where
  "manager_step m (Register p) = (case register m p of Inl e \<Rightarrow> m | Inr m1 \<Rightarrow> m1)"
| "manager_step m (Unregister name) = snd (unregister m name)"

definition manager_ok :: "manager \<Rightarrow> bool" where
  "manager_ok m \<longleftrightarrow> dict_ok (plugins m) \<and> (\<forall>(n, p) \<in> set (plugins m). plugin_name p = n)"

interpretation manager: kept_invariant manager_step manager_ok
proof
  fix m :: manager and op assume m: "manager_ok m"
  show "manager_ok (manager_step m op)"
  proof (cases op)
    case (Register p)
    with m show ?thesis
      using dict_ok_update [of "plugins m" "plugin_name p" p]
      by (auto simp: manager_ok_def register_def update_new simp del: dict_ok_update)
  next
    case (Unregister n)
    with m set_delete_subset [of n "plugins m"] show ?thesis
      by (auto simp: manager_ok_def unregister_def)
  qed
qed

lemma sort_key_perm:
  assumes "mset xs = mset ys" and "inj_on f (set xs)"
  shows "sort_key f xs = sort_key f ys"
proof (rule properties_for_sort_key)
  show "mset (sort_key f ys) = mset xs" using assms(1) by simp
  show "filter (\<lambda>y. f x = f y) (sort_key f ys) = filter (\<lambda>y. f x = f y) xs" if "x \<in> set (sort_key f ys)" for x
  proof -
    have set: "set xs = set ys" using assms(1) by (rule mset_eq_setD)
    have eq: "filter (\<lambda>y. f x = f y) zs = replicate (count (mset zs) x) x" if "set zs = set xs" for zs
    proof -
      have "filter (\<lambda>y. f x = f y) zs = filter (\<lambda>y. y = x) zs"
        using assms(2) that \<open>x \<in> _\<close> set by (intro filter_cong refl) (auto simp: inj_on_def)
      also have "\<dots> = replicate (count (mset zs) x) x"
        by (induction zs) auto
      finally show ?thesis .
    qed
    show ?thesis using eq [of xs] eq [of "sort_key f ys"] assms(1) set by simp
  qed
  show "sorted (map f (sort_key f ys))" by simp
qed

subsection \<open>Properties\<close>

text \<open>
  The order of registration does not matter when priorities are distinct: two
  managers that hold the same plugins process every detection and every frame alike, and
  initialise their plugins alike.
\<close>

theorem registration_order_irrelevant:
  assumes "mset (list_plugins m1) = mset (list_plugins m2)"
    and "inj_on priority (set (list_plugins m1))" and "initialized m1 = initialized m2"
  shows "process_detection proc m1 d w = process_detection proc m2 d w \<and>
    process_frame proc m1 d w = process_frame proc m2 d w \<and>
    fst (initialize_all init m1 w) = fst (initialize_all init m2 w) \<and>
    snd (snd (initialize_all init m1 w)) = snd (snd (initialize_all init m2 w))"
proof -
  have "by_priority m1 = by_priority m2"
    unfolding by_priority_def by (rule sort_key_perm [OF assms(1,2)])
  then show ?thesis
    using assms(3) by (auto simp: process_detection_def process_frame_def initialize_all_def
        split: prod.splits sum.splits)
qed

definition plug :: "string \<Rightarrow> int \<Rightarrow> plugin" where
  "plug n k = \<lparr>plugin_name = n, version = ''1'', description = '''', author = '''',
     priority = k, enabled = True, instance_id = 0\<rparr>"

definition step_plugin :: "plugin \<Rightarrow> int \<Rightarrow> unit \<Rightarrow> (exn + int option) \<times> int \<times> unit" where
  "step_plugin p d w = (Inr (Some (2 * d + priority p)), d, w)"

theorem registration_order_irrelevant_witness:
  "process_detection step_plugin (new_manager\<lparr>plugins := [(''b'', plug ''b'' 9), (''a'', plug ''a'' 1)]\<rparr>) 0 () =
   process_detection step_plugin (new_manager\<lparr>plugins := [(''a'', plug ''a'' 1), (''b'', plug ''b'' 9)]\<rparr>) 0 ()"
  using registration_order_irrelevant
    [of "new_manager\<lparr>plugins := [(''b'', plug ''b'' 9), (''a'', plug ''a'' 1)]\<rparr>"
        "new_manager\<lparr>plugins := [(''a'', plug ''a'' 1), (''b'', plug ''b'' 9)]\<rparr>"
        step_plugin 0 "()" "\<lambda>_ w. (Inr (), w)"]
  by (simp add: list_plugins_def new_manager_def plug_def add_mset_commute)

text \<open>
  Initialisation stops with an exception exactly when an enabled plugin with a
  priority below 50 raises one (when nothing is cancelled), and then the manager is not marked
  as initialised; a failure of any other plugin is passed over.
\<close>

theorem initialize_all_critical:
  assumes "\<not> initialized m"
    and i: "\<And>p w. init p w = ((case fails p of None \<Rightarrow> Inr () | Some e \<Rightarrow> Inl e), step p w)"
    and "\<And>p e. fails p = Some e \<Longrightarrow> is_exception e"
  shows "(\<exists>e. fst (initialize_all init m w) = Inl e) \<longleftrightarrow>
      (\<exists>p \<in> set (list_plugins m). enabled p \<and> priority p < 50 \<and> fails p \<noteq> None)"
    (is "?raises \<longleftrightarrow> ?critical")
proof -
  have chain: "(\<exists>e. fst (initialize_plugins init ps w) = Inl e) \<longleftrightarrow>
      (\<exists>p \<in> set ps. enabled p \<and> priority p < 50 \<and> fails p \<noteq> None)" for ps w
    using assms(3) by (induction ps arbitrary: w) (auto simp: i split: option.splits)
  have "?raises \<longleftrightarrow> (\<exists>e. fst (initialize_plugins init (by_priority m) w) = Inl e)"
    using assms(1) by (auto simp: initialize_all_def split: prod.splits sum.splits)
  then show ?thesis by (simp add: chain by_priority_def)
qed

definition failure :: "plugin \<Rightarrow> exn option" where
  "failure p = (if priority p = 7 then Some (Value_Error ''no'') else None)"

definition failing_init :: "plugin \<Rightarrow> unit \<Rightarrow> (exn + unit) \<times> unit" where
  "failing_init p w = ((case failure p of None \<Rightarrow> Inr () | Some e \<Rightarrow> Inl e), w)"

theorem initialize_all_critical_witness:
  "\<exists>e. fst (initialize_all failing_init (new_manager\<lparr>plugins := [(''a'', plug ''a'' 7)]\<rparr>) ()) = Inl e"
proof -
  have "\<not> initialized (new_manager\<lparr>plugins := [(''a'', plug ''a'' 7)]\<rparr>)" by (simp add: new_manager_def)
  moreover have "failing_init p w =
      ((case failure p of None \<Rightarrow> Inr () | Some e \<Rightarrow> Inl e), id w)" for p w
    by (simp add: failing_init_def)
  moreover have "is_exception e" if "failure p = Some e" for p e
    using that by (auto simp: failure_def split: if_splits)
  ultimately show ?thesis
    by (subst initialize_all_critical [where fails = failure and step = "\<lambda>_. id"])
      (simp_all add: new_manager_def list_plugins_def plug_def failure_def)
qed

subsection \<open>The default hooks\<close>

text \<open>What \<open>PipelinePlugin\<close> does where a plugin overrides nothing.\<close>

definition base_process_detection :: "plugin \<Rightarrow> 'd \<Rightarrow> 'w \<Rightarrow> (exn + 'd option) \<times> 'd \<times> 'w" where
  "base_process_detection p d w = (Inr (Some d), d, w)"

definition base_process_frame :: "plugin \<Rightarrow> 'd \<Rightarrow> 'w \<Rightarrow> (exn + 'd option) \<times> 'd \<times> 'w" where
  "base_process_frame p d w = (Inr (Some d), d, w)"

definition base_on_event :: "plugin \<Rightarrow> 'w \<Rightarrow> (exn + unit) \<times> 'w" where
  "base_on_event p w = (Inr (), w)"

text \<open>
  A plugin that overrides no hook is transparent: put anywhere into the chain, enabled or not, it changes neither the
  result nor the world, and an event that only such plugins hear of returns and changes nothing.
\<close>

theorem base_plugin_transparent:
  assumes "\<And>p d w. p \<in> set base \<Longrightarrow> proc p d w = base_process_detection p d w"
  shows "process_chain proc (ps @ base @ qs) d w = process_chain proc (ps @ qs) d w \<and>
    emit_event manager_of base_on_event w = Some (Inr (), w)"
proof
  have "process_chain proc (base @ qs) d w = process_chain proc qs d w" for d w
    using assms by (induction base arbitrary: d w) (simp_all add: base_process_detection_def)
  then show "process_chain proc (ps @ base @ qs) d w = process_chain proc (ps @ qs) d w"
    by (induction ps arbitrary: d w) (auto split: prod.split sum.split option.split)
next
  have "walk_set x (length (list_plugins (manager_of w))) (\<lambda>s. list_plugins (manager_of s))
      (\<lambda>p s. if enabled p then base_on_event p s else (Inr (), s)) (length (list_plugins (manager_of w)) - n) w =
      Some (Inr (), w)" if "n \<le> length (list_plugins (manager_of w))" for x n
    using that
  proof (induction n)
    case (Suc n)
    then have "Suc (length (list_plugins (manager_of w)) - Suc n) = length (list_plugins (manager_of w)) - n" by simp
    with Suc show ?case by (subst walk_set.simps) (simp add: base_on_event_def)
  qed (subst walk_set.simps, simp)
  from this [of "length (list_plugins (manager_of w))"] show "emit_event manager_of base_on_event w = Some (Inr (), w)"
    by (simp add: emit_event_def)
qed

theorem base_plugin_transparent_witness:
  "\<exists>p. fst (process_chain (\<lambda>p d w. if priority p = 1 then base_process_detection p d w else (Inr None, d, w))
     [p\<lparr>priority := 1, enabled := True\<rparr>] (5 :: nat) ()) = Inr (Some 5)"
proof -
  let ?proc = "\<lambda>p d w. if priority p = 1 then base_process_detection p d w else (Inr None, d, w)"
  let ?p = "\<lparr>plugin_name = ''p'', version = '''', description = '''', author = '''', priority = 1, enabled = True, instance_id = 0\<rparr>"
  have "process_chain ?proc ([] @ [?p] @ []) (5 :: nat) () = process_chain ?proc ([] @ []) 5 ()"
    by (rule base_plugin_transparent [THEN conjunct1]) simp
  then show ?thesis by (intro exI [of _ ?p]) simp
qed

end
