(* ===== verification/Pubsub.thy ===== *)
theory Pubsub
  imports Py_Text Live_Walk
begin

text \<open>
  The publish-subscribe bus \<open>EventBus\<close> of \<open>core/events.py\<close>. A handler is a number; what it
  does when called is the parameter \<open>call\<close> of the model, because handlers are code of the
  bus's users: it may change the bus and the rest of the world (the record's extension), and
  raise. \<open>publish\<close> walks the live list of handlers, as the code does, so a handler that
  subscribes or unsubscribes while it runs changes the walk; the walk need not end, and is a
  partial function. A set of handlers is kept as a list without repetition: the order in which
  Python walks it is not specified. Changing the size of a set during the walk raises.
\<close>

subsection \<open>State\<close>

record 'd bus_event =
  event_type :: string
  source :: string
  data :: 'd
  timestamp :: real
  event_id :: string

text \<open>\<open>__post_init__\<close> fills in the id.\<close>

definition new_event :: "string \<Rightarrow> 'd \<Rightarrow> string \<Rightarrow> real \<Rightarrow> string \<Rightarrow> 'd bus_event" where
  "new_event typ d src t i =
     \<lparr>event_type = typ, source = src, data = d, timestamp = t,
      event_id = (if i = '''' then typ @ ''-'' @ str_int (trunc_int (t * 1000)) else i)\<rparr>"

record 'd pubsub =
  subscribers :: "(string, nat list) pydict"
  async_subscribers :: "(string, nat list) pydict"
  wildcard_subscribers :: "nat list"
  wildcard_async_subscribers :: "nat list"
  history :: "'d bus_event list"
  max_history :: int
  scheduled :: "(nat \<times> 'd bus_event) list"

definition new_pubsub :: "int \<Rightarrow> 'd pubsub" where
  "new_pubsub n = \<lparr>subscribers = [], async_subscribers = [], wildcard_subscribers = [],
     wildcard_async_subscribers = [], history = [], max_history = n, scheduled = []\<rparr>"

subsection \<open>Subscribing\<close>

definition subscribe :: "('d, 'w) pubsub_scheme \<Rightarrow> string \<Rightarrow> nat \<Rightarrow> ('d, 'w) pubsub_scheme" where
  "subscribe b typ h =
     (if typ = ''*'' then b\<lparr>wildcard_subscribers := List.insert h (wildcard_subscribers b)\<rparr>
      else b\<lparr>subscribers := AList.update typ (handlers_of (subscribers b) typ @ [h]) (subscribers b)\<rparr>)"

definition subscribe_async :: "('d, 'w) pubsub_scheme \<Rightarrow> string \<Rightarrow> nat \<Rightarrow> ('d, 'w) pubsub_scheme" where
  "subscribe_async b typ h =
     (if typ = ''*''
      then b\<lparr>wildcard_async_subscribers := List.insert h (wildcard_async_subscribers b)\<rparr>
      else b\<lparr>async_subscribers :=
        AList.update typ (handlers_of (async_subscribers b) typ @ [h]) (async_subscribers b)\<rparr>)"

text \<open>The functions that \<open>subscribe\<close> and \<open>subscribe_async\<close> return.\<close>

definition unsubscribe :: "('d, 'w) pubsub_scheme \<Rightarrow> string \<Rightarrow> nat \<Rightarrow> ('d, 'w) pubsub_scheme" where
  "unsubscribe b typ h =
     (if typ = ''*'' then b\<lparr>wildcard_subscribers := remove1 h (wildcard_subscribers b)\<rparr>
      else case map_of (subscribers b) typ of
          None \<Rightarrow> b
        | Some hs \<Rightarrow> b\<lparr>subscribers := AList.update typ (remove1 h hs) (subscribers b)\<rparr>)"

definition unsubscribe_async :: "('d, 'w) pubsub_scheme \<Rightarrow> string \<Rightarrow> nat \<Rightarrow> ('d, 'w) pubsub_scheme" where
  "unsubscribe_async b typ h =
     (if typ = ''*'' then b\<lparr>wildcard_async_subscribers := remove1 h (wildcard_async_subscribers b)\<rparr>
      else case map_of (async_subscribers b) typ of
          None \<Rightarrow> b
        | Some hs \<Rightarrow> b\<lparr>async_subscribers := AList.update typ (remove1 h hs) (async_subscribers b)\<rparr>)"

subsection \<open>Publishing\<close>

definition add_to_history :: "('d, 'w) pubsub_scheme \<Rightarrow> 'd bus_event \<Rightarrow> ('d, 'w) pubsub_scheme" where
  "add_to_history b ev =
     (let h = history b @ [ev]
      in b\<lparr>history := (if max_history b < int (length h) then tl h else h)\<rparr>)"

text \<open>The loops are those of the theory \<open>Live_Walk\<close>.\<close>

definition size_changed :: exn where
  "size_changed = Runtime_Error ''Set changed size during iteration''"

definition walk_wildcards where
  "walk_wildcards live call b = walk_set size_changed (length (live b)) live call 0 b"

text \<open>
  \<open>asyncio.create_task\<close> raises when no event loop runs, which is caught; otherwise the task
  is put into the loop's queue. It changes no list of handlers.
\<close>

definition schedule ::
    "bool \<Rightarrow> 'd bus_event \<Rightarrow> nat \<Rightarrow> ('d, 'w) pubsub_scheme \<Rightarrow> (exn + unit) \<times> ('d, 'w) pubsub_scheme" where
  "schedule loop_running ev h b =
     (if loop_running then (Inr (), b\<lparr>scheduled := scheduled b @ [(h, ev)]\<rparr>)
      else (Inl (Runtime_Error ''no running event loop''), b))"

definition publish ::
    "(nat \<Rightarrow> 'd bus_event \<Rightarrow> ('d, 'w) pubsub_scheme \<Rightarrow> (exn + unit) \<times> ('d, 'w) pubsub_scheme) \<Rightarrow> bool
       \<Rightarrow> ('d, 'w) pubsub_scheme \<Rightarrow> 'd bus_event \<Rightarrow> ((exn + unit) \<times> ('d, 'w) pubsub_scheme) option" where
  "publish call loop_running b ev =
     and_then (walk_list (\<lambda>s. handlers_of (subscribers s) (event_type ev)) (\<lambda>h. call h ev) 0
         (add_to_history b ev)) (\<lambda>b1.
     and_then (walk_wildcards wildcard_subscribers (\<lambda>h. call h ev) b1) (\<lambda>b2.
     and_then (walk_list (\<lambda>s. handlers_of (async_subscribers s) (event_type ev))
         (schedule loop_running ev) 0 b2) (\<lambda>b3.
     walk_wildcards wildcard_async_subscribers (schedule loop_running ev) b3)))"

text \<open>\<open>call_async\<close> is the effect of awaiting a handler, with what other tasks do meanwhile.\<close>

definition publish_async ::
    "(nat \<Rightarrow> 'd bus_event \<Rightarrow> ('d, 'w) pubsub_scheme \<Rightarrow> (exn + unit) \<times> ('d, 'w) pubsub_scheme)
       \<Rightarrow> (nat \<Rightarrow> 'd bus_event \<Rightarrow> ('d, 'w) pubsub_scheme \<Rightarrow> (exn + unit) \<times> ('d, 'w) pubsub_scheme)
       \<Rightarrow> ('d, 'w) pubsub_scheme \<Rightarrow> 'd bus_event \<Rightarrow> ((exn + unit) \<times> ('d, 'w) pubsub_scheme) option" where
  "publish_async call call_async b ev =
     and_then (walk_list (\<lambda>s. handlers_of (subscribers s) (event_type ev)) (\<lambda>h. call h ev) 0
         (add_to_history b ev)) (\<lambda>b1.
     and_then (walk_wildcards wildcard_subscribers (\<lambda>h. call h ev) b1) (\<lambda>b2.
     and_then (walk_list (\<lambda>s. handlers_of (async_subscribers s) (event_type ev))
         (\<lambda>h. call_async h ev) 0 b2) (\<lambda>b3.
     walk_wildcards wildcard_async_subscribers (\<lambda>h. call_async h ev) b3)))"

text \<open>\<open>_call_async_handler\<close>, the body of a scheduled task.\<close>

definition call_async_handler ::
    "(nat \<Rightarrow> 'd bus_event \<Rightarrow> ('d, 'w) pubsub_scheme \<Rightarrow> (exn + unit) \<times> ('d, 'w) pubsub_scheme)
       \<Rightarrow> nat \<Rightarrow> 'd bus_event \<Rightarrow> ('d, 'w) pubsub_scheme \<Rightarrow> (exn + unit) \<times> ('d, 'w) pubsub_scheme" where
  "call_async_handler call_async h ev b =
     (case call_async h ev b of
        (Inl e, b1) \<Rightarrow> ((if is_exception e then Inr () else Inl e), b1)
      | r \<Rightarrow> r)"

subsection \<open>History and counting\<close>

definition get_history ::
    "('d, 'w) pubsub_scheme \<Rightarrow> string option \<Rightarrow> string option \<Rightarrow> int \<Rightarrow> 'd bus_event list" where
  "get_history b typ src limit =
     (let events = rev (history b);
          events1 = (case typ of Some t \<Rightarrow> if t \<noteq> '''' then filter (\<lambda>e. event_type e = t) events
                       else events | None \<Rightarrow> events);
          events2 = (case src of Some t \<Rightarrow> if t \<noteq> '''' then filter (\<lambda>e. source e = t) events1
                       else events1 | None \<Rightarrow> events1)
      in slice_to events2 limit)"

definition clear_history :: "('d, 'w) pubsub_scheme \<Rightarrow> ('d, 'w) pubsub_scheme" where
  "clear_history b = b\<lparr>history := []\<rparr>"

definition subscriber_count :: "('d, 'w) pubsub_scheme \<Rightarrow> string option \<Rightarrow> nat" where
  "subscriber_count b typ =
     (case typ of
        None \<Rightarrow> sum_list (map (length \<circ> snd) (subscribers b)) +
                sum_list (map (length \<circ> snd) (async_subscribers b)) +
                length (wildcard_subscribers b) + length (wildcard_async_subscribers b)
      | Some t \<Rightarrow> length (handlers_of (subscribers b) t) + length (handlers_of (async_subscribers b) t))"

text \<open>The global instance: \<open>get_event_bus\<close> creates it at the first use.\<close>

definition get_event_bus :: "'d pubsub option \<Rightarrow> 'd pubsub \<times> 'd pubsub option" where
  "get_event_bus g = (let b = (case g of None \<Rightarrow> new_pubsub 1000 | Some b \<Rightarrow> b) in (b, Some b))"

definition reset_event_bus :: "'d pubsub option \<Rightarrow> 'd pubsub option" where
  "reset_event_bus g = None"

subsection \<open>Lemmas\<close>

lemma schedule_behaves: "(\<And>b x. live (b\<lparr>scheduled := x\<rparr>) = live b) \<Longrightarrow> behaves live (schedule r ev)"
  by (auto simp: behaves_def schedule_def)

lemma swallow_schedule:
  "foldl (swallow (schedule True ev)) b hs = b\<lparr>scheduled := scheduled b @ map (\<lambda>h. (h, ev)) hs\<rparr>"
  by (induction hs arbitrary: b) (auto simp: swallow_def schedule_def)

text \<open>Handlers that leave the lists of handlers alone and are not cancelled.\<close>

definition all_lists where
  "all_lists s = (subscribers s, async_subscribers s, wildcard_subscribers s, wildcard_async_subscribers s)"

definition quiet ::
    "(nat \<Rightarrow> ('d, 'w) pubsub_scheme \<Rightarrow> (exn + unit) \<times> ('d, 'w) pubsub_scheme) \<Rightarrow> bool" where
  "quiet call \<longleftrightarrow> (\<forall>h s. all_lists (snd (call h s)) = all_lists s \<and>
     (\<forall>e. fst (call h s) = Inl e \<longrightarrow> is_exception e))"

lemma quiet_behaves:
  assumes "quiet call" and "\<And>s. live s = f (all_lists s)"
  shows "behaves live call"
  using assms by (simp add: quiet_def behaves_def)

lemma quiet_all_lists: "quiet call \<Longrightarrow> all_lists (foldl (swallow call) s hs) = all_lists s"
  by (rule foldl_keeps) (simp add: quiet_def swallow_def)

lemma all_lists_history [simp]: "all_lists (add_to_history b ev) = all_lists b"
  by (simp add: all_lists_def add_to_history_def Let_def)

lemma sync_walks:
  assumes q: "quiet (\<lambda>h. call h ev)"
  shows "walk_list (\<lambda>s. handlers_of (subscribers s) t) (\<lambda>h. call h ev) 0 b =
      Some (Inr (), foldl (swallow (\<lambda>h. call h ev)) b (handlers_of (subscribers b) t))"
    and "walk_wildcards wildcard_subscribers (\<lambda>h. call h ev) b =
      Some (Inr (), foldl (swallow (\<lambda>h. call h ev)) b (wildcard_subscribers b))"
proof -
  have "behaves (\<lambda>s. handlers_of (subscribers s) t) (\<lambda>h. call h ev)"
    by (rule quiet_behaves [OF q, where f = "\<lambda>(a, _). handlers_of a t"]) (simp add: all_lists_def)
  then show "walk_list (\<lambda>s. handlers_of (subscribers s) t) (\<lambda>h. call h ev) 0 b =
      Some (Inr (), foldl (swallow (\<lambda>h. call h ev)) b (handlers_of (subscribers b) t))"
    by (rule walks_behave)
  have "behaves wildcard_subscribers (\<lambda>h. call h ev)"
    by (rule quiet_behaves [OF q, where f = "\<lambda>(_, _, c, _). c"]) (simp add: all_lists_def)
  then show "walk_wildcards wildcard_subscribers (\<lambda>h. call h ev) b =
      Some (Inr (), foldl (swallow (\<lambda>h. call h ev)) b (wildcard_subscribers b))"
    unfolding walk_wildcards_def by (rule walks_behave)
qed

lemma async_walks:
  "walk_list (\<lambda>s. handlers_of (async_subscribers s) t) (schedule True ev) 0 b =
     Some (Inr (), b\<lparr>scheduled := scheduled b @ map (\<lambda>h. (h, ev)) (handlers_of (async_subscribers b) t)\<rparr>)"
  "walk_wildcards wildcard_async_subscribers (schedule True ev) b =
     Some (Inr (), b\<lparr>scheduled := scheduled b @ map (\<lambda>h. (h, ev)) (wildcard_async_subscribers b)\<rparr>)"
  by (simp_all add: walks_behave schedule_behaves walk_wildcards_def swallow_schedule)

definition history_ok :: "('d, 'w) pubsub_scheme \<Rightarrow> bool" where
  "history_ok b \<longleftrightarrow> int (length (history b)) \<le> max 0 (max_history b)"

interpretation history: kept_invariant add_to_history history_ok
  by unfold_locales (auto simp: history_ok_def add_to_history_def Let_def)

subsection \<open>Properties\<close>

text \<open>
  When the handlers leave the subscriptions alone, \<open>publish\<close> returns without an
  exception whatever they raise: it calls every handler of the event's type once, in the order
  of subscription, then every wildcard handler once, and schedules every asynchronous handler
  once; the event stands at the end of the history.
\<close>

theorem publish_delivers:
  assumes q: "quiet (\<lambda>h. call h ev)"
    and b1: "b1 = foldl (swallow (\<lambda>h. call h ev)) (add_to_history b ev)
      (handlers_of (subscribers b) (event_type ev) @ wildcard_subscribers b)"
  shows "publish call True b ev = Some (Inr (), b1\<lparr>scheduled := scheduled b1 @
      map (\<lambda>h. (h, ev)) (handlers_of (async_subscribers b) (event_type ev) @
                         wildcard_async_subscribers b)\<rparr>)"
proof -
  let ?s = "foldl (swallow (\<lambda>h. call h ev)) (add_to_history b ev)
      (handlers_of (subscribers b) (event_type ev))"
  have "all_lists ?s = all_lists b" "all_lists b1 = all_lists b"
    by (simp_all only: b1 quiet_all_lists [OF q] all_lists_history)
  moreover have "all_lists (add_to_history b ev) = all_lists b" by simp
  ultimately show ?thesis
    by (simp add: publish_def sync_walks [where call = call and ev = ev, OF q] async_walks b1 all_lists_def)
qed

definition noisy_handler :: "nat \<Rightarrow> unit bus_event \<Rightarrow> unit pubsub \<Rightarrow> (exn + unit) \<times> unit pubsub" where
  "noisy_handler h ev b = (if h = 1 then (Inl (Value_Error ''bad''), b) else (Inr (), clear_history b))"

definition some_event :: "unit bus_event" where
  "some_event = new_event ''alert'' () ''cam'' 1 ''''"

theorem publish_delivers_witness:
  "\<exists>b1. publish noisy_handler True
     (subscribe (subscribe_async (subscribe (new_pubsub 5) ''alert'' 1) ''*'' 7) ''*'' 2) some_event =
       Some (Inr (), b1) \<and> history b1 = [] \<and> scheduled b1 = [(7, some_event)]"
proof -
  have "quiet (\<lambda>h. noisy_handler h some_event)"
    by (auto simp: quiet_def noisy_handler_def all_lists_def clear_history_def)
  from publish_delivers [where call = noisy_handler and ev = some_event, OF this refl]
  show ?thesis
    by (simp add: subscribe_def subscribe_async_def new_pubsub_def handlers_of_def swallow_def
        noisy_handler_def some_event_def new_event_def add_to_history_def clear_history_def)
qed

definition leaving ::
    "(nat \<Rightarrow> 'd bus_event \<Rightarrow> ('d, 'w) pubsub_scheme \<Rightarrow> (exn + unit) \<times> ('d, 'w) pubsub_scheme)
       \<Rightarrow> string \<Rightarrow> nat \<Rightarrow> nat \<Rightarrow> 'd bus_event
       \<Rightarrow> ('d, 'w) pubsub_scheme \<Rightarrow> (exn + unit) \<times> ('d, 'w) pubsub_scheme" where
  "leaving other t h h' ev b = (if h' = h then (Inr (), unsubscribe b t h) else other h' ev b)"

lemma handlers_unsubscribe:
  "t \<noteq> ''*'' \<Longrightarrow> handlers_of (subscribers (unsubscribe b t h)) t = remove1 h (handlers_of (subscribers b) t)"
  by (simp add: unsubscribe_def handlers_of_def split: option.splits)

lemma history_subscribers [simp]:
  "subscribers (add_to_history b ev) = subscribers b"
  "async_subscribers (add_to_history b ev) = async_subscribers b"
  "wildcard_subscribers (add_to_history b ev) = wildcard_subscribers b"
  "wildcard_async_subscribers (add_to_history b ev) = wildcard_async_subscribers b"
  by (simp_all add: add_to_history_def Let_def)

lemma unsubscribe_others [simp]:
  "async_subscribers (unsubscribe b t h) = async_subscribers b"
  "t \<noteq> ''*'' \<Longrightarrow> wildcard_subscribers (unsubscribe b t h) = wildcard_subscribers b"
  "wildcard_async_subscribers (unsubscribe b t h) = wildcard_async_subscribers b"
  by (auto simp: unsubscribe_def split: option.splits)

lemma walk_list_leaving:
  assumes "handlers_of (subscribers b) t = [h1, h2]" and "t \<noteq> ''*''" and "t = event_type ev"
  shows "walk_list (\<lambda>s. handlers_of (subscribers s) t) (\<lambda>h. leaving other t h1 h ev) 0 b =
    Some (Inr (), unsubscribe b t h1)"
  using assms by (simp add: walk_list.simps [where i = 0] walk_list.simps [where i = "Suc 0"]
      leaving_def handlers_unsubscribe)

text \<open>
  A handler that unsubscribes itself while it is called makes the loop step over the
  next handler of the same type, which is not called for this event; and a wildcard handler
  that does so makes \<open>publish\<close> raise a \<open>RuntimeError\<close> that its \<open>except\<close> does not catch.
\<close>

theorem self_unsubscribe_skips:
  assumes t: "t = event_type ev" and "t \<noteq> ''*''"
    and "handlers_of (subscribers b) t = [h1, h2]"
    and "wildcard_subscribers b = []" and "wildcard_async_subscribers b = []"
    and "handlers_of (async_subscribers b) t = []"
    and "handlers_of (subscribers c) t = []" and "wildcard_subscribers c = [h1]"
  shows "publish (leaving other t h1) r b ev = Some (Inr (), unsubscribe (add_to_history b ev) t h1) \<and>
    publish (leaving other ''*'' h1) r c ev =
      Some (Inl size_changed, unsubscribe (add_to_history c ev) ''*'' h1)"
proof -
  have "walk_list (\<lambda>s. handlers_of (subscribers s) t) (\<lambda>h. leaving other t h1 h ev) 0
      (add_to_history b ev) = Some (Inr (), unsubscribe (add_to_history b ev) t h1)"
    using assms by (intro walk_list_leaving) simp_all
  with assms have "publish (leaving other t h1) r b ev =
      Some (Inr (), unsubscribe (add_to_history b ev) t h1)"
    by (simp add: publish_def walk_wildcards_def walk_set.simps [where i = 0]
        walk_list.simps [where i = 0])
  moreover have "publish (leaving other ''*'' h1) r c ev =
      Some (Inl size_changed, unsubscribe (add_to_history c ev) ''*'' h1)"
    using assms by (simp add: publish_def walk_wildcards_def walk_set.simps [where i = 0]
        walk_set.simps [where i = "Suc 0"] walk_list.simps [where i = 0] leaving_def unsubscribe_def)
  ultimately show ?thesis by blast
qed

theorem self_unsubscribe_skips_witness:
  "publish (leaving noisy_handler ''alert'' 3) True
     (subscribe (subscribe (new_pubsub 5) ''alert'' 3) ''alert'' 4) some_event =
   Some (Inr (), unsubscribe (add_to_history
     (subscribe (subscribe (new_pubsub 5) ''alert'' 3) ''alert'' 4) some_event) ''alert'' 3)"
  using self_unsubscribe_skips [of "''alert''" some_event
      "subscribe (subscribe (new_pubsub 5) ''alert'' 3) ''alert'' 4" 3 4
      "subscribe (new_pubsub 5) ''*'' 3" noisy_handler True]
  by (simp add: subscribe_def new_pubsub_def handlers_of_def some_event_def new_event_def)

text \<open>
  After any publications the history has at most \<open>max_history\<close> events, and
  \<open>get_history\<close> returns those of the type and the source asked for, newest first, at most
  \<open>limit\<close> of them for a limit that is not negative.
\<close>

theorem history_newest_first:
  fixes evs :: "'d bus_event list"
  assumes b: "b = foldl add_to_history (new_pubsub n) evs" and "0 \<le> limit"
    and "t \<noteq> ''''" and "src \<noteq> ''''"
  shows "int (length (history b)) \<le> max 0 n \<and>
    get_history b (Some t) (Some src) limit =
      take (nat limit) (filter (\<lambda>e. event_type e = t \<and> source e = src) (rev (history b))) \<and>
    get_history b None None limit = take (nat limit) (rev (history b)) \<and>
    (\<exists>k. history b = drop k evs)"
proof -
  have "history_ok b" unfolding b
    by (rule history.run_keeps) (simp add: history_ok_def new_pubsub_def)
  moreover have m: "max_history (foldl add_to_history (new_pubsub n) es) = n"
    for es :: "'d bus_event list"
    by (induction es rule: rev_induct) (simp_all add: new_pubsub_def add_to_history_def Let_def)
  moreover have "\<exists>k. history (foldl add_to_history (new_pubsub n) es) = drop k es"
    for es :: "'d bus_event list"
  proof (induction es rule: rev_induct)
    case Nil
    then show ?case by (simp add: new_pubsub_def)
  next
    case (snoc e es)
    then obtain k where k: "history (foldl add_to_history (new_pubsub n) es) = drop k es" by blast
    have d: "drop k es @ [e] = drop (min k (length es)) (es @ [e])" by (cases "k \<le> length es") auto
    have "\<exists>j. history (add_to_history b e) = drop j (history b @ [e])" for b
    proof (cases "max_history b < 1 + int (length (history b))")
      case True
      have "tl xs = drop (Suc 0) xs" for xs :: "'e list" by (simp only: drop_Suc drop_0)
      with True show ?thesis by (auto simp: add_to_history_def Let_def simp del: drop_append)
    next
      case False
      then have "history (add_to_history b e) = drop 0 (history b @ [e])"
        by (simp add: add_to_history_def Let_def)
      then show ?thesis by blast
    qed
    then obtain j where "history (foldl add_to_history (new_pubsub n) (es @ [e])) =
        drop j (history (foldl add_to_history (new_pubsub n) es) @ [e])" by auto
    then show ?case by (simp only: k d drop_drop) blast
  qed
  ultimately show ?thesis
    using assms by (simp add: history_ok_def get_history_def slice_to_def conj_commute)
qed

theorem history_newest_first_witness:
  "get_history (foldl add_to_history (new_pubsub 1) [some_event]) (Some ''alert'') (Some ''cam'') 3 =
     [some_event]"
  using history_newest_first [OF refl, of 3 "''alert''" "''cam''" 1 "[some_event]"]
  by (simp add: new_pubsub_def add_to_history_def some_event_def new_event_def)


subsection \<open>Termination\<close>

definition short :: "nat \<Rightarrow> string \<Rightarrow> ('d, 'w) pubsub_scheme \<Rightarrow> bool" where
  "short n t s \<longleftrightarrow> length (handlers_of (subscribers s) t) \<le> n \<and> length (handlers_of (async_subscribers s) t) \<le> n"

lemma schedule_keeps: "subscribers (snd (schedule r ev h b)) = subscribers b"
    "async_subscribers (snd (schedule r ev h b)) = async_subscribers b"
  by (simp_all add: schedule_def)

lemma walk_wildcards_returns:
  "(\<And>h s. P s \<Longrightarrow> P (snd (call h s))) \<Longrightarrow> P b \<Longrightarrow> \<exists>r s. walk_wildcards live call b = Some (r, s) \<and> P s"
  unfolding walk_wildcards_def by (rule walk_set_returns)

text \<open>
  Claim C25. A publication returns, whatever its handlers raise, when they keep the lists of
  handlers of its type below some length; and it never returns when the type has a handler and
  every call of a handler subscribes another one for that type, as the loop walks the live list.
\<close>

theorem publish_termination:
  fixes n :: nat
  shows "((\<forall>h s. short n (event_type ev) s \<longrightarrow> short n (event_type ev) (snd (call h ev s))) \<and>
      short n (event_type ev) b \<longrightarrow> publish call r b ev \<noteq> None) \<and>
    (grows (\<lambda>s. handlers_of (subscribers s) (event_type ev)) (\<lambda>h. call h ev) \<and>
      handlers_of (subscribers b) (event_type ev) \<noteq> [] \<longrightarrow> publish call r b ev = None)"
proof (intro conjI impI, elim conjE)
  let ?P = "short n (event_type ev)"
  assume step: "\<forall>h s. ?P s \<longrightarrow> ?P (snd (call h ev s))" and b: "?P b"
  have sched: "?P s \<Longrightarrow> ?P (snd (schedule r ev h s))" for h s by (simp add: short_def schedule_keeps)
  have "\<exists>res s. publish call r b ev = Some (res, s) \<and> ?P s"
    unfolding publish_def
    using step b sched
    by (intro and_then_returns walk_list_returns [where n = n] walk_wildcards_returns) (auto simp: short_def)
  then show "publish call r b ev \<noteq> None" by auto
next
  assume "grows (\<lambda>s. handlers_of (subscribers s) (event_type ev)) (\<lambda>h. call h ev) \<and>
      handlers_of (subscribers b) (event_type ev) \<noteq> []"
  then show "publish call r b ev = None" by (simp add: publish_def walk_list_diverges)
qed

definition greedy :: "nat \<Rightarrow> unit bus_event \<Rightarrow> unit pubsub \<Rightarrow> (exn + unit) \<times> unit pubsub" where
  "greedy h ev b = (Inr (), subscribe b (event_type ev) (Suc h))"

theorem publish_termination_witness:
  "publish greedy True (subscribe (new_pubsub 5) ''alert'' 0) some_event = None \<and>
   publish noisy_handler True (subscribe (new_pubsub 5) ''alert'' 1) some_event \<noteq> None"
proof -
  have "grows (\<lambda>s. handlers_of (subscribers s) (event_type some_event)) (\<lambda>h. greedy h some_event)"
    by (simp add: grows_def greedy_def subscribe_def some_event_def new_event_def)
  moreover have "\<forall>h s. short 1 (event_type some_event) s \<longrightarrow> short 1 (event_type some_event) (snd (noisy_handler h some_event s))"
    by (simp add: noisy_handler_def clear_history_def short_def)
  ultimately show ?thesis
    using publish_termination [of 1 some_event greedy "subscribe (new_pubsub 5) ''alert'' 0" True]
      publish_termination [of 1 some_event noisy_handler "subscribe (new_pubsub 5) ''alert'' 1" True]
    by (simp add: subscribe_def new_pubsub_def handlers_of_def short_def some_event_def new_event_def)
qed

end
