(* ===== verification/Reasoning.thy ===== *)
theory Reasoning
  imports Prompts Detection_Store
begin

text \<open>
  The reasoning chain of \<open>inference/reasoning_chain.py\<close>: observe, reason, verify, each step
  prompted with the beginning of the answer before it. What happens around a step (the two
  clocks, the engine's answer, the attempts of the two database writes) is its \<open>step_env\<close>;
  \<open>asyncio.wait_for\<close> is modelled by the time the engine takes.
\<close>

subsection \<open>Steps\<close>

record step =
  step_name :: string
  step_prompt :: string
  step_result :: string
  step_elapsed_ms :: real
  step_time :: real

record reasoning_result =
  steps :: "step list"
  final_conclusion :: string
  total_elapsed_ms :: real
  success :: bool

definition observation :: "reasoning_result \<Rightarrow> string" where
  "observation r = (case steps r of [] \<Rightarrow> '''' | s # _ \<Rightarrow> step_result s)"

definition reasoning :: "reasoning_result \<Rightarrow> string" where
  "reasoning r = (if 1 < length (steps r) then step_result (steps r ! 1) else '''')"

definition verification :: "reasoning_result \<Rightarrow> string" where
  "verification r = (if 2 < length (steps r) then step_result (steps r ! 2) else '''')"

record chain =
  max_steps :: int
  timeout_per_step :: real

definition new_chain :: "int \<Rightarrow> real \<Rightarrow> chain" where
  "new_chain n timeout = \<lparr>max_steps = min n 3, timeout_per_step = timeout\<rparr>"

definition step_names :: "string list" where
  "step_names = [''observe'', ''reason'', ''verify'']"

definition summary_of :: "detection list \<Rightarrow> string" where
  "summary_of dets =
     (if dets = [] then ''no objects''
      else join ''; '' (map (\<lambda>d. class_name d @ '' ('' @ format_percent 0 (confidence d) @ '')'') dets))"

definition quoted :: "string \<Rightarrow> string" where
  "quoted s = quote # s @ [quote]"

definition build_step_prompt :: "string \<Rightarrow> detection list \<Rightarrow> string \<Rightarrow> string" where
  "build_step_prompt name dets previous =
     (if name = ''observe'' then
        ''Observe this scene carefully. Detected objects: '' @ summary_of dets @ ''. '' @
        ''Describe exactly what you see '' @ em_dash @ '' objects, positions, actions, '' @
        ''and environmental context. Be factual and specific.''
      else if name = ''reason'' then
        ''Based on this observation: '' @ quoted (take 300 previous) @ '' '' @
        ''Now reason about what is happening. What activities are taking place? '' @
        ''Are there any safety concerns, unusual patterns, or noteworthy interactions? '' @
        ''Explain your reasoning step by step.''
      else if name = ''verify'' then
        ''Based on this analysis: '' @ quoted (take 300 previous) @ '' '' @
        ''Verify your conclusions. Rate confidence (high/medium/low). '' @
        ''Identify what could be wrong with the analysis. '' @
        ''Provide a final concise assessment with actionable recommendations.''
      else ''Analyze: '' @ summary_of dets)"

subsection \<open>The chain\<close>

text \<open>
  The surroundings of one step: \<open>time.time()\<close> at its start, \<open>time.perf_counter()\<close> before and
  after the call, how long the engine takes and what it gives, the clock and the attempts of
  the two writes.
\<close>

record step_env =
  wall_start :: real
  perf_start :: real
  perf_end :: real
  engine_time :: real
  engine_answer :: "string \<Rightarrow> exn + string"
  write_time :: real
  db_prompt :: "nat \<Rightarrow> db_attempt"
  db_answer :: "nat \<Rightarrow> db_attempt"

definition wait_for :: "real \<Rightarrow> step_env \<Rightarrow> string \<Rightarrow> exn + string" where
  "wait_for timeout env prompt =
     (if timeout \<le> 0 \<or> timeout < engine_time env then Inl Timeout_Error else engine_answer env prompt)"

text \<open>The second write is skipped when the first one raises; both failures are only logged.\<close>

definition persist_step :: "store option \<Rightarrow> string \<Rightarrow> step_env \<Rightarrow> string \<Rightarrow> string \<Rightarrow> string \<Rightarrow> store option" where
  "persist_step st dev env name prompt ans =
     (case st of
        None \<Rightarrow> None
      | Some s \<Rightarrow>
          if dev = '''' then Some s
          else case record_conversation s (db_prompt env) dev ''system''
                 (''['' @ name @ ''] '' @ prompt) ''reasoning'' 0 (write_time env) of
              (Inl e, s1) \<Rightarrow> Some s1
            | (Inr _, s1) \<Rightarrow> Some (snd (record_conversation s1 (db_answer env) dev ''assistant''
                (take 500 ans) ''reasoning'' 0 (write_time env))))"

text \<open>
  The loop, with \<open>n\<close> steps to go from step \<open>i\<close> on. \<open>rep\<close> is \<open>str\<close> on the timeout. A
  cancellation leaves the loop as an exception; every other one ends the chain with a step
  that holds the error's text.
\<close>

fun chain_loop ::
    "(real \<Rightarrow> string) \<Rightarrow> chain \<Rightarrow> detection list \<Rightarrow> string \<Rightarrow> (nat \<Rightarrow> step_env) \<Rightarrow> nat \<Rightarrow> nat \<Rightarrow> string
       \<Rightarrow> step list \<Rightarrow> store option \<Rightarrow> (exn + step list) \<times> store option" where
  "chain_loop rep c dets dev envs 0 i context done st = (Inr done, st)"
| "chain_loop rep c dets dev envs (Suc n) i context done st =
     (let env = envs i;
          name = step_names ! i;
          prompt = build_step_prompt name dets context;
          finished = (\<lambda>res. \<lparr>step_name = name, step_prompt = prompt, step_result = res,
             step_elapsed_ms = (perf_end env - perf_start env) * 1000, step_time = wall_start env\<rparr>)
      in case wait_for (timeout_per_step c) env prompt of
          Inr ans \<Rightarrow> chain_loop rep c dets dev envs n (Suc i) ans (done @ [finished ans])
              (persist_step st dev env name prompt ans)
        | Inl Timeout_Error \<Rightarrow>
            (Inr (done @ [finished (''[timeout after '' @ rep (timeout_per_step c) @ ''s]'')]), st)
        | Inl e \<Rightarrow>
            (if is_exception e then (Inr (done @ [finished (''[error: '' @ exn_text e @ '']'')]), st)
             else (Inl e, st)))"

definition execute ::
    "(real \<Rightarrow> string) \<Rightarrow> chain \<Rightarrow> detection list \<Rightarrow> string \<Rightarrow> (nat \<Rightarrow> step_env) \<Rightarrow> real \<Rightarrow> real \<Rightarrow> store option
       \<Rightarrow> (exn + reasoning_result) \<times> store option" where
  "execute rep c dets dev envs t0 t1 st =
     (case chain_loop rep c dets dev envs (nat (max_steps c)) 0 '''' [] st of
        (Inl e, st1) \<Rightarrow> (Inl e, st1)
      | (Inr ss, st1) \<Rightarrow>
          (Inr \<lparr>steps = ss, final_conclusion = (if ss = [] then '''' else step_result (last ss)),
                total_elapsed_ms = (t1 - t0) * 1000, success = (int (length ss) = max_steps c)\<rparr>, st1))"

subsection \<open>Lemmas\<close>

text \<open>What step \<open>i\<close> of a list of steps is prompted with, and whether the engine answered it.\<close>

definition previous_result :: "step list \<Rightarrow> nat \<Rightarrow> string" where
  "previous_result ss i = (if i = 0 then '''' else step_result (ss ! (i - 1)))"

definition answered :: "chain \<Rightarrow> (nat \<Rightarrow> step_env) \<Rightarrow> step list \<Rightarrow> nat \<Rightarrow> bool" where
  "answered c envs ss i \<longleftrightarrow>
     wait_for (timeout_per_step c) (envs i) (step_prompt (ss ! i)) = Inr (step_result (ss ! i))"

definition failed :: "chain \<Rightarrow> (nat \<Rightarrow> step_env) \<Rightarrow> step list \<Rightarrow> nat \<Rightarrow> bool" where
  "failed c envs ss i \<longleftrightarrow>
     (\<exists>e. wait_for (timeout_per_step c) (envs i) (step_prompt (ss ! i)) = Inl e)"

definition well_prompted :: "detection list \<Rightarrow> step list \<Rightarrow> bool" where
  "well_prompted dets ss \<longleftrightarrow> (\<forall>i < length ss. step_name (ss ! i) = step_names ! i \<and>
     step_prompt (ss ! i) = build_step_prompt (step_names ! i) dets (previous_result ss i))"

lemma previous_result_append: "i \<le> length ss \<Longrightarrow> previous_result (ss @ [x]) i = previous_result ss i"
  by (cases i) (simp_all add: previous_result_def nth_append)

lemma well_prompted_snoc:
  "well_prompted dets ss \<Longrightarrow> step_name x = step_names ! length ss \<Longrightarrow>
     step_prompt x = build_step_prompt (step_names ! length ss) dets (previous_result ss (length ss)) \<Longrightarrow>
     well_prompted dets (ss @ [x])"
  by (auto simp: well_prompted_def less_Suc_eq nth_append previous_result_append)

lemma answered_append: "i < length ss \<Longrightarrow> answered c envs (ss @ [x]) i = answered c envs ss i"
  by (simp add: answered_def nth_append)

lemma answered_not_failed: "answered c envs ss i \<Longrightarrow> \<not> failed c envs ss i"
  by (simp add: answered_def failed_def)

lemma chain_loop_accounts:
  assumes "chain_loop rep c dets dev envs n i ctx done st = (Inr ss, st1)"
    and "length done = i" and "ctx = previous_result done i" and "well_prompted dets done"
    and "\<forall>j < i. answered c envs done j"
  shows "well_prompted dets ss \<and> length ss \<le> i + n \<and> (\<forall>j. Suc j < length ss \<longrightarrow> answered c envs ss j) \<and>
    (ss \<noteq> [] \<and> failed c envs ss (length ss - 1) \<or> length ss = i + n \<and> (\<forall>j < length ss. answered c envs ss j))"
  using assms
proof (induction n arbitrary: i ctx "done" st)
  case 0
  then show ?case by auto
next
  case (Suc n)
  let ?env = "envs i" and ?name = "step_names ! i"
  let ?prompt = "build_step_prompt ?name dets ctx"
  let ?x = "\<lambda>res. \<lparr>step_name = ?name, step_prompt = ?prompt, step_result = res,
     step_elapsed_ms = (perf_end ?env - perf_start ?env) * 1000, step_time = wall_start ?env\<rparr>"
  have wp: "well_prompted dets (done @ [?x res])" for res
    using Suc.prems(2-4) by (intro well_prompted_snoc) simp_all
  have old: "answered c envs (done @ [?x res]) j" if "j < i" for res j
    using that Suc.prems(2,5) by (simp add: answered_append)
  show ?case
  proof (cases "wait_for (timeout_per_step c) ?env ?prompt")
    case (Inr ans)
    have "answered c envs (done @ [?x ans]) j" if "j < Suc i" for j
      using that old Inr Suc.prems(2) by (auto simp: less_Suc_eq answered_def nth_append)
    with Suc.IH [of "Suc i" ans "done @ [?x ans]"] wp [of ans] Inr Suc.prems(1,2)
    show ?thesis by (simp add: Let_def previous_result_def nth_append)
  next
    case (Inl e)
    with Suc.prems(1) obtain res where ss: "ss = done @ [?x res]"
      by (cases e) (auto simp: Let_def split: if_splits)
    with Inl have "failed c envs ss i" using Suc.prems(2) by (simp add: failed_def nth_append)
    with ss wp old Suc.prems(2) show ?thesis by simp
  qed
qed

text \<open>
  The chain's record is what happened: its steps are observe, reason, verify in this
  order, at most \<open>max_steps\<close> of them; each is prompted with the detections or with the first 300
  characters of the result before it; every step but the last holds the engine's answer to its
  prompt; and a chain is shorter than \<open>max_steps\<close> only because its last step failed.
\<close>

theorem reasoning_chain_accounts:
  assumes "execute rep (new_chain n timeout) dets dev envs t0 t1 st = (Inr r, st1)"
  shows "map step_name (steps r) = take (length (steps r)) step_names \<and>
    int (length (steps r)) \<le> max 0 (min n 3) \<and>
    (\<forall>i < length (steps r). step_prompt (steps r ! i) =
       build_step_prompt (step_names ! i) dets (previous_result (steps r) i)) \<and>
    (\<forall>i. Suc i < length (steps r) \<longrightarrow> answered (new_chain n timeout) envs (steps r) i) \<and>
    (int (length (steps r)) < min n 3 \<longrightarrow>
       steps r \<noteq> [] \<and> failed (new_chain n timeout) envs (steps r) (length (steps r) - 1))"
proof -
  let ?c = "new_chain n timeout"
  from assms obtain ss where ss: "chain_loop rep ?c dets dev envs (nat (max_steps ?c)) 0 '''' [] st = (Inr ss, st1)"
    and r: "steps r = ss" by (auto simp: execute_def split: prod.splits sum.splits)
  note loop = chain_loop_accounts [OF ss, simplified previous_result_def well_prompted_def, simplified,
      folded previous_result_def]
  from loop have len: "length ss \<le> nat (min n 3)" by (simp add: new_chain_def)
  then have "length ss \<le> length step_names" by (simp add: step_names_def)
  with loop have "map step_name ss = take (length ss) step_names"
    by (intro nth_equalityI) auto
  with loop len show ?thesis unfolding r
    by (auto simp: new_chain_def previous_result_def split: if_splits)
qed

definition step_example :: "real \<Rightarrow> (exn + string) \<Rightarrow> step_env" where
  "step_example t res = \<lparr>wall_start = 0, perf_start = 0, perf_end = t, engine_time = t,
     engine_answer = (\<lambda>_. res), write_time = 0, db_prompt = (\<lambda>_. Attempt_Ok),
     db_answer = (\<lambda>_. Attempt_Ok)\<rparr>"

lemma execute_loop:
  assumes "chain_loop rep c dets dev envs (nat (max_steps c)) 0 [] [] st = (Inr ss, st1)"
  shows "\<exists>r. execute rep c dets dev envs t0 t1 st = (Inr r, st1) \<and> steps r = ss"
  unfolding execute_def assms by simp

lemma three_answers:
  "\<exists>ss. chain_loop rep (new_chain 5 15) [] dev (\<lambda>_. step_example 1 (Inr ''a door'')) 3 i ctx d None =
     (Inr ss, None) \<and> length ss = length d + 3"
  by (simp only: numeral_3_eq_3 chain_loop.simps wait_for_def step_example_def persist_step_def Let_def
      new_chain_def step_env.simps chain.simps option.simps sum.simps if_False order_refl) simp

theorem reasoning_chain_accounts_witness:
  "\<exists>r. execute (\<lambda>_. ''15.0'') (new_chain 5 15) [] ''cam'' (\<lambda>_. step_example 1 (Inr ''a door'')) 0 3 None
      = (Inr r, None) \<and> map step_name (steps r) = [''observe'', ''reason'', ''verify'']"
proof -
  have n: "nat (max_steps (new_chain 5 15)) = 3" by (simp add: new_chain_def)
  from three_answers [of "\<lambda>_. ''15.0''" "''cam''" 0 "''''" "[]"]
  obtain ss where ss: "chain_loop (\<lambda>_. ''15.0'') (new_chain 5 15) [] ''cam''
      (\<lambda>_. step_example 1 (Inr ''a door'')) 3 0 '''' [] None = (Inr ss, None)" and len: "length ss = 0 + 3"
    by (elim exE conjE) (rule that, simp_all only: list.size)
  have "\<exists>r. execute (\<lambda>_. ''15.0'') (new_chain 5 15) [] ''cam''
      (\<lambda>_. step_example 1 (Inr ''a door'')) 0 3 None = (Inr r, None) \<and> steps r = ss"
    by (rule execute_loop) (unfold n, rule ss)
  then obtain r where r: "execute (\<lambda>_. ''15.0'') (new_chain 5 15) [] ''cam''
      (\<lambda>_. step_example 1 (Inr ''a door'')) 0 3 None = (Inr r, None)" and "steps r = ss" by blast
  with reasoning_chain_accounts [OF r] len show ?thesis by (simp add: step_names_def)
qed

text \<open>
  A chain reports success whenever all of its steps but the last were answered; what
  became of the last step does not matter, and its error text is then the conclusion.
\<close>

theorem reasoning_success_ignores_last:
  assumes "execute rep (new_chain n timeout) dets dev envs t0 t1 st = (Inr r, st1)" and "0 \<le> n"
  shows "success r \<longleftrightarrow> (\<forall>i < nat (min n 3) - 1.
    i < length (steps r) \<and> answered (new_chain n timeout) envs (steps r) i)"
proof -
  let ?c = "new_chain n timeout"
  from assms obtain ss where ss: "chain_loop rep ?c dets dev envs (nat (max_steps ?c)) 0 '''' [] st = (Inr ss, st1)"
    and r: "steps r = ss" "success r = (int (length ss) = max_steps ?c)"
    by (auto simp: execute_def split: prod.splits sum.splits)
  note loop = chain_loop_accounts [OF ss, simplified previous_result_def well_prompted_def, simplified]
  have len: "length ss \<le> nat (min n 3)" "int (length ss) = max_steps ?c \<longleftrightarrow> length ss = nat (min n 3)"
    using loop assms(2) by (auto simp: new_chain_def)
  have "length ss = nat (min n 3)"
    if all: "\<forall>i < nat (min n 3) - 1. i < length ss \<and> answered ?c envs ss i"
  proof (rule ccontr)
    assume short: "length ss \<noteq> nat (min n 3)"
    with loop len have "ss \<noteq> []" "failed ?c envs ss (length ss - 1)" by (auto simp: new_chain_def)
    moreover have "length ss - 1 < nat (min n 3) - 1" using short len \<open>ss \<noteq> []\<close> by (cases ss) auto
    ultimately show False using all answered_not_failed by blast
  qed
  moreover have "i < length ss \<and> answered ?c envs ss i"
    if "length ss = nat (min n 3)" and "i < nat (min n 3) - 1" for i
    using that loop by simp
  ultimately show ?thesis unfolding r len(2) by blast
qed

theorem reasoning_success_ignores_last_witness:
  "\<exists>r. execute (\<lambda>_. ''15.0'') (new_chain 1 15) [] '''' (\<lambda>_. step_example 1 (Inl (Runtime_Error ''gpu''))) 0 1 None
      = (Inr r, None) \<and> success r \<and> final_conclusion r = ''[error: gpu]''"
proof -
  obtain r where r: "execute (\<lambda>_. ''15.0'') (new_chain 1 15) [] '''' (\<lambda>_. step_example 1 (Inl (Runtime_Error ''gpu''))) 0 1 None
      = (Inr r, None)" and "final_conclusion r = ''[error: gpu]''"
    by (simp add: execute_def new_chain_def wait_for_def step_example_def Let_def)
  with reasoning_success_ignores_last [OF r] show ?thesis by simp
qed

end
