(* ===== verification/Support.thy ===== *)
theory Support
  imports Config_Loader
begin

text \<open>
  Small services around the program: the version file (\<open>core/version.py\<close>), \<open>safe_async\<close>
  (\<open>core/error_handling.py\<close>), the upload client (\<open>storage/cloud_storage.py\<close>) and tracing
  (\<open>observability/tracing.py\<close>). The version file, boto3 and OpenTelemetry are parameters: what
  reading, importing or calling them gives or raises.
\<close>

subsection \<open>Versions\<close>

datatype version_file = No_File | Bad_Json | Json pyval | Unreadable exn

text \<open>The module's cache; a file that holds \<open>null\<close> leaves it empty.\<close>

definition load_version_data :: "version_file \<Rightarrow> pyval option \<Rightarrow> (exn + pyval) \<times> pyval option" where
  "load_version_data f cache =
     (case cache of
        Some v \<Rightarrow> (Inr v, cache)
      | None \<Rightarrow>
          (let fallback = PDict [(''version'', PStr ''0.0.0''), (''name'', PStr ''neuro-pipeline'')];
               loaded = (\<lambda>v. (Inr v, if v = PNone then None else Some v))
           in case f of
               Json v \<Rightarrow> loaded v
             | Unreadable e \<Rightarrow> (Inl e, None)
             | _ \<Rightarrow> loaded fallback))"

definition attr_get :: "string \<Rightarrow> pyval \<Rightarrow> pyval \<Rightarrow> exn + pyval" where
  "attr_get k dflt v =
     (case v of
        PDict d \<Rightarrow> Inr (case map_of d k of None \<Rightarrow> dflt | Some x \<Rightarrow> x)
      | _ \<Rightarrow> Inl (Attribute_Error ''get''))"

definition version_field :: "string \<Rightarrow> string \<Rightarrow> version_file \<Rightarrow> pyval option \<Rightarrow> (exn + pyval) \<times> pyval option" where
  "version_field k dflt f cache =
     (case load_version_data f cache of
        (Inl e, c) \<Rightarrow> (Inl e, c)
      | (Inr v, c) \<Rightarrow> (attr_get k (PStr dflt) v, c))"

definition get_version :: "version_file \<Rightarrow> pyval option \<Rightarrow> (exn + pyval) \<times> pyval option" where
  "get_version = version_field ''version'' ''0.0.0''"

definition get_name :: "version_file \<Rightarrow> pyval option \<Rightarrow> (exn + pyval) \<times> pyval option" where
  "get_name = version_field ''name'' ''neuro-pipeline''"

definition get_milestone :: "version_file \<Rightarrow> pyval option \<Rightarrow> (exn + pyval) \<times> pyval option" where
  "get_milestone = version_field ''milestone'' ''''"

definition get_component_version :: "string \<Rightarrow> version_file \<Rightarrow> pyval option \<Rightarrow> (exn + pyval) \<times> pyval option" where
  "get_component_version part f cache =
     (case load_version_data f cache of
        (Inl e, c) \<Rightarrow> (Inl e, c)
      | (Inr v, c) \<Rightarrow> (case attr_get ''components'' (PDict []) v of
            Inl e \<Rightarrow> (Inl e, c)
          | Inr cs \<Rightarrow> (attr_get part (PStr ''0.0.0'') cs, c)))"

definition get_full_info :: "version_file \<Rightarrow> pyval option \<Rightarrow> (exn + pyval) \<times> pyval option" where
  "get_full_info f cache =
     (case load_version_data f cache of
        (Inr (PDict d), c) \<Rightarrow> (Inr (PDict d), c)
      | (Inr (PList xs), c) \<Rightarrow> (Inr (PList xs), c)
      | (Inr _, c) \<Rightarrow> (Inl (Attribute_Error ''copy''), c)
      | (Inl e, c) \<Rightarrow> (Inl e, c))"

text \<open>
  The version is read once: the import of the module fills the cache with the file's
  object, and from then on every function answers from it, whatever the file holds later; a file
  that is missing or no JSON gives version \<open>0.0.0\<close>.
\<close>

theorem version_read_once:
  assumes "f \<in> {No_File, Bad_Json} \<and> d = [(''version'', PStr ''0.0.0''), (''name'', PStr ''neuro-pipeline'')] \<or> f = Json (PDict d)"
    and "c = snd (get_version f None)"
  shows "c = Some (PDict d) \<and>
    get_version later c = (Inr (case map_of d ''version'' of None \<Rightarrow> PStr ''0.0.0'' | Some v \<Rightarrow> v), c) \<and>
    get_name later c = (Inr (case map_of d ''name'' of None \<Rightarrow> PStr ''neuro-pipeline'' | Some v \<Rightarrow> v), c) \<and>
    get_full_info later c = (Inr (PDict d), c) \<and>
    snd (get_component_version part later c) = c"
proof -
  have "c = Some (PDict d)"
    using assms by (auto simp: get_version_def version_field_def load_version_data_def Let_def)
  then show ?thesis
    by (simp add: get_version_def get_name_def version_field_def load_version_data_def get_full_info_def
        get_component_version_def attr_get_def split: sum.split)
qed

theorem version_read_once_witness:
  "fst (get_version (Json (PDict [(''version'', PStr ''9.9.9'')])) (snd (get_version No_File None))) = Inr (PStr ''0.0.0'')"
proof -
  have "get_version (Json (PDict [(''version'', PStr ''9.9.9'')])) (snd (get_version No_File None)) =
      (Inr (PStr ''0.0.0''), snd (get_version No_File None))"
    using version_read_once [OF _ refl, THEN conjunct2, THEN conjunct1,
        of No_File "[(''version'', PStr ''0.0.0''), (''name'', PStr ''neuro-pipeline'')]"
          "Json (PDict [(''version'', PStr ''9.9.9'')])"] by simp
  then show ?thesis by simp
qed

subsection \<open>Safe calls\<close>

text \<open>\<open>safe_async\<close>: the result of the wrapped call is \<open>r\<close>.\<close>

definition safe_async :: "'a \<Rightarrow> exn + 'a \<Rightarrow> exn + 'a" where
  "safe_async dflt r =
     (case r of
        Inr v \<Rightarrow> Inr v
      | Inl e \<Rightarrow> if is_exception e then Inr dflt else Inl e)"

lemma safe_async_raises: "safe_async dflt r = Inl e \<longleftrightarrow> r = Inl Cancelled_Error \<and> e = Cancelled_Error"
proof (cases r)
  case (Inl a)
  then show ?thesis by (cases a) (auto simp: safe_async_def)
qed (simp add: safe_async_def)

subsection \<open>Uploads\<close>

record cloud_client =
  bucket :: string
  key_prefix :: string
  endpoint_url :: string
  region :: string
  available :: bool

record put_call =
  put_bucket :: string
  put_key :: string
  put_body :: string
  put_type :: string
  put_metadata :: "(string \<times> string) list option"

text \<open>\<open>OSError\<close> and its subclasses, of which \<open>ConnectionError\<close> and \<open>TimeoutError\<close> are two.\<close>

fun is_os_error :: "exn \<Rightarrow> bool" where
  "is_os_error (Os_Error _) = True"
| "is_os_error (Connection_Error _) = True"
| "is_os_error Timeout_Error = True"
| "is_os_error _ = False"

datatype library = Not_Installed | Raises exn | Works

definition init_client :: "library \<Rightarrow> cloud_client \<Rightarrow> exn + cloud_client" where
  "init_client boto c =
     (case boto of
        Not_Installed \<Rightarrow> Inr c
      | Raises e \<Rightarrow> if is_os_error e then Inr c else Inl e
      | Works \<Rightarrow> Inr (c\<lparr>available := True\<rparr>))"

definition new_client :: "library \<Rightarrow> string \<Rightarrow> string \<Rightarrow> string \<Rightarrow> string \<Rightarrow> exn + cloud_client" where
  "new_client boto b prefix1 url reg = init_client boto
     \<lparr>bucket = b, key_prefix = prefix1, endpoint_url = url, region = reg, available = False\<rparr>"

text \<open>The settings of the client that is made: an empty endpoint is left out.\<close>

definition client_settings :: "cloud_client \<Rightarrow> (string \<times> string) list" where
  "client_settings c = (''region_name'', region c) #
     (if endpoint_url c = '''' then [] else [(''endpoint_url'', endpoint_url c)])"

text \<open>\<open>put\<close> is what the call of \<open>put_object\<close> gives; the calls made are returned.\<close>

definition upload_bytes ::
    "(put_call \<Rightarrow> exn + unit) \<Rightarrow> cloud_client \<Rightarrow> string \<Rightarrow> string \<Rightarrow> string \<Rightarrow> (string \<times> string) list option
       \<Rightarrow> (exn + string option) \<times> put_call list" where
  "upload_bytes put c body key ctype meta =
     (if \<not> available c then (Inr None, [])
      else
        let full = key_prefix c @ key;
            call = \<lparr>put_bucket = bucket c, put_key = full, put_body = body, put_type = ctype,
                    put_metadata = (if meta = Some [] then None else meta)\<rparr>
        in case put call of
            Inr _ \<Rightarrow> (Inr (Some full), [call])
          | Inl e \<Rightarrow> (if is_os_error e then Inr None else Inl e, [call]))"

definition frame_key :: "string \<Rightarrow> int \<Rightarrow> string" where
  "frame_key dev i = ''frames/'' @ dev @ ''/'' @ str_int i @ ''.jpg''"

definition upload_frame ::
    "(put_call \<Rightarrow> exn + unit) \<Rightarrow> cloud_client \<Rightarrow> string \<Rightarrow> string \<Rightarrow> int \<Rightarrow> (string \<times> string) list option
       \<Rightarrow> (exn + string option) \<times> put_call list" where
  "upload_frame put c body dev i meta = upload_bytes put c body (frame_key dev i) ''image/jpeg'' meta"

lemma no_slash: "CHR ''/'' \<notin> set (str_int i)"
  using set_dec [of "nat i"] set_dec [of "nat (- i)"] by (auto simp: str_int_def)

lemma last_separator:
  assumes "a @ c # u = b @ c # v" and "c \<notin> set u" and "c \<notin> set v"
  shows "a = b \<and> u = v"
proof -
  have "takeWhile (\<lambda>x. x \<noteq> c) (rev (a @ c # u)) = rev u" "takeWhile (\<lambda>x. x \<noteq> c) (rev (b @ c # v)) = rev v"
    using assms(2,3) by (simp_all add: takeWhile_append)
  with assms(1) show ?thesis by simp
qed

text \<open>
  Frames of different devices or numbers are stored under different keys, even when a
  device's name has slashes in it; an upload makes one call when the client is available and
  none otherwise, answers the key exactly when that call succeeds, and raises only what is no
  \<open>OSError\<close>.
\<close>

theorem upload_frame_keys:
  assumes "available c"
  shows "(frame_key dev i = frame_key dev1 j \<longleftrightarrow> dev = dev1 \<and> i = j) \<and>
    (let (r, calls) = upload_frame put c body dev i meta
     in map put_key calls = [key_prefix c @ frame_key dev i] \<and> map put_body calls = [body] \<and>
        (r = Inr (Some (key_prefix c @ frame_key dev i)) \<longleftrightarrow> put (hd calls) = Inr ()) \<and>
        (\<forall>e. r = Inl e \<longrightarrow> put (hd calls) = Inl e \<and> \<not> is_os_error e)) \<and>
    upload_frame put (c\<lparr>available := False\<rparr>) body dev i meta = (Inr None, [])"
proof -
  have "dev = dev1 \<and> i = j" if "frame_key dev i = frame_key dev1 j"
    using that last_separator [of dev "CHR ''/''" "str_int i @ ''.jpg''" dev1 "str_int j @ ''.jpg''"]
    by (simp add: frame_key_def no_slash str_int_inj)
  then show ?thesis
    using assms by (auto simp: upload_frame_def upload_bytes_def Let_def split: sum.split)
qed

theorem upload_frame_keys_witness:
  "frame_key ''a/1'' 2 \<noteq> frame_key ''a'' 12 \<and>
   fst (upload_frame (\<lambda>_. Inr ()) \<lparr>bucket = ''b'', key_prefix = ''np/'', endpoint_url = '''', region = ''r'', available = True\<rparr>
     ''jpeg'' ''cam'' 7 None) = Inr (Some (''np/'' @ frame_key ''cam'' 7))"
  using upload_frame_keys [of "\<lparr>bucket = ''b'', key_prefix = ''np/'', endpoint_url = '''', region = ''r'', available = True\<rparr>"
      "''a/1''" 2 "''a''" 12 "\<lambda>_. Inr ()" "''jpeg''" None]
    upload_frame_keys [of "\<lparr>bucket = ''b'', key_prefix = ''np/'', endpoint_url = '''', region = ''r'', available = True\<rparr>"
      "''cam''" 7 "''cam''" 7 "\<lambda>_. Inr ()" "''jpeg''" None]
  by (simp add: case_prod_beta)

subsection \<open>Tracing\<close>

record tracing =
  tracer :: "string option"
  initialized :: bool

definition no_tracing :: tracing where
  "no_tracing = \<lparr>tracer = None, initialized = False\<rparr>"

fun is_setup_error :: "exn \<Rightarrow> bool" where
  "is_setup_error (Runtime_Error _) = True"
| "is_setup_error e = is_os_error e"

definition init_tracing :: "library \<Rightarrow> string \<Rightarrow> tracing \<Rightarrow> (exn + bool) \<times> tracing" where
  "init_tracing otel service t =
     (if initialized t then (Inr (tracer t \<noteq> None), t)
      else
        let t1 = t\<lparr>initialized := True\<rparr>
        in case otel of
            Works \<Rightarrow> (Inr True, t1\<lparr>tracer := Some service\<rparr>)
          | Not_Installed \<Rightarrow> (Inr False, t1)
          | Raises e \<Rightarrow> (if is_setup_error e then Inr False else Inl e, t1))"

text \<open>
  The span of a \<open>with\<close> statement: the attributes it is given as texts (\<open>str_of\<close> is \<open>str\<close>), or
  nothing without a tracer.
\<close>

definition span_attributes :: "('v \<Rightarrow> string) \<Rightarrow> tracing \<Rightarrow> (string \<times> 'v) list option \<Rightarrow> (string \<times> string) list option" where
  "span_attributes str_of t attrs =
     (case tracer t of
        None \<Rightarrow> None
      | Some _ \<Rightarrow> Some (case attrs of None \<Rightarrow> [] | Some kvs \<Rightarrow> map (\<lambda>(k, v). (k, str_of v)) kvs))"

text \<open>
  Tracing is decided by the first initialisation, even one that failed or raised: a
  later one changes nothing and answers whether there is a tracer.
\<close>

theorem tracing_decided_once:
  "init_tracing otel2 service2 (snd (init_tracing otel1 service1 no_tracing)) =
     (Inr (otel1 = Works), snd (init_tracing otel1 service1 no_tracing)) \<and>
   tracer (snd (init_tracing otel1 service1 no_tracing)) = (if otel1 = Works then Some service1 else None)"
  by (cases otel1) (simp_all add: init_tracing_def no_tracing_def)

end
