(* ===== verification/Timeseries.thy ===== *)
theory Timeseries
  imports Anomaly
begin

text \<open>
  The time series engine of \<open>analytics/timeseries_engine.py\<close>: trend by linear regression,
  anomaly points by z-score, and basic statistics, over the raw points of the store. The lemmas
  show that the regression is the least-squares line.
\<close>

subsection \<open>Fetching\<close>

definition fetch_rows :: "points_query option \<Rightarrow> string \<Rightarrow> string \<Rightarrow> real \<Rightarrow> real \<Rightarrow> exn + (real \<times> real) list" where
  "fetch_rows st dev metric hours now =
     (case st of
        None \<Rightarrow> Inr []
      | Some points \<Rightarrow> points metric dev (now - hours * 3600) now 10000)"

definition fetch_values :: "points_query option \<Rightarrow> string \<Rightarrow> string \<Rightarrow> real \<Rightarrow> real \<Rightarrow> exn + real list" where
  "fetch_values st dev metric hours now =
     (case fetch_rows st dev metric hours now of Inl e \<Rightarrow> Inl e | Inr rows \<Rightarrow> Inr (map snd rows))"

subsection \<open>Trend\<close>

datatype direction = Increasing | Decreasing | Stable

record trend_result =
  trend_metric :: string
  trend_device :: string
  trend_direction :: direction
  slope :: real
  r_squared :: real
  trend_samples :: nat

definition x_values :: "nat \<Rightarrow> real list" where
  "x_values n = map real [0..<n]"

text \<open>The sum of \<open>(xs[i] - x_mean) * (values[i] - y_mean)\<close> over the indices.\<close>

definition sum_xy :: "real list \<Rightarrow> real list \<Rightarrow> real" where
  "sum_xy xs ys = sum_list (map (\<lambda>(x, y). (x - mean xs) * (y - mean ys)) (zip xs ys))"

definition residual :: "real \<Rightarrow> real \<Rightarrow> real list \<Rightarrow> real list \<Rightarrow> real" where
  "residual m c xs ys = sum_list (map (\<lambda>(x, y). (y - (m * x + c))\<^sup>2) (zip xs ys))"

definition trend_of :: "string \<Rightarrow> string \<Rightarrow> real list \<Rightarrow> trend_result option" where
  "trend_of dev metric ys =
     (if length ys < 3 then None
      else
        let xs = x_values (length ys);
            ss_xy = sum_xy xs ys;
            ss_xx = sum_list (map (\<lambda>x. (x - mean xs)\<^sup>2) xs)
        in if ss_xx = 0
           then Some \<lparr>trend_metric = metric, trend_device = dev, trend_direction = Stable,
                      slope = 0, r_squared = 0, trend_samples = length ys\<rparr>
           else
             let m = ss_xy / ss_xx;
                 c = mean ys - m * mean xs;
                 ss_res = residual m c xs ys;
                 ss_tot = sum_list (map (\<lambda>y. (y - mean ys)\<^sup>2) ys)
             in Some \<lparr>trend_metric = metric, trend_device = dev,
                      trend_direction = (if \<bar>m\<bar> < 1 / 100 then Stable
                                         else if 0 < m then Increasing else Decreasing),
                      slope = m,
                      r_squared = (if 0 < ss_tot then 1 - ss_res / ss_tot else 0),
                      trend_samples = length ys\<rparr>)"

definition detect_trend ::
    "points_query option \<Rightarrow> string \<Rightarrow> string \<Rightarrow> real \<Rightarrow> real \<Rightarrow> exn + trend_result option" where
  "detect_trend st dev metric hours now =
     (case fetch_values st dev metric hours now of
        Inl e \<Rightarrow> Inl e
      | Inr ys \<Rightarrow> Inr (trend_of dev metric ys))"

subsection \<open>Anomaly points and statistics\<close>

record anomaly_point =
  ap_timestamp :: real
  ap_value :: real
  expected :: real
  deviation :: real

definition detect_anomaly_points ::
    "points_query option \<Rightarrow> string \<Rightarrow> string \<Rightarrow> real \<Rightarrow> real \<Rightarrow> real \<Rightarrow> exn + anomaly_point list" where
  "detect_anomaly_points st dev metric hours z now =
     (case fetch_rows st dev metric hours now of
        Inl e \<Rightarrow> Inl e
      | Inr rows \<Rightarrow>
          if length rows < 10 then Inr []
          else let vals = map snd rows; m = mean vals; s = sqrt (variance vals)
               in if s = 0 then Inr []
                  else Inr (map (\<lambda>(t, v). \<lparr>ap_timestamp = t, ap_value = v, expected = m,
                                            deviation = \<bar>v - m\<bar> / s\<rparr>)
                              (filter (\<lambda>(t, v). z \<le> \<bar>v - m\<bar> / s) rows)))"

record statistics =
  st_count :: nat
  st_mean :: real
  st_std :: real
  st_min :: real
  st_max :: real
  st_median :: real

definition median :: "real list \<Rightarrow> real" where
  "median vs =
     (let n = length vs; s = sort vs
      in if odd n then s ! (n div 2) else (s ! (n div 2 - 1) + s ! (n div 2)) / 2)"

definition statistics_of :: "real list \<Rightarrow> statistics option" where
  "statistics_of vs =
     (if vs = [] then None
      else Some \<lparr>st_count = length vs, st_mean = mean vs, st_std = sqrt (variance vs),
                 st_min = foldr min (tl vs) (hd vs), st_max = foldr max (tl vs) (hd vs),
                 st_median = median vs\<rparr>)"

definition compute_statistics ::
    "points_query option \<Rightarrow> string \<Rightarrow> string \<Rightarrow> real \<Rightarrow> real \<Rightarrow> exn + statistics option" where
  "compute_statistics st dev metric hours now =
     (case fetch_values st dev metric hours now of Inl e \<Rightarrow> Inl e | Inr vs \<Rightarrow> Inr (statistics_of vs))"

subsection \<open>Lemmas on the regression\<close>

lemma sum_list_centered: "sum_list (map (\<lambda>v. v - mean xs) xs) = 0"
proof (cases xs)
  case (Cons a as)
  have "sum_list (map (\<lambda>v. v - c) ys) = sum_list ys - real (length ys) * c" for c ys
    by (induction ys) (auto simp: algebra_simps)
  moreover have "real (length xs) * mean xs = sum_list xs" using Cons by (simp add: mean_def)
  ultimately show ?thesis by simp
qed simp

lemma sum_zip_fst: "length xs = length ys \<Longrightarrow> sum_list (map (\<lambda>(x, y). f x) (zip xs ys)) = (sum_list (map f xs) :: real)"
  by (induction xs ys rule: list_induct2) auto

lemma sum_zip_snd: "length xs = length ys \<Longrightarrow> sum_list (map (\<lambda>(x, y). f y) (zip xs ys)) = (sum_list (map f ys) :: real)"
  by (induction xs ys rule: list_induct2) auto

lemma sum_list_split3:
  "sum_list (map (\<lambda>(x, y). a * f x y + b * g x y + c * h x y) ps) =
     a * sum_list (map (\<lambda>(x, y). f x y) ps) + b * sum_list (map (\<lambda>(x, y). g x y) ps) +
     (c :: real) * sum_list (map (\<lambda>(x, y). h x y) ps)"
  by (induction ps) (auto simp: algebra_simps)

text \<open>
  The residual of any line, around the means: the cross terms vanish, so that it is a quadratic
  in the slope plus the square of the intercept's offset.
\<close>

lemma residual_expand:
  assumes len: "length xs = length ys"
  shows "residual m c xs ys =
    sum_list (map (\<lambda>y. (y - mean ys)\<^sup>2) ys) - 2 * m * sum_xy xs ys +
    m\<^sup>2 * sum_list (map (\<lambda>x. (x - mean xs)\<^sup>2) xs) +
    real (length ys) * (mean ys - (m * mean xs + c))\<^sup>2"
proof -
  let ?X = "mean xs" and ?Y = "mean ys"
  let ?d = "?Y - (m * ?X + c)"
  have "residual m c xs ys = sum_list (map (\<lambda>(x, y).
      1 * ((y - ?Y)\<^sup>2 + (- 2 * m) * ((x - ?X) * (y - ?Y))) + 1 * (m\<^sup>2 * (x - ?X)\<^sup>2) +
      1 * (2 * ?d * (y - ?Y) + (- 2 * ?d * m) * (x - ?X) + ?d\<^sup>2)) (zip xs ys))"
    unfolding residual_def by (intro arg_cong [where f = sum_list] map_cong refl)
      (auto simp: algebra_simps power2_eq_square)
  also have "\<dots> = sum_list (map (\<lambda>(x, y). (y - ?Y)\<^sup>2 + (- 2 * m) * ((x - ?X) * (y - ?Y))) (zip xs ys)) +
      sum_list (map (\<lambda>(x, y). m\<^sup>2 * (x - ?X)\<^sup>2) (zip xs ys)) +
      sum_list (map (\<lambda>(x, y). 2 * ?d * (y - ?Y) + (- 2 * ?d * m) * (x - ?X) + ?d\<^sup>2) (zip xs ys))"
    by (subst sum_list_split3) simp
  also have "sum_list (map (\<lambda>(x, y). (y - ?Y)\<^sup>2 + (- 2 * m) * ((x - ?X) * (y - ?Y))) (zip xs ys)) =
      sum_list (map (\<lambda>y. (y - ?Y)\<^sup>2) ys) - 2 * m * sum_xy xs ys"
    using sum_list_split3 [of 1 "\<lambda>x y. (y - ?Y)\<^sup>2" "- 2 * m" "\<lambda>x y. (x - ?X) * (y - ?Y)" 0 "\<lambda>x y. 0"]
      sum_zip_snd [OF len, of "\<lambda>y. (y - ?Y)\<^sup>2"] by (simp add: sum_xy_def)
  also have "sum_list (map (\<lambda>(x, y). m\<^sup>2 * (x - ?X)\<^sup>2) (zip xs ys)) =
      m\<^sup>2 * sum_list (map (\<lambda>x. (x - ?X)\<^sup>2) xs)"
    using sum_zip_fst [OF len, of "\<lambda>x. m\<^sup>2 * (x - ?X)\<^sup>2"] by (simp add: sum_list_const_mult)
  also have "sum_list (map (\<lambda>(x, y). 2 * ?d * (y - ?Y) + (- 2 * ?d * m) * (x - ?X) + ?d\<^sup>2) (zip xs ys)) =
      real (length ys) * ?d\<^sup>2"
    using sum_list_split3 [of "2 * ?d" "\<lambda>x y. y - ?Y" "- 2 * ?d * m" "\<lambda>x y. x - ?X" "?d\<^sup>2" "\<lambda>x y. 1"]
      sum_zip_snd [OF len, of "\<lambda>y. y - ?Y"] sum_zip_fst [OF len, of "\<lambda>x. x - ?X"]
      sum_zip_snd [OF len, of "\<lambda>y. 1"]
    by (simp add: sum_list_centered sum_list_triv)
  finally show ?thesis by simp
qed
lemma x_values_spread: "2 \<le> n \<Longrightarrow> 0 < sum_list (map (\<lambda>x. (x - mean (x_values n))\<^sup>2) (x_values n))"
proof -
  assume "2 \<le> n"
  let ?Q = "sum_list (map (\<lambda>x. (x - mean (x_values n))\<^sup>2) (x_values n))"
  have "0 \<in> set (x_values n)" "1 \<in> set (x_values n)"
    using \<open>2 \<le> n\<close> by (auto simp: x_values_def intro!: image_eqI [of _ _ "0"] image_eqI [of _ _ "1"])
  then have "(0 - mean (x_values n))\<^sup>2 \<le> ?Q" "(1 - mean (x_values n))\<^sup>2 \<le> ?Q"
    using square_le_sum_squares [of _ "x_values n" "\<lambda>x. x - mean (x_values n)"] by blast+
  then have "\<not> ?Q \<le> 0"
    by (smt (verit) power2_eq_iff zero_less_power2)
  then show ?thesis by simp
qed

lemma trend_of_regression:
  assumes "3 \<le> length ys" and xs: "xs = x_values (length ys)"
    and Q: "Q = sum_list (map (\<lambda>x. (x - mean xs)\<^sup>2) xs)"
    and T: "T = sum_list (map (\<lambda>y. (y - mean ys)\<^sup>2) ys)"
  shows "\<exists>t. trend_of dev metric ys = Some t \<and> slope t = sum_xy xs ys / Q \<and> 0 < Q \<and>
    r_squared t = (if 0 < T
      then 1 - residual (slope t) (mean ys - slope t * mean xs) xs ys / T else 0) \<and>
    trend_direction t = (if \<bar>slope t\<bar> < 1 / 100 then Stable
      else if 0 < slope t then Increasing else Decreasing)"
proof -
  have "0 < Q" using x_values_spread [of "length ys"] assms(1) by (simp add: Q xs)
  then show ?thesis
    using assms(1) by (auto simp: trend_of_def Let_def xs [symmetric] Q [symmetric] T)
qed

lemma best_residual:
  assumes "length xs = length ys" and "0 < Q"
    and Q: "Q = sum_list (map (\<lambda>x. (x - mean xs)\<^sup>2) xs)"
    and m: "m = sum_xy xs ys / Q" and c: "c = mean ys - m * mean xs"
  shows "residual m c xs ys = sum_list (map (\<lambda>y. (y - mean ys)\<^sup>2) ys) - (sum_xy xs ys)\<^sup>2 / Q"
proof -
  have "residual m c xs ys =
      sum_list (map (\<lambda>y. (y - mean ys)\<^sup>2) ys) - 2 * m * sum_xy xs ys + m\<^sup>2 * Q"
    by (simp add: residual_expand [OF assms(1)] Q c)
  also have "\<dots> = sum_list (map (\<lambda>y. (y - mean ys)\<^sup>2) ys) - (sum_xy xs ys)\<^sup>2 / Q"
    unfolding m using assms(2) by (simp add: power2_eq_square field_simps)
  finally show ?thesis .
qed

lemma best_residual_least:
  assumes "length xs = length ys" and "0 < Q"
    and Q: "Q = sum_list (map (\<lambda>x. (x - mean xs)\<^sup>2) xs)"
  shows "sum_list (map (\<lambda>y. (y - mean ys)\<^sup>2) ys) - (sum_xy xs ys)\<^sup>2 / Q \<le> residual m c xs ys"
proof -
  let ?S = "sum_xy xs ys"
  have "0 \<le> (m * Q - ?S)\<^sup>2 / Q" using assms(2) by simp
  also have "\<dots> = m\<^sup>2 * Q - 2 * m * ?S + ?S\<^sup>2 / Q"
    using assms(2) by (simp add: power2_eq_square field_simps)
  finally have "0 \<le> m\<^sup>2 * Q - 2 * m * ?S + ?S\<^sup>2 / Q" .
  moreover have "0 \<le> real (length ys) * (mean ys - (m * mean xs + c))\<^sup>2" by simp
  ultimately show ?thesis
    unfolding residual_expand [OF assms(1)] Q [symmetric] by linarith
qed

lemma residual_nonneg: "0 \<le> residual m c xs ys"
  unfolding residual_def by (rule sum_list_nonneg) auto

lemma mean_affine: "xs \<noteq> [] \<Longrightarrow> mean (map (\<lambda>x. a + b * x) xs) = a + b * mean xs"
proof -
  have "sum_list (map (\<lambda>x. a + b * x) xs) = real (length xs) * a + b * sum_list xs"
    by (induction xs) (auto simp: algebra_simps)
  then show "xs \<noteq> [] \<Longrightarrow> ?thesis" by (simp add: mean_def field_simps)
qed

lemma sum_xy_affine:
  assumes "xs \<noteq> []"
  shows "sum_xy xs (map (\<lambda>x. a + b * x) xs) = b * sum_list (map (\<lambda>x. (x - mean xs)\<^sup>2) xs)"
proof -
  have "sum_list (map (\<lambda>(x, y). (x - mean xs) * (y - (a + b * mean xs))) (zip ys (map (\<lambda>x. a + b * x) ys)))
      = b * sum_list (map (\<lambda>x. (x - mean xs)\<^sup>2) ys)" for ys
    by (induction ys) (auto simp: algebra_simps power2_eq_square)
  then show ?thesis by (simp add: sum_xy_def mean_affine [OF assms])
qed

subsection \<open>Properties\<close>

text \<open>
  The trend is the least-squares line: for three or more values a result is always
  given, no other line has a smaller sum of squared residuals than the one with the reported
  slope, the reported \<open>r_squared\<close> lies between 0 and 1, and values on a line have the line's
  slope.
\<close>

theorem trend_is_least_squares:
  assumes "3 \<le> length ys" and xs: "xs = x_values (length ys)"
  shows "\<exists>t. trend_of dev metric ys = Some t \<and>
    (\<forall>m c. residual (slope t) (mean ys - slope t * mean xs) xs ys \<le> residual m c xs ys) \<and>
    0 \<le> r_squared t \<and> r_squared t \<le> 1 \<and>
    (\<forall>a b. ys = map (\<lambda>x. a + b * x) xs \<longrightarrow> slope t = b)"
proof -
  let ?Q = "sum_list (map (\<lambda>x. (x - mean xs)\<^sup>2) xs)" and ?T = "sum_list (map (\<lambda>y. (y - mean ys)\<^sup>2) ys)"
  obtain t where t: "trend_of dev metric ys = Some t" "slope t = sum_xy xs ys / ?Q" "0 < ?Q"
    "r_squared t = (if 0 < ?T
      then 1 - residual (slope t) (mean ys - slope t * mean xs) xs ys / ?T else 0)"
    using trend_of_regression [OF assms(1) xs refl refl] by blast
  have len: "length xs = length ys" by (simp add: xs x_values_def)
  note best = best_residual [OF len t(3) refl t(2) refl]
  have least: "residual (slope t) (mean ys - slope t * mean xs) xs ys \<le> residual m c xs ys" for m c
    unfolding best by (rule best_residual_least [OF len t(3) refl])
  have "residual (slope t) (mean ys - slope t * mean xs) xs ys \<le> ?T"
    unfolding best using t(3) by simp
  then have "0 \<le> r_squared t \<and> r_squared t \<le> 1"
    using residual_nonneg [of "slope t" "mean ys - slope t * mean xs" xs ys]
    by (simp add: t(4) pos_divide_le_eq)
  moreover have "slope t = b" if "ys = map (\<lambda>x. a + b * x) xs" for a b
  proof -
    have "xs \<noteq> []" using assms(1) len by auto
    then have "sum_xy xs ys = b * ?Q" unfolding that by (rule sum_xy_affine)
    then show ?thesis using t(2,3) by simp
  qed
  ultimately show ?thesis using t(1) least by blast
qed

theorem trend_is_least_squares_witness:
  "\<exists>t. trend_of ''d'' ''m'' [1, 3, 5] = Some t \<and> slope t = 2"
  using trend_is_least_squares [of "[1, 3, 5]" "x_values 3" "''d''" "''m''"]
  by (auto simp: x_values_def upt_rec)

lemma foldr_min: "foldr min xs (x :: real) \<in> insert x (set xs) \<and> (\<forall>y \<in> insert x (set xs). foldr min xs x \<le> y)"
  by (induction xs) (auto simp: min_def)

lemma foldr_max: "foldr max xs (x :: real) \<in> insert x (set xs) \<and> (\<forall>y \<in> insert x (set xs). y \<le> foldr max xs x)"
  by (induction xs) (auto simp: max_def)

lemma median_between:
  assumes "vs \<noteq> []" and "\<forall>v \<in> set vs. a \<le> v \<and> v \<le> b"
  shows "a \<le> median vs \<and> median vs \<le> b"
proof -
  have n: "sort vs ! i \<in> set vs" if "i < length vs" for i
    using nth_mem [of i "sort vs"] that by simp
  have "length vs div 2 < length vs" "length vs div 2 - 1 < length vs"
    using assms(1) by (cases vs; simp)+
  from n [OF this(1)] n [OF this(2)] assms(2)
  have "a \<le> sort vs ! (length vs div 2) \<and> sort vs ! (length vs div 2) \<le> b"
    "a \<le> sort vs ! (length vs div 2 - 1) \<and> sort vs ! (length vs div 2 - 1) \<le> b" by blast+
  then show ?thesis by (auto simp: median_def Let_def)
qed

text \<open>
  The statistics of a metric are consistent: there are some exactly when there are
  values, the mean and the median lie between the smallest and the largest value, which are
  values of the metric, and the deviation is zero exactly for constant values.
\<close>

theorem statistics_consistent:
  assumes "vs \<noteq> []"
  shows "\<exists>s. statistics_of vs = Some s \<and> st_min s \<in> set vs \<and> st_max s \<in> set vs \<and>
    (\<forall>v \<in> set vs. st_min s \<le> v \<and> v \<le> st_max s) \<and>
    st_min s \<le> st_mean s \<and> st_mean s \<le> st_max s \<and>
    st_min s \<le> st_median s \<and> st_median s \<le> st_max s \<and>
    (st_std s = 0 \<longleftrightarrow> (\<forall>v \<in> set vs. v = st_mean s))"
proof -
  obtain x xs where vs: "vs = x # xs" using assms by (cases vs) auto
  have b: "\<forall>v \<in> set vs. foldr min xs x \<le> v \<and> v \<le> foldr max xs x"
    "foldr min xs x \<in> set vs" "foldr max xs x \<in> set vs"
    using foldr_min [of xs x] foldr_max [of xs x] by (simp_all add: vs)
  from mean_bounds [OF assms b(1)] median_between [OF assms b(1)] b std_dev_zero_iff [OF assms]
  show ?thesis by (simp add: statistics_of_def vs [symmetric] std_dev_def) (simp add: vs)
qed

theorem statistics_consistent_witness:
  "\<exists>s. statistics_of [3, 1, 2] = Some s \<and> 1 \<le> st_median s \<and> st_median s \<le> 3"
  using statistics_consistent [of "[3, 1, 2]"]
  by (auto simp: statistics_of_def)

end
