(* ===== verification/Vlm_Validator.thy ===== *)
theory Vlm_Validator
  imports Config_Loader
begin

text \<open>
  The validation of a downloaded model, \<open>model_management/vlm_validator.py\<close>. The MLX runtime is a
  parameter: \<open>None\<close> when it cannot be imported, else what loading the model gives or raises, with
  \<open>generate\<close> for an inference (\<open>None\<close> for an answer that is no text). The times the clock shows for
  the two phases are arguments, and \<open>float_text\<close> is \<open>str\<close> on floats.
\<close>

record validation =
  v_model_path :: string
  load_success :: bool
  load_time :: real
  inference_success :: bool
  inference_time :: real
  tokens_per_second :: real
  passed :: bool
  errors :: "string list"

record validator =
  min_tps :: real
  max_load_time :: real
  test_prompt :: string

definition rounded_to :: "nat \<Rightarrow> real \<Rightarrow> pyval" where
  "rounded_to n x = PFloat (Fin (real_of_int (round_half_even (x * 10 ^ n)) / 10 ^ n))"

definition validation_dict :: "validation \<Rightarrow> pyval" where
  "validation_dict v = PDict
     [(''model_path'', PStr (v_model_path v)), (''load_success'', PBool (load_success v)),
      (''load_time_seconds'', rounded_to 3 (load_time v)), (''inference_success'', PBool (inference_success v)),
      (''inference_time_seconds'', rounded_to 3 (inference_time v)),
      (''tokens_per_second'', rounded_to 2 (tokens_per_second v)), (''passed'', PBool (passed v)),
      (''errors'', PList (map PStr (errors v)))]"

text \<open>\<open>len(output.split())\<close>: the number of maximal runs of characters that are no white space.\<close>

definition white_space :: "char \<Rightarrow> bool" where
  "white_space c \<longleftrightarrow> (let n = of_char c :: nat in n = 32 \<or> 9 \<le> n \<and> n \<le> 13 \<or> 28 \<le> n \<and> n \<le> 31)"

primrec word_count :: "bool \<Rightarrow> string \<Rightarrow> nat" where
  "word_count inside [] = 0"
| "word_count inside (c # cs) =
     (if white_space c then word_count False cs else (if inside then 0 else 1) + word_count True cs)"

text \<open>\<open>_load_model\<close>: without the runtime the model is \<open>None\<close>, and the inference is made up.\<close>

definition load_test_model :: "(exn + 'm) option \<Rightarrow> exn + 'm option" where
  "load_test_model runtime =
     (case runtime of None \<Rightarrow> Inr None | Some (Inl e) \<Rightarrow> Inl e | Some (Inr m) \<Rightarrow> Inr (Some m))"

definition run_inference :: "(string \<Rightarrow> 'm \<Rightarrow> exn + string option) \<Rightarrow> validator \<Rightarrow> 'm option \<Rightarrow> nat \<Rightarrow> exn + nat" where
  "run_inference generate va m max_tokens =
     (case m of
        None \<Rightarrow> Inr max_tokens
      | Some x \<Rightarrow> (case generate (test_prompt va) x of
            Inl e \<Rightarrow> Inl (if is_exception e then Runtime_Error (''Inference error: '' @ exn_text e) else e)
          | Inr (Some t) \<Rightarrow> Inr (word_count False t)
          | Inr None \<Rightarrow> Inr max_tokens))"

definition benchmark ::
    "(real \<Rightarrow> string) \<Rightarrow> validator \<Rightarrow> real \<Rightarrow> exn + nat \<Rightarrow> validation \<Rightarrow> exn + validation" where
  "benchmark float_text va secs outcome r =
     (case outcome of
        Inl e \<Rightarrow> if is_exception e then Inr (r\<lparr>errors := errors r @ [''Inference failed: '' @ exn_text e]\<rparr>) else Inl e
      | Inr tokens \<Rightarrow>
          let r1 = r\<lparr>inference_time := secs, inference_success := True,
                     tokens_per_second := (if 0 < secs then real tokens / secs else 0)\<rparr>
          in Inr (if tokens_per_second r1 < min_tps va
                  then r1\<lparr>errors := errors r1 @ [''TPS '' @ fmt_fixed 1 (tokens_per_second r1) @ '' below minimum '' @
                         float_text (min_tps va)]\<rparr>
                  else r1))"

definition validate_model ::
    "(real \<Rightarrow> string) \<Rightarrow> validator \<Rightarrow> string \<Rightarrow> bool \<Rightarrow> (exn + 'm) option \<Rightarrow> (string \<Rightarrow> 'm \<Rightarrow> exn + string option)
       \<Rightarrow> real \<Rightarrow> real \<Rightarrow> exn + validation" where
  "validate_model float_text va path there runtime generate load_secs infer_secs =
     (let r = \<lparr>v_model_path = path, load_success = False, load_time = 0, inference_success = False,
               inference_time = 0, tokens_per_second = 0, passed = False, errors = []\<rparr>
      in if \<not> there then Inr (r\<lparr>errors := [''Model path does not exist: '' @ path]\<rparr>)
         else case load_test_model runtime of
             Inl e \<Rightarrow> if is_exception e then Inr (r\<lparr>errors := [''Load failed: '' @ exn_text e]\<rparr>) else Inl e
           | Inr m \<Rightarrow>
               let r1 = r\<lparr>load_time := load_secs, load_success := True,
                     errors := (if max_load_time va < load_secs
                       then [''Load time '' @ fmt_fixed 1 load_secs @ ''s exceeds max '' @ float_text (max_load_time va) @ ''s'']
                       else [])\<rparr>
               in case benchmark float_text va infer_secs (run_inference generate va m 50) r1 of
                   Inl e \<Rightarrow> Inl e
                 | Inr r2 \<Rightarrow> Inr (r2\<lparr>passed := (load_success r2 \<and> inference_success r2 \<and> errors r2 = [])\<rparr>))"

subsection \<open>When a model passes\<close>

definition speed :: "nat \<Rightarrow> real \<Rightarrow> real" where
  "speed tokens secs = (if 0 < secs then real tokens / secs else 0)"

text \<open>
  A model passes exactly when its path exists, it loads in time, and an inference works
  and is fast enough; a model that does not pass has an error message, and one that passes none.
  Where the runtime is not installed, every path that exists passes as soon as the made-up fifty
  tokens come quickly enough, which they do: nothing is checked.
\<close>

theorem validation_passes_iff:
  assumes "validate_model float_text va path there runtime generate load_secs infer_secs = Inr r"
  shows "(passed r \<longleftrightarrow> errors r = []) \<and>
    (passed r \<longleftrightarrow> there \<and> load_secs \<le> max_load_time va \<and>
      (\<exists>m n. load_test_model runtime = Inr m \<and> run_inference generate va m 50 = Inr n \<and> min_tps va \<le> speed n infer_secs)) \<and>
    (runtime = None \<and> there \<and> load_secs \<le> max_load_time va \<and> 0 < infer_secs \<and> min_tps va * infer_secs \<le> 50 \<longrightarrow> passed r)"
proof -
  have fast: "min_tps va \<le> speed 50 infer_secs" if "0 < infer_secs" "min_tps va * infer_secs \<le> 50"
    using that by (simp add: speed_def pos_le_divide_eq)
  have one: "(passed r \<longleftrightarrow> errors r = []) \<and> (passed r \<longleftrightarrow> there \<and> load_secs \<le> max_load_time va \<and>
      (\<exists>m n. load_test_model runtime = Inr m \<and> run_inference generate va m 50 = Inr n \<and> min_tps va \<le> speed n infer_secs))"
    using assms
    by (auto simp: validate_model_def benchmark_def speed_def Let_def split: if_splits sum.splits)
  moreover have "\<exists>m n. load_test_model runtime = Inr m \<and> run_inference generate va m 50 = Inr n \<and> min_tps va \<le> speed n infer_secs"
    if "runtime = None" "0 < infer_secs" "min_tps va * infer_secs \<le> 50"
    using that fast by (simp add: load_test_model_def run_inference_def)
  ultimately show ?thesis by blast
qed

definition strict_validator :: validator where
  "strict_validator = \<lparr>min_tps = 5, max_load_time = 60, test_prompt = ''Describe this image briefly.''\<rparr>"

theorem validation_passes_iff_witness:
  "\<exists>r. validate_model (\<lambda>_. '''') strict_validator ''/etc'' True (None :: (exn + unit) option) (\<lambda>_ _. Inr None) 0 (1/100) = Inr r \<and>
    passed r"
proof -
  have "\<exists>r. validate_model (\<lambda>_. '''') strict_validator ''/etc'' True (None :: (exn + unit) option) (\<lambda>_ _. Inr None) 0 (1/100) = Inr r"
    by (simp add: validate_model_def load_test_model_def benchmark_def run_inference_def Let_def)
  then obtain r where r: "validate_model (\<lambda>_. '''') strict_validator ''/etc'' True (None :: (exn + unit) option)
      (\<lambda>_ _. Inr None) 0 (1/100) = Inr r" by (elim exE)
  have "passed r" by (rule validation_passes_iff [OF r, THEN conjunct2, THEN conjunct2, THEN mp]) (simp add: strict_validator_def)
  with r show ?thesis by (intro exI [of _ r] conjI)
qed

end
