(* ===== verification/Spec2Isabelle.thy ===== *)
theory Spec2Isabelle
  imports
    Ab_Test
    Alert_Flow
    Alerting
    Annotator
    Anomaly
    Behavior
    Circuit_Breaker
    Config
    Config_Loader
    Config_Watcher
    Container
    Conversation
    Dashboard_Access
    Dashboard_Analytics
    Dashboard_App
    Dashboard_Control
    Dashboard_Events
    Dashboard_Pages
    Dashboard_Validators
    Demo_Data
    Detection_Processor
    Detection_Store
    Device_Session
    Event_Bus
    Grpc_Server
    Health
    Lifecycle
    Live_Walk
    Main_Program
    Main_Run
    Metrics
    Model_Download
    Model_Export
    Model_Registry
    Orchestrator
    Plugin_Manager
    Prelude
    Prompts
    Pubsub
    Py_Float
    Py_Number
    Py_Regex
    Py_Text
    Rag
    Rate_Limiter
    Reasoning
    Reid
    Report
    Retry
    Statistics
    Support
    System
    Timeseries
    Tools
    Vlm_Guide
    Vlm_Pipeline
    Vlm_Validator
    Worker_Steps
begin

text \<open>
  A model of Neuro-Pipeline's Python program: the central server under \<open>src/mac-central\<close>, the
  dashboard under \<open>src/extensions/dashboard\<close> and the build tools under \<open>src/tools\<close>.

  \<^bold>\<open>The program.\<close> Edge devices send detections over gRPC. The servicer checks a stream's messages
  (rate limit, session, message validity) and hands each result to the orchestrator. The orchestrator
  runs the detection processor, which matches rules, asks the behaviour analyser and the anomaly baselines,
  publishes an event and may queue a request for the VLM. The VLM worker takes requests from
  the queue in batches, asks the model under a circuit breaker, reads configuration advice out of
  the answer, and publishes the result. The orchestrator's event bus stores events in the database and in the queues
  of its listeners; alerts go out by a webhook with a cooldown per rule. The dashboard reads the store and sends commands
  back through the orchestrator's command queue. Configuration comes from YAML and the
  environment, is checked, and is loaded again when the file changes. The entry point builds the services through the
  container and runs them until a signal.

  \<^bold>\<open>Conventions\<close> (\<open>Prelude\<close>, \<open>Py_Text\<close>, \<open>Py_Float\<close>, \<open>Py_Number\<close>, \<open>Py_Regex\<close>, \<open>Live_Walk\<close>, \<open>Statistics\<close>).
  \<^item> A class is a record of its attributes, a method a function from the object to the changed
    object and the result. What raises returns \<open>exn + 'a\<close>. A dictionary is an association list
    with distinct keys. Time is an argument.
  \<^item> Floats are real numbers with exact arithmetic; where infinities or NaN can arrive (the wire,
    z-scores, YAML) they are values of \<open>pyfloat\<close>. Rounding errors are not modelled.
  \<^item> Values of YAML and JSON are the datatype \<open>pyval\<close> of \<open>Config_Loader\<close>.
  \<^item> Concurrency is that of asyncio: between two awaits that may wait nothing else runs, so a
    method without such an await is one step, and an interleaving is a list of operations. The
    locales \<open>kept_invariant\<close> and \<open>guarded_invariant\<close> of \<open>Prelude\<close> carry an invariant from
    a step to all such lists; they are interpreted on the step function of each stateful component.
  \<^item> Code outside the repository (the models of MLX, gRPC, SQLite's file, boto3, OpenTelemetry,
    the operating system, random draws) is a parameter: its answers are arguments. SQL statements
    are translated by what they do to a list of rows.
  \<^item> Logging is left out everywhere, and so are the Prometheus counters that no logic reads.

  \<^bold>\<open>Theories and code\<close>, below \<open>src/mac-central/src\<close> unless a path says otherwise.
  \<^item> \<open>observability/\<close>: \<open>Circuit_Breaker\<close>, \<open>Retry\<close>, \<open>Alerting\<close>, \<open>Health\<close>; tracing is in \<open>Support\<close>.
  \<^item> \<open>communication/\<close>: \<open>Rate_Limiter\<close>, \<open>Device_Session\<close>, \<open>Grpc_Server\<close> (every method of the
    servicer), \<open>Lifecycle\<close> (start and stop of the server around it, and opening, migration and backups of
    the database).
  \<^item> \<open>model_management/\<close>: \<open>Model_Registry\<close> (with \<open>communication/model_actions.py\<close>),
    \<open>Ab_Test\<close>, \<open>Vlm_Validator\<close>.
  \<^item> \<open>core/\<close>: \<open>Event_Bus\<close> (the orchestrator's bus), \<open>Pubsub\<close> (the publish-subscribe bus of
    \<open>events.py\<close>), \<open>Config_Loader\<close>, \<open>Config_Watcher\<close> (\<open>hot_reload.py\<close>), \<open>Plugin_Manager\<close>,
    \<open>Container\<close>; version and error handling are in \<open>Support\<close>. \<open>config.py\<close> is \<open>Config\<close>.
  \<^item> \<open>storage/\<close>: \<open>Detection_Store\<close> with its repositories; cloud storage is in \<open>Support\<close>. Its two query
    interfaces are the locales \<open>event_source\<close> and \<open>timeseries_source\<close>, interpreted there on the
    store; \<open>Behavior\<close>, \<open>Anomaly\<close> and \<open>Rag\<close> prove their lemmas in these locales.
  \<^item> \<open>pipeline/\<close>: \<open>Anomaly\<close>, \<open>Behavior\<close>, \<open>Detection_Processor\<close>, \<open>Vlm_Pipeline\<close>, \<open>Orchestrator\<close>.
  \<^item> \<open>inference/\<close>: \<open>Prompts\<close>, \<open>Conversation\<close> (with the engine), \<open>Rag\<close>, \<open>Vlm_Guide\<close>, \<open>Reasoning\<close>.
  \<^item> \<open>analytics/\<close>: \<open>Timeseries\<close>, \<open>Reid\<close>, \<open>Annotator\<close>, \<open>Report\<close>.
  \<^item> \<open>main.py\<close>: \<open>Main_Program\<close> (configuration with overrides, start of the services, session
    clean-up, hot reload, shutdown) and \<open>Main_Run\<close> (the order of the steps and what an
    exception in one of them leaves running).
  \<^item> \<open>src/extensions/dashboard\<close>: \<open>Dashboard_Validators\<close>, \<open>Dashboard_Access\<close>, \<open>Dashboard_Events\<close>,
    \<open>Dashboard_Control\<close>, \<open>Dashboard_Analytics\<close>, and \<open>Dashboard_App\<close>, which composes them into one program with its
    injected services and one constructor of \<open>request\<close> per JSON route. \<open>Dashboard_Pages\<close> has the pages that are
    not JSON, \<open>Demo_Data\<close> the made-up answers of the demo mode, over a source of random numbers in the state monad.
  \<^item> \<open>scripts/download_vlm_model.py\<close> is \<open>Model_Download\<close>; \<open>src/tools\<close> is \<open>Tools\<close>, with the
    ONNX export and the benchmark in \<open>Model_Export\<close>. \<open>observability/metrics.py\<close> is in \<open>Metrics\<close> (the declarations)
    and \<open>Orchestrator\<close> (the gauges of the devices).
  \<^item> \<open>System\<close> puts servicer, sessions, limits, orchestrator, worker and listeners into one state
    machine, with any number of streams.
  \<^item> \<open>Worker_Steps\<close> refines that state machine: the VLM worker, its batch and the shutdown are inductive
    step relations with one step per await, between which the other tasks run. \<open>Alert_Flow\<close> adds which alerts such runs start
    and what the rules of \<open>config.yaml\<close> make of them.
\<close>

text \<open>
  \<^bold>\<open>What the theorems show.\<close>
  \<^item> Bounds that hold in every interleaving: sessions, VLM queue and listener queues of the whole
    server; the models deployed on a device; the buffers of the event buses; the rate limit over any interval of time.
  \<^item> At every await of the worker: the unfinished tasks are the queued ones and those in its hands, and the
    breaker is half open only while its probe is with the model. A round of the worker in \<open>Vlm_Pipeline\<close> is a run
    of the steps with the same effect.
  \<^item> Contracts against an abstract specification: the circuit breaker opens exactly after a
    streak of failures that a specification counts; \<open>validate\<close> and the dashboard's check accept
    exactly the configurations that a list of conditions describes; the event list of the
    dashboard is a window on the abstract sequence of its events.
  \<^item> Function of the handlers on every branch: answers of a stream, registration of a device,
    the query and recording of the store, when a VLM analysis is requested, what an item of the
    worker records, what a configuration update changes.
  \<^item> Delivery and ordering: commands leave in the order they came, a listener receives a subsequence of the published
    events, a change of the configuration file is reported once, a detection
    message is published whatever fails beside it.
  \<^item> Termination and liveness: the publish loop over its live list of handlers ends unless a
    handler grows it without end; while the shutdown waits for the queue the worker can always move and makes a
    bounded number of steps; shutdown drains the queue within its time; a silent device is removed by the clean-up.
  \<^item> Types and round trips: a loaded configuration has the types of its fields, and a
    configuration written to a dictionary is read back.
  \<^item> Behaviour that the code does not mean to have is stated in the same way, as what the code does: the
    dashboard's v2 interface never sees an injected service and serves made-up scores, its index page is public at the root,
    a shutdown that finds the queue empty drops the items in the worker's hands, two of the configured alert rules are never asked for,
    event numbers of edge events disagree with the protocol, batches bypass the breaker, a forced reload skips the asynchronous
    callbacks, a rejected reload is applied in part, the level of the root logger can be set without credentials.

  \<^bold>\<open>Recursion and fuel.\<close> Loops over finite containers are structural recursion. The walks over
  containers that their bodies may change (\<open>events.py\<close>, \<open>hot_reload.py\<close>, \<open>plugin.py\<close>) are
  \<open>partial_function (option)\<close>, with \<open>None\<close> for a loop that does not end; the theorems say when
  they end. Retry loops carry their budget from the code
  (\<open>max_retries\<close>, the list of attempts at a database statement). Endless background tasks (the watcher's poll, session clean-up,
  backups, the VLM worker) are one function per round, or a run over the finite list of their inputs. The steps of the
  worker while the queue is joined decrease a measure that starts at no more than \<open>7 * unfinished + 2\<close>: nothing is
  enqueued then, and seven bounds the awaits that a task passes until it is done. The matcher of regular
  expressions recurses on the pattern, and its repetitions are of single characters.

  \<^bold>\<open>Not modelled.\<close>
  \<^item> The edge program, which is C++, and the CORS middleware of the dashboard, a library. The template of the
    index page and the Prometheus text are parameters.
  \<^item> Statements after a call that always raises: the suggestions of the guidance route and the
    demo report of the report route.
  \<^item> The logger factory, re-exports of packages, argument parsers, properties that only give access to
    a field, and the constants of \<open>EventType\<close>, which nothing uses.
  \<^item> Rounding of floats, and threads of executors.

  \<^bold>\<open>What could be added.\<close> The open database transaction across several retried statements; floats with rounding in
  the statistics.
\<close>

end
